(* ===== verification/Socket_Prelude.thy ===== *)
theory Socket_Prelude
  imports Main "HOL-Library.Word" "HOL-Library.State_Monad" "HOL-Library.Sublist"
begin

text \<open>
  What every theory of the development shares: the names of the machine types, the ways a C++
  call can fail to return, the weakest-precondition calculus for state-monad programs that the
  component proofs run on, and a few lemmas on lists and words.
\<close>

section \<open>Types and collections\<close>

text \<open>
  A byte buffer is a \<open>char list\<close> (a HOL \<open>char\<close> is one byte). \<open>size_t\<close> and \<open>ssize_t\<close>
  are 64-bit words, the latter read with \<open>sint\<close>. A port is a 16-bit word and an IPv4 address a
  32-bit word in network byte order, as \<open>in_port_t\<close> and \<open>in_addr_t\<close> are.
\<close>

type_synonym bytes = "char list"
type_synonym size_t = "64 word"
type_synonym ssize_t = "64 word"
type_synonym uint16_t = "16 word"
type_synonym in_addr_t = "32 word"
type_synonym SOCKET = int

text \<open>
  The ways in which a call may leave the program's control flow: an exception that escapes the
  call, \<open>std::terminate\<close>, \<open>exit\<close>, or an operation the C++ or POSIX standards leave
  undefined (with a note on which).
\<close>

datatype abort = Throw string | Terminate | Exit int | UB string

type_synonym 'a outcome = "abort + 'a"

named_theorems wp_simps "weakest-precondition equations of the model's operations"
named_theorems event_simps "how the observers of a trace see a single event"

text \<open>Sequencing when the first action may abort.\<close>

definition obind :: "('s, 'a outcome) state \<Rightarrow> ('a \<Rightarrow> ('s, 'b outcome) state) \<Rightarrow> ('s, 'b outcome) state" where
  "obind m k = do {
     r \<leftarrow> m;
     (case r of Inl a \<Rightarrow> State_Monad.return (Inl a) | Inr x \<Rightarrow> k x)
   }"

section \<open>Weakest preconditions for the state monad\<close>

definition wp :: "('s, 'a) state \<Rightarrow> ('a \<Rightarrow> 's \<Rightarrow> bool) \<Rightarrow> 's \<Rightarrow> bool" where
  "wp m Q s = (case run_state m s of (r, s') \<Rightarrow> Q r s')"

lemma wp_run: "wp m Q s = Q (fst (run_state m s)) (snd (run_state m s))"
  by (simp add: wp_def case_prod_beta)

lemma wpD: "wp m Q s \<Longrightarrow> run_state m s = (r, s') \<Longrightarrow> Q r s'"
  by (simp add: wp_def)

lemma wpI: "(\<And>r s'. run_state m s = (r, s') \<Longrightarrow> Q r s') \<Longrightarrow> wp m Q s"
  by (simp add: wp_def split: prod.split)

lemma wp_return [simp]: "wp (State_Monad.return x) Q s = Q x s"
  by (simp add: wp_def)

lemma wp_bind [simp]: "wp (State_Monad.bind m f) Q s = wp m (\<lambda>r. wp (f r) Q) s"
  by (simp add: wp_def split: prod.split)

lemma wp_get [simp]: "wp State_Monad.get Q s = Q s s"
  by (simp add: wp_def)

lemma wp_set [simp]: "wp (State_Monad.set s') Q s = Q () s'"
  by (simp add: wp_def)

lemma run_state_update [simp]: "run_state (State_Monad.update f) s = ((), f s)"
  by (simp add: State_Monad.update_def)

lemma wp_update [simp]: "wp (State_Monad.update f) Q s = Q () (f s)"
  by (simp add: wp_def)

lemma wp_if [simp]: "wp (if b then m else n) Q s = (if b then wp m Q s else wp n Q s)"
  by simp

lemma wp_case_prod [simp]: "wp (case x of (a, b) \<Rightarrow> f a b) Q s = (case x of (a, b) \<Rightarrow> wp (f a b) Q s)"
  by (cases x) simp

lemma wp_case_option [simp]:
  "wp (case x of None \<Rightarrow> f | Some a \<Rightarrow> g a) Q s =
     (case x of None \<Rightarrow> wp f Q s | Some a \<Rightarrow> wp (g a) Q s)"
  by (cases x) simp_all

lemma wp_case_list [simp]:
  "wp (case x of [] \<Rightarrow> f | a # as \<Rightarrow> g a as) Q s =
     (case x of [] \<Rightarrow> wp f Q s | a # as \<Rightarrow> wp (g a as) Q s)"
  by (cases x) simp_all

lemma wp_case_sum [simp]:
  "wp (case x of Inl a \<Rightarrow> f a | Inr b \<Rightarrow> g b) Q s =
     (case x of Inl a \<Rightarrow> wp (f a) Q s | Inr b \<Rightarrow> wp (g b) Q s)"
  by (cases x) simp_all

lemma wp_mono: "wp m Q s \<Longrightarrow> (\<And>r t. Q r t \<Longrightarrow> R r t) \<Longrightarrow> wp m R s"
  by (simp add: wp_def split: prod.splits)

lemma wp_obind [simp]:
  "wp (obind m k) Q s = wp m (\<lambda>r. case r of Inl a \<Rightarrow> Q (Inl a) | Inr x \<Rightarrow> wp (k x) Q) s"
  unfolding obind_def by (auto simp: wp_def split: prod.splits sum.splits)

lemma wp_conj: "wp m (\<lambda>r t. Q r t \<and> R r t) s \<longleftrightarrow> wp m Q s \<and> wp m R s"
  by (simp add: wp_def split: prod.splits)

section \<open>Words\<close>

text \<open>
  The two tests every \<open>sendMsg\<close> makes on the count the kernel returns, \<open>n < 0\<close> signed and
  \<open>n < size\<close> unsigned, both fail exactly when the whole message went out, provided the size is a
  valid \<open>ssize_t\<close> and the kernel's count is -1 or at most the size.
\<close>

lemma complete_send_iff:
  fixes n sz :: "64 word"
  assumes "0 \<le> sint sz" and "n = -1 \<or> n \<le> sz"
  shows "\<not> sint n < 0 \<and> \<not> n < sz \<longleftrightarrow> n = sz"
  using assms by (auto simp: not_less)

end
