(* ===== verification/Cxx_Std.thy ===== *)
theory Cxx_Std
  imports Socket_Prelude
begin

text \<open>
  The parts of the C and C++ standard libraries and of POSIX that the sources use and whose
  meaning the standards fix: decimal formatting and \<open>snprintf\<close> into a bounded buffer,
  \<open>std::stoul\<close> and \<open>std::stoi\<close>, the byte-order functions, and \<open>fd_set\<close>.
\<close>

unbundle bit_operations_syntax

section \<open>Build and platform parameters\<close>

text \<open>
  \<open>FMT_SUPPORT\<close> is the CMake option that selects the \<open>fmt::format\<close> or the
  \<open>snprintf\<close> branch of every message. \<open>big_endian\<close> is the byte order of the host.
  \<open>inet_pton\<close> and \<open>inet_ntop\<close> are the C library's conversions for \<open>AF_INET\<close>
  (\<open>None\<close>: the text is no address and the destination is left alone). \<open>um_iter\<close> is the
  order in which a range-\<open>for\<close> over a \<open>std::unordered_map\<close> visits its keys, which the
  standard leaves open.
\<close>

record platform =
  FMT_SUPPORT :: bool
  big_endian :: bool
  inet_pton :: "string \<Rightarrow> in_addr_t option"
  inet_ntop :: "in_addr_t \<Rightarrow> string"
  um_iter :: "int list \<Rightarrow> int list"

section \<open>Decimal numbers\<close>

definition digit_char :: "nat \<Rightarrow> char" where
  "digit_char d = char_of (48 + d)"

fun dec_nat :: "nat \<Rightarrow> string" where
  "dec_nat n = (if n < 10 then [digit_char n] else dec_nat (n div 10) @ [digit_char (n mod 10)])"

declare dec_nat.simps [simp del]

definition dec_int :: "int \<Rightarrow> string" where
  "dec_int i = (if i < 0 then CHR ''-'' # dec_nat (nat (- i)) else dec_nat (nat i))"

definition is_digit :: "char \<Rightarrow> bool" where
  "is_digit c \<longleftrightarrow> 48 \<le> (of_char c :: nat) \<and> (of_char c :: nat) \<le> 57"

definition digit_val :: "char \<Rightarrow> nat" where
  "digit_val c = of_char c - 48"

definition is_space :: "char \<Rightarrow> bool" where
  "is_space c \<longleftrightarrow> of_char c = (32::nat) \<or> (9 \<le> (of_char c :: nat) \<and> (of_char c :: nat) \<le> 13)"

definition digits_val :: "string \<Rightarrow> nat" where
  "digits_val ds = foldl (\<lambda>a c. 10 * a + digit_val c) 0 ds"

text \<open>
  What \<open>strtoul\<close> and \<open>strtol\<close> read in base 10: white space, one optional sign, then the
  longest run of digits; \<open>None\<close> when there is no digit.
\<close>

definition scan_number :: "string \<Rightarrow> (bool \<times> nat) option" where
  "scan_number s =
     (let t = dropWhile is_space s;
          neg = (t \<noteq> [] \<and> hd t = CHR ''-'');
          u = (if t \<noteq> [] \<and> (hd t = CHR ''-'' \<or> hd t = CHR ''+'') then tl t else t);
          ds = takeWhile is_digit u
      in if ds = [] then None else Some (neg, digits_val ds))"

definition stoul :: "string \<Rightarrow> 64 word outcome" where
  "stoul s =
     (case scan_number s of
        None \<Rightarrow> Inl (Throw ''std::invalid_argument'')
      | Some (neg, n) \<Rightarrow>
          if 2 ^ 64 \<le> n then Inl (Throw ''std::out_of_range'')
          else Inr (if neg then - of_nat n else of_nat n))"

definition stoi :: "string \<Rightarrow> int outcome" where
  "stoi s =
     (case scan_number s of
        None \<Rightarrow> Inl (Throw ''std::invalid_argument'')
      | Some (neg, n) \<Rightarrow>
          let v = (if neg then - int n else int n) in
          if v < - (2 ^ 31) \<or> 2 ^ 31 \<le> v then Inl (Throw ''std::out_of_range'') else Inr v)"

text \<open>
  \<open>snprintf(buf, n, ...)\<close> stores at most \<open>n - 1\<close> characters and a terminator; assigning
  \<open>buf\<close> to a \<open>std::string\<close> then reads them back.
\<close>

definition snprintf :: "nat \<Rightarrow> string \<Rightarrow> string" where
  "snprintf n text = take (n - 1) text"

section \<open>Byte order\<close>

definition swap16 :: "uint16_t \<Rightarrow> uint16_t" where
  "swap16 x = push_bit 8 x OR drop_bit 8 x"

definition htons :: "platform \<Rightarrow> uint16_t \<Rightarrow> uint16_t" where
  "htons p x = (if big_endian p then x else swap16 x)"

definition ntohs :: "platform \<Rightarrow> uint16_t \<Rightarrow> uint16_t" where
  "ntohs p x = (if big_endian p then x else swap16 x)"

definition INADDR_ANY :: in_addr_t where
  "INADDR_ANY = 0"

section \<open>Descriptor sets\<close>

text \<open>
  An \<open>fd_set\<close> is a bit field of \<open>FD_SETSIZE\<close> bits. The macros are undefined outside that
  range, which is \<open>None\<close> here.
\<close>

type_synonym fd_set = "1024 word"

definition FD_SETSIZE :: int where
  "FD_SETSIZE = 1024"

definition fd_in_range :: "int \<Rightarrow> bool" where
  "fd_in_range fd \<longleftrightarrow> 0 \<le> fd \<and> fd < FD_SETSIZE"

definition FD_ZERO :: fd_set where
  "FD_ZERO = 0"

definition FD_SET :: "int \<Rightarrow> fd_set \<Rightarrow> fd_set option" where
  "FD_SET fd fds = (if fd_in_range fd then Some (set_bit (nat fd) fds) else None)"

definition FD_CLR :: "int \<Rightarrow> fd_set \<Rightarrow> fd_set option" where
  "FD_CLR fd fds = (if fd_in_range fd then Some (unset_bit (nat fd) fds) else None)"

definition FD_ISSET :: "int \<Rightarrow> fd_set \<Rightarrow> bool option" where
  "FD_ISSET fd fds = (if fd_in_range fd then Some (bit fds (nat fd)) else None)"

text \<open>The members of a descriptor set, for specifications.\<close>

definition fds_of :: "fd_set \<Rightarrow> int set" where
  "fds_of fds = {fd. fd_in_range fd \<and> bit fds (nat fd)}"

section \<open>Lemmas\<close>

lemma digit_char_props:
  assumes "d < 10"
  shows "is_digit (digit_char d)" and "digit_val (digit_char d) = d"
  using assms by (simp_all add: is_digit_def digit_val_def digit_char_def)

lemma dec_nat_nonempty [simp]: "dec_nat n \<noteq> []"
  by (subst dec_nat.simps) simp

lemma dec_nat_digits: "c \<in> set (dec_nat n) \<Longrightarrow> is_digit c"
proof (induction n rule: dec_nat.induct)
  case (1 n)
  then show ?case
    by (subst (asm) (2) dec_nat.simps) (auto simp: digit_char_props split: if_splits)
qed

lemma digits_val_snoc: "digits_val (ds @ [c]) = 10 * digits_val ds + digit_val c"
  by (simp add: digits_val_def)

lemma digits_val_dec_nat: "digits_val (dec_nat n) = n"
proof (induction n rule: dec_nat.induct)
  case (1 n)
  show ?case
  proof (cases "n < 10")
    case True
    then show ?thesis
      by (subst dec_nat.simps) (simp add: digits_val_def digit_char_props)
  next
    case False
    with 1 show ?thesis
      by (subst dec_nat.simps) (simp add: digits_val_snoc digit_char_props)
  qed
qed

lemma length_dec_nat: "n < 10 ^ k \<Longrightarrow> 0 < k \<Longrightarrow> length (dec_nat n) \<le> k"
proof (induction n arbitrary: k rule: dec_nat.induct)
  case (1 n)
  show ?case
  proof (cases "n < 10")
    case True
    with "1.prems" show ?thesis
      by (subst dec_nat.simps) simp
  next
    case False
    with "1.prems" obtain j where k: "k = Suc j" "0 < j"
      by (cases k; cases "k - 1") auto
    with "1.prems" have "n div 10 < 10 ^ j"
      by (simp add: less_mult_imp_div_less mult.commute)
    with "1.IH" [OF False _ \<open>0 < j\<close>] False k show ?thesis
      by (subst dec_nat.simps) simp
  qed
qed

lemma digit_not_space: "is_digit c \<Longrightarrow> \<not> is_space c"
  by (auto simp: is_digit_def is_space_def)

lemma digit_not_sign: "is_digit c \<Longrightarrow> c \<noteq> CHR ''-'' \<and> c \<noteq> CHR ''+''"
  by (auto simp: is_digit_def)

lemma scan_number_dec_nat: "scan_number (dec_nat n @ rest) =
   Some (False, digits_val (takeWhile is_digit (dec_nat n @ rest)))"
proof -
  obtain c cs where c: "dec_nat n = c # cs"
    by (cases "dec_nat n") simp_all
  have d: "is_digit c"
    using dec_nat_digits [of c n] c by simp
  show ?thesis
    using d digit_not_space [OF d] digit_not_sign [OF d] c by (simp add: scan_number_def)
qed

lemma scan_number_dec_nat' [simp]: "scan_number (dec_nat n) = Some (False, n)"
proof -
  have "takeWhile is_digit (dec_nat n) = dec_nat n"
    by (rule takeWhile_eq_all_conv [THEN iffD2]) (simp add: dec_nat_digits)
  then show ?thesis
    using scan_number_dec_nat [of n "[]"]
    by (simp add: digits_val_dec_nat del: takeWhile_eq_all_conv)
qed

lemma length_snprintf [simp]: "0 < n \<Longrightarrow> length (snprintf n text) < n"
  by (simp add: snprintf_def)

lemma snprintf_fits: "length text < n \<Longrightarrow> snprintf n text = text"
  by (simp add: snprintf_def)

lemma swap16_swap16 [simp]: "swap16 (swap16 x) = x"
  by (rule bit_word_eqI) (auto simp: swap16_def bit_simps)

lemma ntohs_htons [simp]: "ntohs p (htons p x) = x"
  by (simp add: ntohs_def htons_def)

lemma htons_0 [simp]: "htons p 0 = 0"
  by (simp add: htons_def swap16_def)

lemma htons_eq_0_iff [simp]: "htons p x = 0 \<longleftrightarrow> x = 0"
proof
  assume "htons p x = 0"
  then have "ntohs p (htons p x) = ntohs p (htons p 0)"
    by simp
  then show "x = 0"
    by (simp only: ntohs_htons)
qed simp

lemma fds_of_ZERO [simp]: "fds_of FD_ZERO = {}"
  by (simp add: fds_of_def FD_ZERO_def)

lemma fds_of_SET: "FD_SET fd fds = Some fds' \<Longrightarrow> fds_of fds' = insert fd (fds_of fds)"
  by (auto simp: FD_SET_def fds_of_def fd_in_range_def FD_SETSIZE_def bit_simps split: if_splits)

lemma fds_of_CLR: "FD_CLR fd fds = Some fds' \<Longrightarrow> fds_of fds' = fds_of fds - {fd}"
  by (auto simp: FD_CLR_def fds_of_def fd_in_range_def FD_SETSIZE_def bit_simps nat_eq_iff
      split: if_splits)

lemma FD_ISSET_fds_of: "FD_ISSET fd fds = (if fd_in_range fd then Some (fd \<in> fds_of fds) else None)"
  by (simp add: FD_ISSET_def fds_of_def)

lemma fds_of_range: "fd \<in> fds_of fds \<Longrightarrow> fd_in_range fd"
  by (simp add: fds_of_def)

lemma FD_SET_None [simp]: "FD_SET fd fds = None \<longleftrightarrow> \<not> fd_in_range fd"
  by (simp add: FD_SET_def)

lemma FD_CLR_None [simp]: "FD_CLR fd fds = None \<longleftrightarrow> \<not> fd_in_range fd"
  by (simp add: FD_CLR_def)

end
