(* ===== verification/SocketCommon.thy ===== *)
theory SocketCommon
  imports Cxx_Std
begin

text \<open>
  \<open>include/sockets-cpp/SocketCommon.h\<close>: the default buffer sizes, the status structure every
  operation returns and the socket options, with the message builder that all classes repeat
  (an \<open>#if FMT_SUPPORT\<close> with a \<open>fmt::format\<close> branch and an \<open>snprintf\<close> branch).
\<close>

definition TX_BUFFER_SIZE :: int where
  "TX_BUFFER_SIZE = 10240"

definition RX_BUFFER_SIZE :: int where
  "RX_BUFFER_SIZE = 10240"

record SocketRet =
  m_msg :: string
  m_success :: bool

record SocketOpt =
  m_txBufSize :: int
  m_rxBufSize :: int
  m_listenAddr :: string

text \<open>The default member initialisers of the two structures.\<close>

definition SocketRet_default :: SocketRet where
  "SocketRet_default = \<lparr>m_msg = [], m_success = False\<rparr>"

definition SocketOpt_default :: SocketOpt where
  "SocketOpt_default =
     \<lparr>m_txBufSize = TX_BUFFER_SIZE, m_rxBufSize = RX_BUFFER_SIZE, m_listenAddr = ''0.0.0.0''\<rparr>"

text \<open>The constructors' \<open>if (options != nullptr) m_sockOptions = *options;\<close>\<close>

definition choose_options :: "SocketOpt option \<Rightarrow> SocketOpt" where
  "choose_options options = (case options of None \<Rightarrow> SocketOpt_default | Some opts \<Rightarrow> opts)"

section \<open>Messages\<close>

definition MSG_SIZE :: nat where
  "MSG_SIZE = 100"

definition format_msg :: "platform \<Rightarrow> string \<Rightarrow> string \<Rightarrow> string" where
  "format_msg p fmt_text printf_text =
     (if FMT_SUPPORT p then fmt_text else snprintf MSG_SIZE printf_text)"

definition ok_ret :: SocketRet where
  "ok_ret = SocketRet_default\<lparr>m_success := True\<rparr>"

definition fail_ret :: "string \<Rightarrow> SocketRet" where
  "fail_ret msg = SocketRet_default\<lparr>m_msg := msg, m_success := False\<rparr>"

lemma ret_simps [simp]:
  "m_success ok_ret" "\<not> m_success (fail_ret msg)" "m_msg (fail_ret msg) = msg" "m_msg ok_ret = []"
  by (simp_all add: ok_ret_def fail_ret_def SocketRet_default_def)

lemma ok_neq_fail [simp]: "ok_ret \<noteq> fail_ret msg" "fail_ret msg \<noteq> ok_ret"
  by (simp_all add: ok_ret_def fail_ret_def SocketRet_default_def)

lemma fail_ret_inject [simp]: "fail_ret m = fail_ret m' \<longleftrightarrow> m = m'"
  by (simp add: fail_ret_def SocketRet_default_def)

lemma format_msg_bound: "\<not> FMT_SUPPORT p \<Longrightarrow> length (format_msg p a b) < MSG_SIZE"
  by (simp add: format_msg_def MSG_SIZE_def)

end
