(* ===== verification/SocketCore.thy ===== *)
theory SocketCore
  imports SocketCommon
begin

text \<open>
  \<open>include/sockets-cpp/SocketCore.h\<close>. The classes of the library are templates over
  \<open>SocketImpl\<close>, the type that makes the operating-system calls; its default is the
  pass-through \<open>SocketCore\<close>, and the tests put \<open>MockSocketCore\<close> in its place. Here it is
  a record of functions on an arbitrary type \<open>'w\<close> of worlds (kernel, network, peers, other
  threads), a parameter of every definition that makes a call. Each call is a state-monad
  action on a state that extends \<open>env\<close>: it runs the implementation's function on the world
  and appends one event, with the arguments and the answer, to \<open>trace\<close>. The trace has no
  counterpart in the source; it is what the properties observe.
\<close>

unbundle bit_operations_syntax

section \<open>Arguments of the calls\<close>

datatype address_family = AF_UNSPEC | AF_INET
datatype sock_type = SOCK_STREAM | SOCK_DGRAM
datatype opt_level = SOL_SOCKET | IPPROTO_IP
datatype opt_name = SO_REUSEADDR | SO_RCVBUF | SO_SNDBUF | IP_ADD_MEMBERSHIP | IP_MULTICAST_IF

record sockaddr_in =
  sin_family :: address_family
  sin_port :: uint16_t
  sin_addr :: in_addr_t

record ip_mreq =
  imr_multiaddr :: in_addr_t
  imr_interface :: in_addr_t

text \<open>\<open>OptAddr None\<close> is the address of an \<open>in_addr\<close> that was never initialised.\<close>

datatype opt_value = OptInt int | OptMreq ip_mreq | OptAddr "in_addr_t option"

definition sockaddr_zero :: sockaddr_in where
  "sockaddr_zero = \<lparr>sin_family = AF_UNSPEC, sin_port = 0, sin_addr = 0\<rparr>"

definition INVALID_SOCKET :: SOCKET where
  "INVALID_SOCKET = -1"

type_synonym timeval = "int \<times> int"

definition USEC_DELAY :: int where
  "USEC_DELAY = 500000"

section \<open>The template parameter SocketImpl\<close>

record 'w SocketImpl =
  core_Initialize :: "'w \<Rightarrow> int \<times> 'w"
  core_Socket :: "address_family \<Rightarrow> sock_type \<Rightarrow> int \<Rightarrow> 'w \<Rightarrow> SOCKET \<times> 'w"
  core_SetSockOpt :: "SOCKET \<Rightarrow> opt_level \<Rightarrow> opt_name \<Rightarrow> opt_value \<Rightarrow> 'w \<Rightarrow> int \<times> 'w"
  core_Bind :: "SOCKET \<Rightarrow> sockaddr_in \<Rightarrow> 'w \<Rightarrow> int \<times> 'w"
  core_Accept :: "SOCKET \<Rightarrow> sockaddr_in \<Rightarrow> 'w \<Rightarrow> (SOCKET \<times> sockaddr_in) \<times> 'w"
  core_Listen :: "SOCKET \<Rightarrow> int \<Rightarrow> 'w \<Rightarrow> int \<times> 'w"
  core_Connect :: "SOCKET \<Rightarrow> sockaddr_in \<Rightarrow> 'w \<Rightarrow> int \<times> 'w"
  core_Close :: "SOCKET \<Rightarrow> 'w \<Rightarrow> int \<times> 'w"
  core_Select :: "int \<Rightarrow> fd_set \<Rightarrow> timeval \<Rightarrow> 'w \<Rightarrow> (int \<times> fd_set) \<times> 'w"
  core_Recv :: "SOCKET \<Rightarrow> size_t \<Rightarrow> 'w \<Rightarrow> (ssize_t \<times> bytes) \<times> 'w"
  core_SendTo :: "SOCKET \<Rightarrow> bytes \<Rightarrow> size_t \<Rightarrow> sockaddr_in \<Rightarrow> 'w \<Rightarrow> ssize_t \<times> 'w"
  core_Send :: "SOCKET \<Rightarrow> bytes \<Rightarrow> size_t \<Rightarrow> 'w \<Rightarrow> ssize_t \<times> 'w"
  core_GetAddrInfo :: "string option \<Rightarrow> address_family \<Rightarrow> 'w \<Rightarrow> (int \<times> in_addr_t list) \<times> 'w"
  core_FreeAddrInfo :: "in_addr_t list \<Rightarrow> 'w \<Rightarrow> 'w"
  core_errno :: "'w \<Rightarrow> int"

text \<open>
  The class \<open>SocketCore\<close> itself: the same record built from the operating system's own
  functions (\<open>::socket\<close>, \<open>::setsockopt\<close>, \dots), with \<open>Initialize\<close> returning 0
  as it does outside Windows.
\<close>

record 'w os_api =
  os_socket :: "address_family \<Rightarrow> sock_type \<Rightarrow> int \<Rightarrow> 'w \<Rightarrow> SOCKET \<times> 'w"
  os_setsockopt :: "SOCKET \<Rightarrow> opt_level \<Rightarrow> opt_name \<Rightarrow> opt_value \<Rightarrow> 'w \<Rightarrow> int \<times> 'w"
  os_bind :: "SOCKET \<Rightarrow> sockaddr_in \<Rightarrow> 'w \<Rightarrow> int \<times> 'w"
  os_accept :: "SOCKET \<Rightarrow> sockaddr_in \<Rightarrow> 'w \<Rightarrow> (SOCKET \<times> sockaddr_in) \<times> 'w"
  os_listen :: "SOCKET \<Rightarrow> int \<Rightarrow> 'w \<Rightarrow> int \<times> 'w"
  os_connect :: "SOCKET \<Rightarrow> sockaddr_in \<Rightarrow> 'w \<Rightarrow> int \<times> 'w"
  os_close :: "SOCKET \<Rightarrow> 'w \<Rightarrow> int \<times> 'w"
  os_select :: "int \<Rightarrow> fd_set \<Rightarrow> timeval \<Rightarrow> 'w \<Rightarrow> (int \<times> fd_set) \<times> 'w"
  os_recv :: "SOCKET \<Rightarrow> size_t \<Rightarrow> 'w \<Rightarrow> (ssize_t \<times> bytes) \<times> 'w"
  os_sendto :: "SOCKET \<Rightarrow> bytes \<Rightarrow> size_t \<Rightarrow> sockaddr_in \<Rightarrow> 'w \<Rightarrow> ssize_t \<times> 'w"
  os_send :: "SOCKET \<Rightarrow> bytes \<Rightarrow> size_t \<Rightarrow> 'w \<Rightarrow> ssize_t \<times> 'w"
  os_getaddrinfo :: "string option \<Rightarrow> address_family \<Rightarrow> 'w \<Rightarrow> (int \<times> in_addr_t list) \<times> 'w"
  os_freeaddrinfo :: "in_addr_t list \<Rightarrow> 'w \<Rightarrow> 'w"
  os_errno :: "'w \<Rightarrow> int"

definition SocketCore :: "'w os_api \<Rightarrow> 'w SocketImpl" where
  "SocketCore os =
     \<lparr>core_Initialize = (\<lambda>w. (0, w)),
      core_Socket = (\<lambda>domain type protocol. os_socket os domain type protocol),
      core_SetSockOpt = (\<lambda>sockfd level optname optval. os_setsockopt os sockfd level optname optval),
      core_Bind = (\<lambda>sockfd addr. os_bind os sockfd addr),
      core_Accept = (\<lambda>sockfd addr. os_accept os sockfd addr),
      core_Listen = (\<lambda>sockfd backlog. os_listen os sockfd backlog),
      core_Connect = (\<lambda>sockfd addr. os_connect os sockfd addr),
      core_Close = (\<lambda>sockfd. os_close os sockfd),
      core_Select = (\<lambda>nfds readfds timeout. os_select os nfds readfds timeout),
      core_Recv = (\<lambda>sockfd len. os_recv os sockfd len),
      core_SendTo = (\<lambda>sockfd buf len dest. os_sendto os sockfd buf len dest),
      core_Send = (\<lambda>sockfd buf len. os_send os sockfd buf len),
      core_GetAddrInfo = (\<lambda>node family. os_getaddrinfo os node family),
      core_FreeAddrInfo = (\<lambda>res. os_freeaddrinfo os res),
      core_errno = os_errno os\<rparr>"

section \<open>Events and the traced environment\<close>

datatype event =
    EvInitialize int
  | EvSocket address_family sock_type int SOCKET
  | EvSetSockOpt SOCKET opt_level opt_name opt_value int
  | EvBind SOCKET sockaddr_in int
  | EvAccept SOCKET SOCKET sockaddr_in
  | EvListen SOCKET int int
  | EvConnect SOCKET sockaddr_in int
  | EvClose SOCKET int
  | EvSelect int fd_set int fd_set
  | EvRecv SOCKET size_t ssize_t bytes
  | EvSendTo SOCKET bytes size_t sockaddr_in ssize_t
  | EvSend SOCKET bytes size_t ssize_t
  | EvGetAddrInfo "string option" address_family int "in_addr_t list"
  | EvFreeAddrInfo "in_addr_t list"
  | EvThread
  | EvReceiveData bytes
  | EvDisconnect SocketRet
  | EvClientConnect int
  | EvClientData int bytes
  | EvClientDisconnect int SocketRet

record 'w env =
  world :: 'w
  trace :: "event list"

definition syscall :: "('w \<Rightarrow> 'r \<times> 'w) \<Rightarrow> ('r \<Rightarrow> event) \<Rightarrow> (('w, 'z) env_scheme, 'r) state" where
  "syscall f ev = State (\<lambda>s. case f (world s) of
     (r, w) \<Rightarrow> (r, s\<lparr>world := w, trace := trace s @ [ev r]\<rparr>))"

definition log_event :: "event \<Rightarrow> (('w, 'z) env_scheme, unit) state" where
  "log_event e = State_Monad.update (\<lambda>s. s\<lparr>trace := trace s @ [e]\<rparr>)"

section \<open>The calls\<close>

definition Initialize :: "'w SocketImpl \<Rightarrow> (('w, 'z) env_scheme, int) state" where
  "Initialize core = syscall (core_Initialize core) EvInitialize"

definition Socket ::
  "'w SocketImpl \<Rightarrow> address_family \<Rightarrow> sock_type \<Rightarrow> int \<Rightarrow> (('w, 'z) env_scheme, SOCKET) state" where
  "Socket core domain type protocol =
     syscall (core_Socket core domain type protocol) (EvSocket domain type protocol)"

definition SetSockOpt ::
  "'w SocketImpl \<Rightarrow> SOCKET \<Rightarrow> opt_level \<Rightarrow> opt_name \<Rightarrow> opt_value \<Rightarrow> (('w, 'z) env_scheme, int) state" where
  "SetSockOpt core sockfd level optname optval =
     syscall (core_SetSockOpt core sockfd level optname optval)
       (EvSetSockOpt sockfd level optname optval)"

definition Bind :: "'w SocketImpl \<Rightarrow> SOCKET \<Rightarrow> sockaddr_in \<Rightarrow> (('w, 'z) env_scheme, int) state" where
  "Bind core sockfd addr = syscall (core_Bind core sockfd addr) (EvBind sockfd addr)"

definition Accept ::
  "'w SocketImpl \<Rightarrow> SOCKET \<Rightarrow> sockaddr_in \<Rightarrow> (('w, 'z) env_scheme, SOCKET \<times> sockaddr_in) state" where
  "Accept core sockfd addr =
     syscall (core_Accept core sockfd addr) (\<lambda>(fd, peer). EvAccept sockfd fd peer)"

definition Listen :: "'w SocketImpl \<Rightarrow> SOCKET \<Rightarrow> int \<Rightarrow> (('w, 'z) env_scheme, int) state" where
  "Listen core sockfd backlog = syscall (core_Listen core sockfd backlog) (EvListen sockfd backlog)"

definition Connect :: "'w SocketImpl \<Rightarrow> SOCKET \<Rightarrow> sockaddr_in \<Rightarrow> (('w, 'z) env_scheme, int) state" where
  "Connect core sockfd addr = syscall (core_Connect core sockfd addr) (EvConnect sockfd addr)"

definition Close :: "'w SocketImpl \<Rightarrow> SOCKET \<Rightarrow> (('w, 'z) env_scheme, int) state" where
  "Close core sockfd = syscall (core_Close core sockfd) (EvClose sockfd)"

definition Select ::
  "'w SocketImpl \<Rightarrow> int \<Rightarrow> fd_set \<Rightarrow> timeval \<Rightarrow> (('w, 'z) env_scheme, int \<times> fd_set) state" where
  "Select core nfds readfds timeout =
     syscall (core_Select core nfds readfds timeout) (\<lambda>(r, ready). EvSelect nfds readfds r ready)"

definition Recv ::
  "'w SocketImpl \<Rightarrow> SOCKET \<Rightarrow> size_t \<Rightarrow> (('w, 'z) env_scheme, ssize_t \<times> bytes) state" where
  "Recv core sockfd len =
     syscall (core_Recv core sockfd len) (\<lambda>(n, data). EvRecv sockfd len n data)"

definition SendTo ::
  "'w SocketImpl \<Rightarrow> SOCKET \<Rightarrow> bytes \<Rightarrow> size_t \<Rightarrow> sockaddr_in \<Rightarrow> (('w, 'z) env_scheme, ssize_t) state" where
  "SendTo core sockfd buf len dest_addr =
     syscall (core_SendTo core sockfd buf len dest_addr) (EvSendTo sockfd buf len dest_addr)"

definition Send ::
  "'w SocketImpl \<Rightarrow> SOCKET \<Rightarrow> bytes \<Rightarrow> size_t \<Rightarrow> (('w, 'z) env_scheme, ssize_t) state" where
  "Send core sockfd buf len = syscall (core_Send core sockfd buf len) (EvSend sockfd buf len)"

definition GetAddrInfo ::
  "'w SocketImpl \<Rightarrow> string option \<Rightarrow> address_family \<Rightarrow>
   (('w, 'z) env_scheme, int \<times> in_addr_t list) state" where
  "GetAddrInfo core node family =
     syscall (core_GetAddrInfo core node family) (\<lambda>(rc, res). EvGetAddrInfo node family rc res)"

definition FreeAddrInfo :: "'w SocketImpl \<Rightarrow> in_addr_t list \<Rightarrow> (('w, 'z) env_scheme, unit) state" where
  "FreeAddrInfo core res =
     syscall (\<lambda>w. ((), core_FreeAddrInfo core res w)) (\<lambda>_. EvFreeAddrInfo res)"

definition errno :: "'w SocketImpl \<Rightarrow> (('w, 'z) env_scheme, int) state" where
  "errno core = do { s \<leftarrow> State_Monad.get; State_Monad.return (core_errno core (world s)) }"

section \<open>Reading a trace\<close>

text \<open>The descriptors that the trace's calls opened and did not close again.\<close>

fun owned_step :: "event \<Rightarrow> int set \<Rightarrow> int set" where
  "owned_step (EvSocket _ _ _ fd) fds = (if fd = INVALID_SOCKET then fds else insert fd fds)"
| "owned_step (EvAccept _ fd _) fds = (if fd = INVALID_SOCKET then fds else insert fd fds)"
| "owned_step (EvClose fd _) fds = fds - {fd}"
| "owned_step _ fds = fds"

definition owned :: "event list \<Rightarrow> int set" where
  "owned tr = fold owned_step tr {}"

text \<open>
  What POSIX promises of the answers in a trace, as far as the code relies on it: a new
  descriptor is not negative and not one that is still open; \<open>select\<close> reports only
  descriptors it was asked about; \<open>recv\<close> returns -1 or the number of bytes it stored, never
  more than the buffer holds; \<open>send\<close> and \<open>sendto\<close> return -1 or a count of at most the bytes
  they were given; \<open>setsockopt\<close>, \<open>bind\<close>, \<open>listen\<close> and \<open>connect\<close> return 0 or -1.
\<close>

fun posix_ok :: "event list \<Rightarrow> event \<Rightarrow> bool" where
  "posix_ok seen (EvSocket _ _ _ fd) = (fd = INVALID_SOCKET \<or> (0 \<le> fd \<and> fd \<notin> owned seen))"
| "posix_ok seen (EvAccept _ fd _) = (fd = INVALID_SOCKET \<or> (0 \<le> fd \<and> fd \<notin> owned seen))"
| "posix_ok seen (EvSelect _ asked r ready) = (r \<le> 0 \<or> ready AND asked = ready)"
| "posix_ok seen (EvRecv _ len n data) = (n = -1 \<or> (n \<le> len \<and> length data = unat n))"
| "posix_ok seen (EvSend _ _ len n) = (n = -1 \<or> n \<le> len)"
| "posix_ok seen (EvSendTo _ _ len _ n) = (n = -1 \<or> n \<le> len)"
| "posix_ok seen (EvSetSockOpt _ _ _ _ r) = (r = 0 \<or> r = -1)"
| "posix_ok seen (EvBind _ _ r) = (r = 0 \<or> r = -1)"
| "posix_ok seen (EvListen _ _ r) = (r = 0 \<or> r = -1)"
| "posix_ok seen (EvConnect _ _ r) = (r = 0 \<or> r = -1)"
| "posix_ok seen _ = True"

fun posix_from :: "event list \<Rightarrow> event list \<Rightarrow> bool" where
  "posix_from seen [] = True"
| "posix_from seen (e # es) = (posix_ok seen e \<and> posix_from (seen @ [e]) es)"

definition posix_trace :: "event list \<Rightarrow> bool" where
  "posix_trace tr = posix_from [] tr"

text \<open>The calls of a set-up sequence that report failure.\<close>

fun failed :: "event \<Rightarrow> bool" where
  "failed (EvInitialize r) = (r \<noteq> 0)"
| "failed (EvSocket _ _ _ fd) = (fd = INVALID_SOCKET)"
| "failed (EvSetSockOpt _ _ _ _ r) = (r < 0)"
| "failed (EvBind _ _ r) = (r < 0)"
| "failed (EvListen _ _ r) = (r < 0)"
| "failed (EvConnect _ _ r) = (r < 0)"
| "failed (EvGetAddrInfo _ _ rc res) = (rc \<noteq> 0 \<or> res = [])"
| "failed _ = False"

text \<open>The calls of a trace by name, for properties about which calls are made in what order.\<close>

fun call_name :: "event \<Rightarrow> string" where
  "call_name (EvInitialize _) = ''Initialize''"
| "call_name (EvSocket _ _ _ _) = ''Socket''"
| "call_name (EvSetSockOpt _ _ SO_REUSEADDR _ _) = ''SO_REUSEADDR''"
| "call_name (EvSetSockOpt _ _ SO_RCVBUF _ _) = ''SO_RCVBUF''"
| "call_name (EvSetSockOpt _ _ SO_SNDBUF _ _) = ''SO_SNDBUF''"
| "call_name (EvSetSockOpt _ _ IP_ADD_MEMBERSHIP _ _) = ''IP_ADD_MEMBERSHIP''"
| "call_name (EvSetSockOpt _ _ IP_MULTICAST_IF _ _) = ''IP_MULTICAST_IF''"
| "call_name (EvBind _ _ _) = ''Bind''"
| "call_name (EvAccept _ _ _) = ''Accept''"
| "call_name (EvListen _ _ _) = ''Listen''"
| "call_name (EvConnect _ _ _) = ''Connect''"
| "call_name (EvClose _ _) = ''Close''"
| "call_name (EvSelect _ _ _ _) = ''Select''"
| "call_name (EvRecv _ _ _ _) = ''Recv''"
| "call_name (EvSendTo _ _ _ _ _) = ''SendTo''"
| "call_name (EvSend _ _ _ _) = ''Send''"
| "call_name (EvGetAddrInfo _ _ _ _) = ''GetAddrInfo''"
| "call_name (EvFreeAddrInfo _) = ''FreeAddrInfo''"
| "call_name EvThread = ''thread''"
| "call_name (EvReceiveData _) = ''onReceiveData''"
| "call_name (EvDisconnect _) = ''onDisconnect''"
| "call_name (EvClientConnect _) = ''onClientConnect''"
| "call_name (EvClientData _ _) = ''onReceiveClientData''"
| "call_name (EvClientDisconnect _ _) = ''onClientDisconnect''"

section \<open>Lemmas\<close>

lemma run_syscall: "run_state (syscall f ev) s =
   (fst (f (world s)),
    s\<lparr>world := snd (f (world s)), trace := trace s @ [ev (fst (f (world s)))]\<rparr>)"
  by (simp add: syscall_def split: prod.split)

lemma wp_syscall [wp_simps]: "wp (syscall f ev) Q s =
   (\<forall>r w. f (world s) = (r, w) \<longrightarrow> Q r (s\<lparr>world := w, trace := trace s @ [ev r]\<rparr>))"
  by (simp add: wp_def syscall_def split: prod.split)

lemma wp_log_event [wp_simps]: "wp (log_event e) Q s = Q () (s\<lparr>trace := trace s @ [e]\<rparr>)"
  by (simp add: log_event_def)

lemma wp_errno [wp_simps]: "wp (errno core) Q s = Q (core_errno core (world s)) s"
  by (simp add: errno_def)

lemmas call_defs = Initialize_def Socket_def SetSockOpt_def Bind_def Accept_def Listen_def
  Connect_def Close_def Select_def Recv_def SendTo_def Send_def GetAddrInfo_def FreeAddrInfo_def

lemma owned_Nil [simp]: "owned [] = {}"
  by (simp add: owned_def)

lemma owned_snoc [simp]: "owned (tr @ [e]) = owned_step e (owned tr)"
  by (simp add: owned_def)

lemma owned_append: "owned (tr @ es) = fold owned_step es (owned tr)"
  by (simp add: owned_def)

lemma posix_from_append: "posix_from seen (xs @ ys) = (posix_from seen xs \<and> posix_from (seen @ xs) ys)"
  by (induction xs arbitrary: seen) simp_all

lemma posix_trace_Nil [simp]: "posix_trace []"
  by (simp add: posix_trace_def)

lemma posix_trace_snoc [simp]: "posix_trace (tr @ [e]) = (posix_trace tr \<and> posix_ok tr e)"
  by (simp add: posix_trace_def posix_from_append)

lemma posix_trace_append: "posix_trace (tr @ es) = (posix_trace tr \<and> posix_from tr es)"
  by (simp add: posix_trace_def posix_from_append)

lemma posix_trace_prefix: "prefix tr tr' \<Longrightarrow> posix_trace tr' \<Longrightarrow> posix_trace tr"
  by (auto simp: prefix_def posix_trace_def posix_from_append)

lemma posix_trace_mem: "posix_trace (xs @ e # ys) \<Longrightarrow> posix_ok xs e"
  by (simp add: posix_trace_def posix_from_append)

lemma ready_subset: "(ready :: fd_set) AND asked = ready \<Longrightarrow> fds_of ready \<subseteq> fds_of asked"
  unfolding fds_of_def by (auto, metis bit_and_iff)

lemmas trace_simps = owned_append posix_trace_append

lemma INVALID_SOCKET_neg [simp]: "INVALID_SOCKET < 0" "\<not> 0 \<le> INVALID_SOCKET"
  by (simp_all add: INVALID_SOCKET_def)

end
