(* ===== verification/Socket_Base.thy ===== *)
theory Socket_Base
  imports SocketCore
begin

text \<open>
  What \<open>TcpClient\<close>, \<open>UdpSocket\<close> and \<open>TcpServer\<close> have in common: the members every one of
  them declares, the atomic stop flag and the receive thread, and the contract of their set-up
  operations (a sequence of calls, each checked, that stops at the first failure), stated once
  as the locale \<open>staged_setup\<close>, and the contract of an object that owns socket descriptors, the
  locale \<open>descriptor_owner\<close>.
\<close>

section \<open>Shared members\<close>

text \<open>
  \<open>m_sockfd\<close> is \<open>m_fd\<close> in \<open>UdpSocket.h\<close>. \<open>m_thread\<close> says whether the \<open>std::thread\<close>
  member is joinable. \<open>m_callback\<close> is the state of the object the callback reference refers to.
  \<open>stop_stores\<close> is the other thread's part in the shared flag \<open>m_stop\<close>: its \<open>n\<close>-th
  element says whether \<open>finish\<close>, in another thread, has stored \<open>true\<close> between the previous
  and the \<open>n\<close>-th load of the flag (no store once the list is used up). It ranges over all lists
  in the theorems, so every interleaving of the store with the loads is covered.
\<close>

record ('w, 'a) sock = "'w env" +
  m_sockfd :: SOCKET
  m_stop :: bool
  m_thread :: bool
  m_sockOptions :: SocketOpt
  m_callback :: 'a
  stop_stores :: "bool list"

definition load_stop :: "(('w, 'a, 'z) sock_scheme, bool) state" where
  "load_stop = do {
     s \<leftarrow> State_Monad.get;
     (case stop_stores s of
        [] \<Rightarrow> State_Monad.return (m_stop s)
      | b # bs \<Rightarrow> do {
          State_Monad.set (s\<lparr>m_stop := m_stop s \<or> b, stop_stores := bs\<rparr>);
          State_Monad.return (m_stop s \<or> b)
        })
   }"

text \<open>
  \<open>m_thread = std::thread(...)\<close>: the new thread starts, and the assignment calls
  \<open>std::terminate\<close> when the member still holds a joinable thread.
\<close>

definition start_thread :: "(('w, 'a, 'z) sock_scheme, unit outcome) state" where
  "start_thread = do {
     log_event EvThread;
     s \<leftarrow> State_Monad.get;
     if m_thread s then State_Monad.return (Inl Terminate)
     else do {
       State_Monad.set (s\<lparr>m_thread := True\<rparr>);
       State_Monad.return (Inr ())
     }
   }"

text \<open>
  \<open>if (m_thread.joinable()) try { m_thread.join(); } catch (...) {}\<close>. Joining from the
  thread itself (\<open>on_thread\<close>) throws, the exception is swallowed, and the thread stays joinable.
\<close>

definition join_thread :: "bool \<Rightarrow> (('w, 'a, 'z) sock_scheme, unit) state" where
  "join_thread on_thread =
     State_Monad.update (\<lambda>s. if m_thread s \<and> \<not> on_thread then s\<lparr>m_thread := False\<rparr> else s)"

text \<open>The destructor of the member \<open>m_thread\<close>, which runs after \<open>finish\<close> when an object is destroyed.\<close>

definition destroy_thread :: "(('w, 'a, 'z) sock_scheme, unit outcome) state" where
  "destroy_thread = do {
     s \<leftarrow> State_Monad.get;
     State_Monad.return (if m_thread s then Inl Terminate else Inr ())
   }"

text \<open>
  The failure return that reports \<open>errno\<close>: \<open>fmt_text\<close> and \<open>printf_text\<close> are the two
  format strings up to the number.
\<close>

definition errno_ret :: "platform \<Rightarrow> 'w SocketImpl \<Rightarrow> string \<Rightarrow> string \<Rightarrow> (('w, 'z) env_scheme, SocketRet) state" where
  "errno_ret p core fmt_text printf_text = do {
     e \<leftarrow> errno core;
     State_Monad.return (fail_ret (format_msg p (fmt_text @ dec_int e) (printf_text @ dec_int e)))
   }"

text \<open>
  A receive buffer: \<open>recv\<close> overwrites its beginning, and \<open>(msg.data(), n)\<close> hands its first
  \<open>n\<close> bytes to the callback, whatever is in them.
\<close>

type_synonym buffer = "nat \<Rightarrow> char"

definition buf_write :: "bytes \<Rightarrow> buffer \<Rightarrow> buffer" where
  "buf_write data buf = (\<lambda>i. if i < length data then data ! i else buf i)"

definition buf_read :: "nat \<Rightarrow> buffer \<Rightarrow> bytes" where
  "buf_read n buf = map buf [0..<n]"

text \<open>
  The message for a host that does not resolve. Formatting a null \<open>const char*\<close> throws in
  \<open>fmt\<close> and is undefined for \<open>%s\<close>.
\<close>

definition unresolved_host :: "platform \<Rightarrow> string option \<Rightarrow> SocketRet outcome" where
  "unresolved_host p host =
     (case host of
        None \<Rightarrow> Inl (if FMT_SUPPORT p then Throw ''fmt::format_error'' else UB ''null pointer for %s'')
      | Some name \<Rightarrow> Inr (fail_ret (format_msg p (''Failed to resolve hostname '' @ name)
                                              (''Failed to resolve hostname '' @ name))))"

section \<open>Callback objects\<close>

text \<open>The events a callback may cause on its own, and the events the promise is about.\<close>

fun quiet :: "event \<Rightarrow> bool" where
  "quiet (EvSend _ _ _ _) = True"
| "quiet (EvSendTo _ _ _ _ _) = True"
| "quiet _ = False"

fun loud :: "event \<Rightarrow> bool" where
  "loud (EvRecv _ _ _ _) = True"
| "loud (EvReceiveData _) = True"
| "loud (EvDisconnect _) = True"
| "loud _ = False"

text \<open>
  What a callback object may do to the socket object that calls it: send, set the stop flag, change its own state;
  not touch the socket, the thread or the loop's view of the other thread.
\<close>

definition polite :: "('w, 'a, 'z) sock_scheme \<Rightarrow> ('w, 'a, 'z) sock_scheme \<Rightarrow> bool" where
  "polite s s' \<longleftrightarrow>
     (\<exists>es. trace s' = trace s @ es \<and> list_all quiet es) \<and> m_sockfd s' = m_sockfd s \<and>
     m_thread s' = m_thread s \<and> (m_stop s \<longrightarrow> m_stop s') \<and> stop_stores s' = stop_stores s"

section \<open>Staged set-up\<close>

text \<open>
  The shape of \<open>connectTo\<close>, \<open>start\<close>, \<open>startMcast\<close> and \<open>startUnicast\<close>: a list of
  stages, each a call, a test of its result and what to return when the test fails, and a last
  action once all stages have passed.
\<close>

record 's stage =
  st_call :: "('s, int) state"
  st_bad :: "int \<Rightarrow> bool"
  st_fail :: "int \<Rightarrow> ('s, SocketRet outcome) state"

fun run_stages ::
  "'s stage list \<Rightarrow> ('s, SocketRet outcome) state \<Rightarrow> ('s, SocketRet outcome) state" where
  "run_stages [] last_action = last_action"
| "run_stages (st # sts) last_action = do {
     r \<leftarrow> st_call st;
     if st_bad st r then st_fail st r else run_stages sts last_action
   }"

abbreviation names :: "event list \<Rightarrow> string list" where
  "names tr \<equiv> map call_name tr"

definition succeeded :: "SocketRet outcome \<Rightarrow> bool" where
  "succeeded r = (case r of Inl _ \<Rightarrow> False | Inr ret \<Rightarrow> m_success ret)"

text \<open>
  A stage with planned calls \<open>ns\<close>: when its test passes it has made exactly these calls and none
  failed, and otherwise it has made some of them, in order, and one failed. Its failure action
  makes no call and reports no success.
\<close>

definition stage_ok :: "('w, 'z) env_scheme stage \<Rightarrow> string list \<Rightarrow> bool" where
  "stage_ok st ns \<longleftrightarrow>
     (\<forall>s r s'. run_state (st_call st) s = (r, s') \<longrightarrow> posix_trace (trace s') \<longrightarrow>
        (\<exists>es. trace s' = trace s @ es \<and>
           (if st_bad st r then prefix (names es) ns \<and> (\<exists>e \<in> set es. failed e)
            else names es = ns \<and> (\<forall>e \<in> set es. \<not> failed e)))) \<and>
     (\<forall>r s x s'. run_state (st_fail st r) s = (x, s') \<longrightarrow>
        trace s' = trace s \<and> \<not> succeeded x)"

lemma succeeded_simps [simp]:
  "succeeded (Inr ret) = m_success ret" "\<not> succeeded (Inl a)"
  by (simp_all add: succeeded_def)

lemma stage_ok_call:
  assumes "stage_ok st ns" and "run_state (st_call st) s = (r, s')" and "posix_trace (trace s')"
  obtains es where "trace s' = trace s @ es"
    and "st_bad st r \<Longrightarrow> prefix (names es) ns \<and> (\<exists>e \<in> set es. failed e)"
    and "\<not> st_bad st r \<Longrightarrow> names es = ns \<and> (\<forall>e \<in> set es. \<not> failed e)"
  using assms unfolding stage_ok_def by meson

lemma stage_ok_fail:
  assumes "stage_ok st ns" and "run_state (st_fail st r) s = (x, s')"
  shows "trace s' = trace s" and "\<not> succeeded x"
  using assms unfolding stage_ok_def by blast+

text \<open>A stage whose failure reports \<open>errno\<close>.\<close>

definition errno_stage ::
  "platform \<Rightarrow> 'w SocketImpl \<Rightarrow> (('w, 'z) env_scheme, int) state \<Rightarrow> (int \<Rightarrow> bool) \<Rightarrow> string \<Rightarrow> string \<Rightarrow>
   ('w, 'z) env_scheme stage" where
  "errno_stage p core call bad fmt_text printf_text =
     \<lparr>st_call = call, st_bad = bad,
      st_fail = (\<lambda>_. do { ret \<leftarrow> errno_ret p core fmt_text printf_text; State_Monad.return (Inr ret) })\<rparr>"

lemma run_stages_append: "run_stages (xs @ ys) last_action = run_stages xs (run_stages ys last_action)"
  by (induction xs) (simp_all cong: if_cong)

text \<open>
  The last action: it makes exactly the calls \<open>ns\<close>, none of which can fail, unless its behaviour
  is undefined.
\<close>

definition last_ok :: "(('w, 'z) env_scheme, SocketRet outcome) state \<Rightarrow> string list \<Rightarrow> bool" where
  "last_ok m ns \<longleftrightarrow>
     (\<forall>s r s'. run_state m s = (r, s') \<longrightarrow>
        (\<exists>es. trace s' = trace s @ es \<and> prefix (names es) ns \<and> (\<forall>e \<in> set es. \<not> failed e) \<and>
           (names es = ns \<or> (\<exists>u. r = Inl (UB u)))))"

locale staged_setup =
  fixes operation :: "(('w, 'z) env_scheme, SocketRet outcome) state"
    and reset :: "('w, 'z) env_scheme \<Rightarrow> ('w, 'z) env_scheme"
    and stages :: "('w, 'z) env_scheme stage list"
    and planned :: "string list list"
    and last_action :: "(('w, 'z) env_scheme, SocketRet outcome) state"
    and last_planned :: "string list"
  assumes refines: "operation = State_Monad.bind (State_Monad.update reset) (\<lambda>_. run_stages stages last_action)"
    and reset_trace: "trace (reset s) = trace s"
    and stages_ok: "list_all2 stage_ok stages planned"
    and last_action_ok: "last_ok last_action last_planned"
begin

text \<open>
  Running the stages makes a prefix of the planned calls; a run that ends early has seen a
  failed call and reports no success, and a run that makes all the calls has seen none.
\<close>

lemma run_stages_calls:
  assumes "list_all2 stage_ok sts pls" and "run_state (run_stages sts last_action) s = (r, s')"
    and "posix_trace (trace s')"
  shows "\<exists>es. trace s' = trace s @ es \<and> prefix (names es) (concat pls @ last_planned) \<and>
     ((\<exists>e \<in> set es. failed e) \<and> \<not> succeeded r \<or>
      (\<forall>e \<in> set es. \<not> failed e) \<and> (names es = concat pls @ last_planned \<or> (\<exists>u. r = Inl (UB u))) \<and>
        (\<exists>t. run_state last_action t = (r, s')))"
  using assms
proof (induction sts pls arbitrary: s rule: list_all2_induct)
  case Nil
  then obtain es where "trace s' = trace s @ es" "prefix (names es) last_planned" "\<forall>e \<in> set es. \<not> failed e"
    "names es = last_planned \<or> (\<exists>u. r = Inl (UB u))"
    using last_action_ok unfolding last_ok_def by (metis run_stages.simps(1))
  with Nil show ?case by auto
next
  case (Cons st sts ns pls)
  obtain x t where call: "run_state (st_call st) s = (x, t)"
    by (cases "run_state (st_call st) s")
  have rest: "run_state (if st_bad st x then st_fail st x else run_stages sts last_action) t = (r, s')"
    using Cons.prems(1) call by simp
  show ?case
  proof (cases "st_bad st x")
    case True
    with rest have "run_state (st_fail st x) t = (r, s')" by simp
    note failed = stage_ok_fail [OF Cons.hyps(1) this]
    then have "posix_trace (trace t)" using Cons.prems(2) by simp
    from stage_ok_call [OF Cons.hyps(1) call this] obtain es where
      es: "trace t = trace s @ es" and "prefix (names es) ns" "\<exists>e \<in> set es. failed e"
      using True by metis
    moreover from this have "prefix (names es) (concat (ns # pls) @ last_planned)"
      by (auto simp: prefix_def)
    ultimately show ?thesis using failed by auto
  next
    case False
    with rest have run: "run_state (run_stages sts last_action) t = (r, s')" by simp
    from Cons.IH [OF run Cons.prems(2)] obtain es2 where
      es2: "trace s' = trace t @ es2" "prefix (names es2) (concat pls @ last_planned)"
        "(\<exists>e \<in> set es2. failed e) \<and> \<not> succeeded r \<or>
         (\<forall>e \<in> set es2. \<not> failed e) \<and> (names es2 = concat pls @ last_planned \<or> (\<exists>u. r = Inl (UB u))) \<and>
           (\<exists>t. run_state last_action t = (r, s'))"
      by blast
    have "posix_trace (trace t)"
      using Cons.prems(2) es2(1) posix_trace_prefix [of "trace t" "trace s'"] by simp
    from stage_ok_call [OF Cons.hyps(1) call this] obtain es where
      es: "trace t = trace s @ es" "names es = ns" "\<forall>e \<in> set es. \<not> failed e"
      using False by metis
    from es es2 show ?thesis
      by (intro exI [of _ "es @ es2"]) auto
  qed
qed

abbreviation plan :: "string list" where
  "plan \<equiv> concat planned @ last_planned"

lemma operation_calls:
  assumes "run_state operation s = (r, s')" and "posix_trace (trace s')"
    and results: "\<And>t. wp last_action (\<lambda>r _. r \<in> R) t"
  shows "\<exists>es. trace s' = trace s @ es \<and> prefix (names es) plan \<and>
    ((\<exists>e \<in> set es. failed e) \<longrightarrow> \<not> succeeded r) \<and>
    ((\<forall>e \<in> set es. \<not> failed e) \<longrightarrow> r \<in> R \<and> (names es = plan \<or> (\<exists>u. r = Inl (UB u))))"
proof -
  from assms(1) have "run_state (run_stages stages last_action) (reset s) = (r, s')"
    by (simp add: refines)
  from run_stages_calls [OF stages_ok this assms(2)] obtain es where
    es: "trace s' = trace s @ es" "prefix (names es) plan" and
    ends: "(\<exists>e \<in> set es. failed e) \<and> \<not> succeeded r \<or>
      (\<forall>e \<in> set es. \<not> failed e) \<and> (names es = plan \<or> (\<exists>u. r = Inl (UB u))) \<and> (\<exists>t. run_state last_action t = (r, s'))"
    by (auto simp: reset_trace)
  have "r \<in> R" if "run_state last_action t = (r, s')" for t
    by (rule wpD [OF results that])
  with es ends show ?thesis
    by (intro exI [of _ es]) blast
qed

end

section \<open>Descriptor ownership\<close>

text \<open>
  The contract of an object that owns descriptors: \<open>holds s\<close> are the descriptors its members
  refer to, \<open>good s\<close> is the object's invariant, and every step keeps the invariant and keeps
  the descriptors the object has opened and not closed equal to those it refers to (beside the
  descriptors \<open>B\<close> of the rest of the program).
\<close>

locale descriptor_owner =
  fixes step :: "('w, 'z) env_scheme \<Rightarrow> ('w, 'z) env_scheme \<Rightarrow> bool"
    and holds :: "('w, 'z) env_scheme \<Rightarrow> int set"
    and good :: "('w, 'z) env_scheme \<Rightarrow> bool"
  assumes step_trace: "step s s' \<Longrightarrow> prefix (trace s) (trace s')"
    and step_balance: "step s s' \<Longrightarrow> posix_trace (trace s') \<Longrightarrow> good s \<Longrightarrow>
      owned (trace s) = B \<union> holds s \<Longrightarrow> B \<inter> holds s = {} \<Longrightarrow>
      good s' \<and> owned (trace s') = B \<union> holds s' \<and> B \<inter> holds s' = {}"
begin

lemma steps_trace: "step\<^sup>*\<^sup>* s s' \<Longrightarrow> prefix (trace s) (trace s')"
proof (induction rule: rtranclp_induct)
  case (step t u)
  from step.IH step_trace [OF step.hyps(2)] show ?case
    by (rule prefix_order.trans)
qed simp

lemma steps_balance:
  assumes "step\<^sup>*\<^sup>* s s'" and "posix_trace (trace s')" and "good s"
    and "owned (trace s) = B \<union> holds s" and "B \<inter> holds s = {}"
  shows "good s' \<and> owned (trace s') = B \<union> holds s' \<and> B \<inter> holds s' = {}"
  using assms
proof (induction rule: rtranclp_induct)
  case (step t u)
  have "posix_trace (trace t)"
    using posix_trace_prefix [OF step_trace [OF step.hyps(2)] step.prems(1)] .
  with step have "good t \<and> owned (trace t) = B \<union> holds t \<and> B \<inter> holds t = {}"
    by blast
  with step_balance [OF step.hyps(2) step.prems(1)] show ?case
    by blast
qed simp

lemma no_leak:
  assumes "step\<^sup>*\<^sup>* s s'" and "posix_trace (trace s')" and "good s" and "holds s = {}" and "holds s' = {}"
  shows "owned (trace s') = owned (trace s)"
  using steps_balance [OF assms(1-3), of "owned (trace s)"] assms(4,5) by simp

end

section \<open>Lemmas\<close>

lemma INVALID_not_owned [simp]: "INVALID_SOCKET \<notin> owned tr"
proof (induction tr rule: rev_induct)
  case (snoc e tr)
  then show ?case by (cases e) auto
qed simp

lemma buf_read_write: "length data = n \<Longrightarrow> buf_read n (buf_write data buf) = data"
  by (auto simp: buf_read_def buf_write_def intro: nth_equalityI)

lemma wp_errno_ret [wp_simps]: "wp (errno_ret p core a b) Q s =
   Q (fail_ret (format_msg p (a @ dec_int (core_errno core (world s)))
        (b @ dec_int (core_errno core (world s))))) s"
  by (simp add: errno_ret_def wp_simps)

lemma wp_load_stop [wp_simps]: "wp load_stop Q s =
   (case stop_stores s of [] \<Rightarrow> Q (m_stop s) s
    | b # bs \<Rightarrow> Q (m_stop s \<or> b) (s\<lparr>m_stop := m_stop s \<or> b, stop_stores := bs\<rparr>))"
  by (simp add: load_stop_def split: list.split)

lemma wp_start_thread [wp_simps]: "wp start_thread Q s =
   (if m_thread s then Q (Inl Terminate) (s\<lparr>trace := trace s @ [EvThread]\<rparr>)
    else Q (Inr ()) (s\<lparr>trace := trace s @ [EvThread], m_thread := True\<rparr>))"
  by (simp add: start_thread_def wp_simps)

lemma wp_join_thread [wp_simps]: "wp (join_thread on_thread) Q s =
   Q () (if m_thread s \<and> \<not> on_thread then s\<lparr>m_thread := False\<rparr> else s)"
  by (simp add: join_thread_def)

text \<open>How to establish the contract of a stage: by weakest preconditions.\<close>

lemma stage_okI:
  assumes "\<And>s. wp (st_call st) (\<lambda>r s'. posix_trace (trace s') \<longrightarrow>
      (\<exists>es. trace s' = trace s @ es \<and>
         (if st_bad st r then prefix (names es) ns \<and> (\<exists>e \<in> set es. failed e)
          else names es = ns \<and> (\<forall>e \<in> set es. \<not> failed e)))) s"
    and "\<And>r s. wp (st_fail st r) (\<lambda>x s'. trace s' = trace s \<and> \<not> succeeded x) s"
  shows "stage_ok st ns"
  unfolding stage_ok_def
proof (intro conjI allI impI)
  fix s r s'
  assume "run_state (st_call st) s = (r, s')" and "posix_trace (trace s')"
  with wpD [OF assms(1), of s r s']
  show "\<exists>es. trace s' = trace s @ es \<and>
      (if st_bad st r then prefix (names es) ns \<and> (\<exists>e \<in> set es. failed e)
       else names es = ns \<and> (\<forall>e \<in> set es. \<not> failed e))"
    by blast
next
  fix r s x s'
  assume "run_state (st_fail st r) s = (x, s')"
  from wpD [OF assms(2) this] show "trace s' = trace s" and "\<not> succeeded x"
    by blast+
qed

lemma last_okI:
  assumes "\<And>s. wp m (\<lambda>r s'. \<exists>es. trace s' = trace s @ es \<and> prefix (names es) ns \<and>
      (\<forall>e \<in> set es. \<not> failed e) \<and> (names es = ns \<or> (\<exists>u. r = Inl (UB u)))) s"
  shows "last_ok m ns"
  unfolding last_ok_def by (intro allI impI) (rule wpD [OF assms])

text \<open>The common last action: start the receive thread and report success.\<close>

lemma start_thread_last: "last_ok (obind start_thread (\<lambda>_. State_Monad.return (Inr ok_ret))) [''thread'']"
  by (rule last_okI) (simp add: wp_simps)

lemma start_thread_results:
  "wp (obind start_thread (\<lambda>_. State_Monad.return (Inr ok_ret))) (\<lambda>r _. r \<in> {Inr ok_ret, Inl Terminate}) t"
  by (simp add: wp_simps)

text \<open>
  What a set-up that ends by starting a thread does when it follows a plan: its calls are those of
  the plan up to the first that fails, it succeeds exactly when none fails and no thread was
  running, and the program terminates when all calls succeed but a thread was.
\<close>

definition setup_calls :: "string list \<Rightarrow> bool \<Rightarrow> SocketRet outcome \<Rightarrow> event list \<Rightarrow> bool" where
  "setup_calls planned running r es \<longleftrightarrow> prefix (names es) planned \<and>
     (succeeded r \<longleftrightarrow> (\<forall>e \<in> set es. \<not> failed e) \<and> \<not> running) \<and>
     ((\<forall>e \<in> set es. \<not> failed e) \<longrightarrow> names es = planned \<and> (running \<longrightarrow> r = Inl Terminate))"

context staged_setup
begin

lemma thread_calls:
  assumes "run_state operation s = (r, s')" and "posix_trace (trace s')"
    and results: "\<And>t. wp last_action (\<lambda>r _. r \<in> {Inr ok_ret, Inl Terminate}) t"
    and "(r = Inl Terminate \<longrightarrow> running) \<and> (succeeded r \<longrightarrow> \<not> running)"
  shows "\<exists>es. trace s' = trace s @ es \<and> setup_calls plan running r es"
  using operation_calls [OF assms(1-3)] assms(4) by (auto simp: setup_calls_def)

end

lemma unresolved_host_fails [simp]: "\<not> succeeded (unresolved_host p host)"
  by (simp add: unresolved_host_def split: option.split)

lemma quiet_not_loud: "list_all quiet es \<Longrightarrow> filter loud es = []"
proof (induction es)
  case (Cons e es)
  then show ?case by (cases e) auto
qed simp

lemma quiet_owned: "list_all quiet es \<Longrightarrow> owned (tr @ es) = owned tr"
proof (induction es arbitrary: tr)
  case (Cons e es)
  from Cons.IH [of "tr @ [e]"] Cons.prems show ?case by (cases e) auto
qed simp

lemma polite_traces:
  assumes "polite t s'"
  obtains qs where "trace s' = trace t @ qs" and "filter loud qs = []" and "owned (trace s') = owned (trace t)"
  using assms quiet_not_loud quiet_owned unfolding polite_def by metis

lemma polite_owned:
  "polite t s' \<Longrightarrow> owned (trace s') = owned (trace t) \<and> (\<exists>es. trace s' = trace t @ es) \<and> m_sockfd s' = m_sockfd t"
  unfolding polite_def by (auto simp: quiet_owned)

text \<open>The contract of \<open>onReceiveData\<close>, which \<open>TcpClient\<close> and \<open>UdpSocket\<close> rely on.\<close>

locale polite_receiver =
  fixes on_data :: "bytes \<Rightarrow> (('w, 'a, 'z) sock_scheme, unit outcome) state"
  assumes receive_polite: "run_state (on_data data) s = (r, s') \<Longrightarrow> polite s s'"
begin

lemma wp_on_data:
  assumes "\<And>r s'. polite s s' \<Longrightarrow> Q r s'"
  shows "wp (on_data data) Q s"
  by (rule wpI) (blast intro: assms receive_polite)

end

section \<open>The receive loop\<close>

text \<open>
  The loop of \<open>TcpClient::ReceiveTask\<close>, \<open>UdpSocket::ReceiveTask\<close> and \<open>TcpServer::serverTask\<close>:
  load the stop flag, make one pass, and go on unless the pass broke out. A pass uses up stores
  of the other thread only by loading the flag.
\<close>

locale receive_loop =
  fixes task :: "nat \<Rightarrow> (('w, 'a, 'z) sock_scheme, unit outcome option) state"
    and pass :: "(('w, 'a, 'z) sock_scheme, bool outcome) state"
  assumes task_0: "task 0 = State_Monad.return None"
    and task_Suc: "task (Suc fuel) = do {
      stop \<leftarrow> load_stop;
      if stop then State_Monad.return (Some (Inr ()))
      else do {
        r \<leftarrow> pass;
        (case r of
           Inl a \<Rightarrow> State_Monad.return (Some (Inl a))
         | Inr goes_on \<Rightarrow> if goes_on then task fuel else State_Monad.return (Some (Inr ())))
      }}"
    and pass_stores: "wp pass (\<lambda>r t. r = Inr True \<longrightarrow> length (stop_stores t) \<le> length (stop_stores s) \<and>
      (True \<in> set (stop_stores s) \<longrightarrow> True \<in> set (stop_stores t))) s"
begin

lemma wp_task_Suc: "wp (task (Suc fuel)) Q s =
   wp load_stop (\<lambda>stop t. if stop then Q (Some (Inr ())) t
     else wp pass (\<lambda>r u. case r of
         Inl a \<Rightarrow> Q (Some (Inl a)) u
       | Inr goes_on \<Rightarrow> if goes_on then wp (task fuel) Q u else Q (Some (Inr ())) u) t) s"
  by (auto simp: task_Suc wp_def split: prod.splits sum.splits if_splits)

text \<open>A loop whose flag is already set returns at once.\<close>

lemma task_stopped:
  "m_stop s \<Longrightarrow> wp (task (Suc fuel)) (\<lambda>r t. r = Some (Inr ()) \<and> trace t = trace s) s"
  by (simp add: wp_task_Suc wp_load_stop split: list.split)

text \<open>
  The loop returns: it needs at most one pass for each load of the stop flag up to the one that
  sees the other thread's store.
\<close>

lemma task_returns:
  assumes "True \<in> set (stop_stores s)" and "length (stop_stores s) \<le> fuel"
  shows "wp (task fuel) (\<lambda>r _. r \<noteq> None) s"
  using assms
proof (induction fuel arbitrary: s)
  case (Suc fuel)
  then obtain b bs where bs: "stop_stores s = b # bs"
    by (cases "stop_stores s") auto
  show ?case
  proof (cases "m_stop s \<or> b")
    case False
    let ?t = "s\<lparr>m_stop := False, stop_stores := bs\<rparr>"
    have "wp pass (\<lambda>r u. case r of Inl a \<Rightarrow> True | Inr goes_on \<Rightarrow>
        goes_on \<longrightarrow> wp (task fuel) (\<lambda>r _. r \<noteq> None) u) ?t"
      using Suc bs False by (intro wp_mono [OF pass_stores [of ?t]]) (auto split: sum.split)
    then show ?thesis
      using bs False by (auto simp: wp_task_Suc wp_load_stop elim: wp_mono split: sum.splits)
  qed (simp add: wp_task_Suc wp_load_stop bs)
qed simp

text \<open>
  \<open>T r\<close> describes a run that ends with \<open>r\<close>, and \<open>R\<close> a pass after which the loop goes on. If a run
  after such a pass extends to the whole, \<open>T\<close> holds of the loop.
\<close>

lemma task_result:
  assumes fuel: "\<And>s. T None s s" and stop: "\<And>s b bs. T (Some (Inr ())) s (s\<lparr>m_stop := b, stop_stores := bs\<rparr>)"
    and stopped: "\<And>s. T (Some (Inr ())) s s"
    and refl: "\<And>s. R s s" and loads: "\<And>s b bs. R s (s\<lparr>m_stop := b, stop_stores := bs\<rparr>)"
    and ext: "\<And>r s t u. R s t \<Longrightarrow> T r t u \<Longrightarrow> T r s u"
    and pass: "\<And>s. wp pass (\<lambda>r t. case r of Inl a \<Rightarrow> T (Some (Inl a)) s t
        | Inr goes_on \<Rightarrow> if goes_on then R s t else T (Some (Inr ())) s t) s"
  shows "wp (task fuel) (\<lambda>r t. T r s t) s"
proof (induction fuel arbitrary: s)
  case (Suc fuel)
  let ?post = "\<lambda>s (r :: bool outcome) u. case r of Inl a \<Rightarrow> T (Some (Inl a)) s u | Inr goes_on \<Rightarrow>
      if goes_on then wp (task fuel) (\<lambda>r t. T r s t) u else T (Some (Inr ())) s u"
  have next_pass: "wp (task fuel) (\<lambda>r t. T r s t) u" if "R s u" for s u
    by (rule wp_mono [OF Suc.IH]) (rule ext [OF that])
  have "wp pass (?post s) t" if "R s t" for t
  proof (rule wp_mono [OF pass])
    fix r u
    assume "case r of Inl a \<Rightarrow> T (Some (Inl a)) t u | Inr goes_on \<Rightarrow> if goes_on then R t u else T (Some (Inr ())) t u"
    moreover have "wp (task fuel) (\<lambda>r t. T r s t) u" if "R t u"
      by (rule wp_mono [OF next_pass [OF that]]) (rule ext [OF \<open>R s t\<close>])
    ultimately show "?post s r u"
      using ext [OF \<open>R s t\<close>] by (auto split: sum.splits if_splits)
  qed
  then have "if st then T (Some (Inr ())) s t else wp pass (?post s) t"
    if "R s t" "T (Some (Inr ())) s t" for st t
    using that by simp
  then show ?case
    using refl loads stop stopped unfolding wp_task_Suc wp_load_stop by (simp only: split: list.split) blast
qed (simp add: task_0 fuel)

text \<open>
  A reflexive and transitive relation that holds across loads of the flag and across every pass
  that does not abort holds across the loop, unless it aborts.
\<close>

lemma task_relates:
  assumes refl: "\<And>s. R s s" and trans: "\<And>s t u. R s t \<Longrightarrow> R t u \<Longrightarrow> R s u"
    and loads: "\<And>s b bs. R s (s\<lparr>m_stop := b, stop_stores := bs\<rparr>)"
    and pass: "\<And>s. wp pass (\<lambda>r t. (\<forall>a. r \<noteq> Inl a) \<longrightarrow> R s t) s"
  shows "wp (task fuel) (\<lambda>r t. (\<forall>a. r \<noteq> Some (Inl a)) \<longrightarrow> R s t) s"
proof (rule task_result [where R = R])
  show "wp pass (\<lambda>r t. case r of Inl a \<Rightarrow> (\<forall>b. Some (Inl a) \<noteq> Some (Inl b)) \<longrightarrow> R s t
      | Inr goes_on \<Rightarrow> if goes_on then R s t else (\<forall>a. Some (Inr ()) \<noteq> Some (Inl a)) \<longrightarrow> R s t) s" for s
    by (rule wp_mono [OF pass]) (auto split: sum.split)
qed (auto intro: refl loads trans)

text \<open>
  A promise about the events: when every pass adds a chunk of events and a chunk before events
  that keep the promise keeps it, so does the loop.
\<close>

lemma task_promise:
  assumes silence: "promise []"
    and pass: "\<And>s. wp pass (\<lambda>r t. posix_trace (trace t) \<longrightarrow> (\<exists>es. trace t = trace s @ es \<and> chunk r es)) s"
    and step: "\<And>r es fs. chunk r es \<Longrightarrow> (r \<noteq> Inr True \<Longrightarrow> fs = []) \<Longrightarrow> promise fs \<Longrightarrow> promise (es @ fs)"
  shows "wp (task fuel) (\<lambda>_ t. posix_trace (trace t) \<longrightarrow> (\<exists>es. trace t = trace s @ es \<and> promise es)) s"
proof (induction fuel arbitrary: s)
  case 0
  from silence show ?case by (simp add: task_0)
next
  case (Suc fuel)
  let ?Q = "\<lambda>s'. posix_trace (trace s') \<longrightarrow> (\<exists>es. trace s' = trace s @ es \<and> promise es)"
  let ?post = "\<lambda>r u. case r of Inl a \<Rightarrow> ?Q u | Inr goes_on \<Rightarrow>
        if goes_on then wp (task fuel) (\<lambda>_. ?Q) u else ?Q u"
  have post: "?post r u" if chunk: "posix_trace (trace u) \<longrightarrow> (\<exists>es. trace u = trace s @ es \<and> chunk r es)" for r u
  proof (cases "r = Inr True")
    case True
    have "?Q v" if "posix_trace (trace v) \<longrightarrow> (\<exists>es. trace v = trace u @ es \<and> promise es)" for v
      using that chunk step [of r] posix_trace_prefix [of "trace u" "trace v"] True by fastforce
    then have "wp (task fuel) (\<lambda>_. ?Q) u"
      by (rule wp_mono [OF Suc.IH])
    with True show ?thesis by simp
  next
    case False
    with chunk step [of r _ "[]"] silence show ?thesis
      by (auto split: sum.split)
  qed
  have "wp pass ?post t" if "trace t = trace s" for t
    by (rule wp_mono [OF pass]) (rule post, simp add: that)
  then show ?case
    using silence by (simp add: wp_task_Suc wp_load_stop split: list.split split del: if_split) simp
qed

end

end
