(* ===== verification/Client_Table.thy ===== *)
theory Client_Table
  imports Cxx_Std "HOL-Library.Multiset"
begin

text \<open>
  \<open>std::unordered_map<ClientHandle, Client>\<close> as \<open>TcpServer\<close> uses it: \<open>count\<close> and
  \<open>operator[]\<close> (of a key that is there), \<open>emplace\<close> (which does nothing when the key is
  there), \<open>erase\<close>, \<open>clear\<close>, assignment through a reference to an element, and range-\<open>for\<close>.
  What the server relies on is the locale \<open>client_table\<close>; the model's implementation of it is an
  association list.
\<close>

section \<open>Operations\<close>

type_synonym 'c um = "(int \<times> 'c) list"

definition um_find :: "'c um \<Rightarrow> int \<Rightarrow> 'c option" where
  "um_find t k = map_of t k"

definition um_keys :: "'c um \<Rightarrow> int list" where
  "um_keys t = map fst t"

definition um_emplace :: "int \<Rightarrow> 'c \<Rightarrow> 'c um \<Rightarrow> 'c um" where
  "um_emplace k c t = (if um_find t k = None then t @ [(k, c)] else t)"

definition um_erase :: "int \<Rightarrow> 'c um \<Rightarrow> 'c um" where
  "um_erase k t = filter (\<lambda>(j, _). j \<noteq> k) t"

definition um_assign :: "int \<Rightarrow> 'c \<Rightarrow> 'c um \<Rightarrow> 'c um" where
  "um_assign k c t = map (\<lambda>(j, d). if j = k then (j, c) else (j, d)) t"

definition um_inv :: "'c um \<Rightarrow> bool" where
  "um_inv t = distinct (um_keys t)"

text \<open>
  The elements in the order a range-\<open>for\<close> visits them. The order is the platform's; that it
  visits every key once is what \<open>iterates\<close> says.
\<close>

definition um_range :: "platform \<Rightarrow> 'c um \<Rightarrow> (int \<times> 'c) list" where
  "um_range p t = List.map_filter (\<lambda>k. map_option (Pair k) (um_find t k)) (um_iter p (um_keys t))"

definition iterates :: "platform \<Rightarrow> bool" where
  "iterates p \<longleftrightarrow> (\<forall>ks. mset (um_iter p ks) = mset ks)"

section \<open>The contract\<close>

locale client_table =
  fixes find :: "'t \<Rightarrow> int \<Rightarrow> 'c option"
    and keys :: "'t \<Rightarrow> int list"
    and emplace :: "int \<Rightarrow> 'c \<Rightarrow> 't \<Rightarrow> 't"
    and erase :: "int \<Rightarrow> 't \<Rightarrow> 't"
    and assign :: "int \<Rightarrow> 'c \<Rightarrow> 't \<Rightarrow> 't"
    and inv :: "'t \<Rightarrow> bool"
  assumes find_emplace: "inv t \<Longrightarrow> find (emplace k c t) j =
      (if j = k \<and> find t k = None then Some c else find t j)"
    and find_erase: "inv t \<Longrightarrow> find (erase k t) j = (if j = k then None else find t j)"
    and find_assign: "inv t \<Longrightarrow> find (assign k c t) j =
      (if j = k \<and> find t k \<noteq> None then Some c else find t j)"
    and dom_find: "inv t \<Longrightarrow> dom (find t) = set (keys t)"
    and inv_distinct: "inv t \<Longrightarrow> distinct (keys t)"
    and inv_emplace: "inv t \<Longrightarrow> inv (emplace k c t)"
    and inv_erase: "inv t \<Longrightarrow> inv (erase k t)"
    and inv_assign: "inv t \<Longrightarrow> inv (assign k c t)"
begin

lemma find_in_keys: "inv t \<Longrightarrow> find t k \<noteq> None \<longleftrightarrow> k \<in> set (keys t)"
  using dom_find [of t] by (auto simp: dom_def)

lemma keys_emplace: "inv t \<Longrightarrow> set (keys (emplace k c t)) = insert k (set (keys t))"
  by (rule set_eqI) (auto simp: find_emplace inv_emplace simp flip: find_in_keys)

lemma keys_erase: "inv t \<Longrightarrow> set (keys (erase k t)) = set (keys t) - {k}"
  by (rule set_eqI) (auto simp: find_erase inv_erase simp flip: find_in_keys)

lemma keys_assign: "inv t \<Longrightarrow> set (keys (assign k c t)) = set (keys t)"
  by (rule set_eqI) (auto simp: find_assign inv_assign simp flip: find_in_keys)

text \<open>A property of all entries is kept by erasing, and by storing entries that have it.\<close>

definition all_entries :: "(int \<Rightarrow> 'c \<Rightarrow> bool) \<Rightarrow> 't \<Rightarrow> bool" where
  "all_entries P t \<longleftrightarrow> (\<forall>k c. find t k = Some c \<longrightarrow> P k c)"

lemma all_entriesD: "all_entries P t \<Longrightarrow> find t k = Some c \<Longrightarrow> P k c"
  by (simp add: all_entries_def)

lemma all_entries_emplace: "inv t \<Longrightarrow> all_entries P t \<Longrightarrow> P k c \<Longrightarrow> all_entries P (emplace k c t)"
  by (simp add: all_entries_def find_emplace)

lemma all_entries_erase: "inv t \<Longrightarrow> all_entries P t \<Longrightarrow> all_entries P (erase k t)"
  by (simp add: all_entries_def find_erase)

lemma all_entries_assign: "inv t \<Longrightarrow> all_entries P t \<Longrightarrow> P k c \<Longrightarrow> all_entries P (assign k c t)"
  by (simp add: all_entries_def find_assign)

end

section \<open>The association list keeps the contract\<close>

lemma keys_um_assign [simp]: "um_keys (um_assign k c t) = um_keys t"
  by (auto simp: um_keys_def um_assign_def)

lemma um_keys_erase: "um_keys (um_erase k t) = filter (\<lambda>j. j \<noteq> k) (um_keys t)"
  unfolding um_keys_def um_erase_def by (induction t) auto

lemma um_find_None: "um_find t k = None \<longleftrightarrow> k \<notin> set (um_keys t)"
  by (simp add: um_find_def um_keys_def map_of_eq_None_iff)

lemma um_keys_emplace: "set (um_keys (um_emplace k c t)) = insert k (set (um_keys t))"
  using um_find_None [of t k] by (auto simp: um_emplace_def um_keys_def)

lemma um_find_erase: "um_find (um_erase k t) j = (if j = k then None else um_find t j)"
  unfolding um_find_def um_erase_def by (induction t) auto

lemma um_find_assign: "um_find (um_assign k c t) j = (if j = k \<and> um_find t k \<noteq> None then Some c else um_find t j)"
  unfolding um_find_def um_assign_def by (induction t) auto

lemma um_find_emplace: "um_find (um_emplace k c t) j = (if j = k \<and> um_find t k = None then Some c else um_find t j)"
  unfolding um_find_def um_emplace_def by (auto simp: map_add_def split: option.splits)

interpretation ct: client_table um_find um_keys um_emplace um_erase um_assign um_inv
proof unfold_locales
  fix t :: "'a um" and k c
  assume "um_inv t"
  then show "um_inv (um_emplace k c t)"
    by (auto simp: um_inv_def um_emplace_def um_find_None) (auto simp: um_keys_def)
next
  fix t :: "'a um"
  show "dom (um_find t) = set (um_keys t)"
    using um_find_None [of t] by (auto simp: dom_def)
qed (simp_all add: um_find_emplace um_find_erase um_find_assign um_inv_def um_keys_erase)

section \<open>Range-for\<close>

text \<open>A range-\<open>for\<close> visits every element exactly once.\<close>

lemma mem_map_filter: "(k, c) \<in> set (List.map_filter (\<lambda>k. map_option (Pair k) (um_find t k)) ks) \<longleftrightarrow>
   k \<in> set ks \<and> um_find t k = Some c"
  by (induction ks) (auto simp: List.map_filter_simps split: option.split)

lemma um_range_keys:
  assumes "iterates p" and "um_inv t"
  shows "distinct (map fst (um_range p t))" and "set (um_range p t) = {(k, c). um_find t k = Some c}"
proof -
  have iter: "set (um_iter p (um_keys t)) = set (um_keys t)" "distinct (um_iter p (um_keys t))"
    using assms unfolding iterates_def um_inv_def by (metis mset_eq_setD, metis mset_eq_imp_distinct_iff)
  have "distinct (map fst (List.map_filter (\<lambda>k. map_option (Pair k) (um_find t k)) ks)) \<and>
      set (map fst (List.map_filter (\<lambda>k. map_option (Pair k) (um_find t k)) ks)) \<subseteq> set ks" if "distinct ks" for ks
    using that by (induction ks) (auto simp: List.map_filter_simps split: option.split)
  then show "distinct (map fst (um_range p t))"
    using iter by (simp add: um_range_def)
  show "set (um_range p t) = {(k, c). um_find t k = Some c}"
    using iter ct.find_in_keys [OF assms(2)]
    by (auto simp: um_range_def mem_map_filter) (metis option.distinct(1))
qed

end
