(* ===== verification/MockSocketCore.thy ===== *)
theory MockSocketCore
  imports SocketCore
begin

text \<open>
  \<open>test/MockSocketCore.h\<close>: the implementation of \<open>SocketImpl\<close> the unit tests use. Every mocked
  method answers from a script (the \<open>WillOnce\<close> actions of an expectation, in order) and, once
  the script is used up, with the default value 0; \<open>Initialize\<close> is not mocked and returns 0. A
  scripted answer of \<open>Accept\<close>, \<open>Select\<close>, \<open>Recv\<close> and \<open>GetAddrInfo\<close> carries what the
  action writes through the pointer arguments. The witnesses run the model on such scripts.
\<close>

record mock =
  q_Socket :: "SOCKET list"
  q_SetSockOpt :: "int list"
  q_Bind :: "int list"
  q_Accept :: "(SOCKET \<times> sockaddr_in) list"
  q_Listen :: "int list"
  q_Connect :: "int list"
  q_Close :: "int list"
  q_Select :: "(int \<times> fd_set) list"
  q_Recv :: "(ssize_t \<times> bytes) list"
  q_SendTo :: "ssize_t list"
  q_Send :: "ssize_t list"
  q_GetAddrInfo :: "(int \<times> in_addr_t list) list"
  q_errno :: int

definition no_script :: mock where
  "no_script = \<lparr>q_Socket = [], q_SetSockOpt = [], q_Bind = [], q_Accept = [], q_Listen = [],
     q_Connect = [], q_Close = [], q_Select = [], q_Recv = [], q_SendTo = [], q_Send = [],
     q_GetAddrInfo = [], q_errno = 0\<rparr>"

definition scripted :: "'r \<Rightarrow> 'r list \<Rightarrow> ('r list \<Rightarrow> mock) \<Rightarrow> 'r \<times> mock" where
  "scripted default_value script rest =
     (case script of [] \<Rightarrow> (default_value, rest []) | x # xs \<Rightarrow> (x, rest xs))"

definition MockSocketCore :: "mock SocketImpl" where
  "MockSocketCore =
     \<lparr>core_Initialize = (\<lambda>w. (0, w)),
      core_Socket = (\<lambda>_ _ _ w. scripted 0 (q_Socket w) (\<lambda>q. w\<lparr>q_Socket := q\<rparr>)),
      core_SetSockOpt = (\<lambda>_ _ _ _ w. scripted 0 (q_SetSockOpt w) (\<lambda>q. w\<lparr>q_SetSockOpt := q\<rparr>)),
      core_Bind = (\<lambda>_ _ w. scripted 0 (q_Bind w) (\<lambda>q. w\<lparr>q_Bind := q\<rparr>)),
      core_Accept = (\<lambda>_ addr w. scripted (0, addr) (q_Accept w) (\<lambda>q. w\<lparr>q_Accept := q\<rparr>)),
      core_Listen = (\<lambda>_ _ w. scripted 0 (q_Listen w) (\<lambda>q. w\<lparr>q_Listen := q\<rparr>)),
      core_Connect = (\<lambda>_ _ w. scripted 0 (q_Connect w) (\<lambda>q. w\<lparr>q_Connect := q\<rparr>)),
      core_Close = (\<lambda>_ w. scripted 0 (q_Close w) (\<lambda>q. w\<lparr>q_Close := q\<rparr>)),
      core_Select = (\<lambda>_ fds _ w. scripted (0, fds) (q_Select w) (\<lambda>q. w\<lparr>q_Select := q\<rparr>)),
      core_Recv = (\<lambda>_ _ w. scripted (0, []) (q_Recv w) (\<lambda>q. w\<lparr>q_Recv := q\<rparr>)),
      core_SendTo = (\<lambda>_ _ _ _ w. scripted 0 (q_SendTo w) (\<lambda>q. w\<lparr>q_SendTo := q\<rparr>)),
      core_Send = (\<lambda>_ _ _ w. scripted 0 (q_Send w) (\<lambda>q. w\<lparr>q_Send := q\<rparr>)),
      core_GetAddrInfo = (\<lambda>_ _ w. scripted (0, []) (q_GetAddrInfo w) (\<lambda>q. w\<lparr>q_GetAddrInfo := q\<rparr>)),
      core_FreeAddrInfo = (\<lambda>_ w. w),
      core_errno = q_errno\<rparr>"

text \<open>A platform to run examples on: little-endian, \<open>fmt\<close>, two known addresses.\<close>

definition example_platform :: platform where
  "example_platform =
     \<lparr>FMT_SUPPORT = True, big_endian = False,
      inet_pton = (\<lambda>text. if text = ''127.0.0.1'' then Some 0x0100007F
                         else if text = ''0.0.0.0'' then Some 0
                         else if text = ''224.0.0.1'' then Some 0x010000E0 else None),
      inet_ntop = (\<lambda>a. if a = 0x0100007F then ''127.0.0.1'' else ''0.0.0.0''),
      um_iter = (\<lambda>ks. ks)\<rparr>"

lemmas mock_simps = MockSocketCore_def scripted_def no_script_def run_syscall call_defs

end
