(* ===== verification/TcpServer.thy ===== *)
theory TcpServer
  imports Socket_Base Client_Table MockSocketCore
begin

text \<open>
  \<open>include/sockets-cpp/TcpServer.h\<close>: the state of a server, its public operations, and the server
  thread with the callbacks it makes. Other threads act at the points where the server thread
  takes the lock or reads shared members: at each such point (\<open>interleave\<close>) the next element of
  \<open>others\<close> says which public operations they carry out there.
\<close>

section \<open>State and construction\<close>

definition SERVER_MAX_PACKET_SIZE :: size_t where
  "SERVER_MAX_PACKET_SIZE = 65536"

text \<open>The class's own \<open>m_sockfd\<close> and that of its nested struct \<open>Client\<close> are two fields here.\<close>

record Client =
  m_ip :: string
  client_sockfd :: SOCKET
  m_port :: uint16_t
  m_isConnected :: bool

text \<open>The public operations another thread may call while the server runs.\<close>

datatype command =
    DeleteClient int
  | SendBcast bytes size_t
  | SendClientMessage int bytes size_t

text \<open>\<open>task_msg\<close> is the array \<open>msg\<close> of the server thread, which lives as long as its loop.\<close>

record ('w, 'a) TcpServer = "('w, 'a) sock" +
  m_serverAddress :: sockaddr_in
  m_clientAddress :: sockaddr_in
  m_fds :: fd_set
  m_clients :: "Client um"
  task_msg :: buffer
  others :: "command list list"

definition new_TcpServer ::
  "SocketOpt option \<Rightarrow> 'a \<Rightarrow> 'w \<Rightarrow> bool list \<Rightarrow> command list list \<Rightarrow> buffer \<Rightarrow> ('w, 'a) TcpServer" where
  "new_TcpServer options callback w stores cmds junk =
     \<lparr>world = w, trace = [], m_sockfd = INVALID_SOCKET, m_stop = False, m_thread = False,
      m_sockOptions = choose_options options, m_callback = callback, stop_stores = stores,
      m_serverAddress = sockaddr_zero, m_clientAddress = sockaddr_zero, m_fds = FD_ZERO,
      m_clients = [], task_msg = junk, others = cmds\<rparr>"

text \<open>\<open>Client(&m_socketCore, addr.data(), clientFd, port)\<close>\<close>

definition new_Client :: "string \<Rightarrow> SOCKET \<Rightarrow> uint16_t \<Rightarrow> Client" where
  "new_Client ipAddr clientFd port =
     \<lparr>m_ip = ipAddr, client_sockfd = clientFd, m_port = port, m_isConnected = True\<rparr>"

section \<open>start\<close>

definition clientsQueueSize :: int where
  "clientsQueueSize = 5"

definition TcpServer_start ::
  "platform \<Rightarrow> 'w SocketImpl \<Rightarrow> uint16_t \<Rightarrow> (('w, 'a) TcpServer, SocketRet outcome) state" where
  "TcpServer_start p core port = do {
     result \<leftarrow> Initialize core;
     if result \<noteq> 0 then
       State_Monad.return (Inr (fail_ret (format_msg p
         (''Error: Socket initialization failed: '' @ dec_int result)
         (''Error: Socket initialization failed: '' @ dec_int result))))
     else do {
     fd \<leftarrow> Socket core AF_INET SOCK_STREAM 0;
     State_Monad.update (\<lambda>s. s\<lparr>m_sockfd := fd\<rparr>);
     if fd = INVALID_SOCKET then do {
       ret \<leftarrow> errno_ret p core ''Error: Socket creation failed errno'' ''Error: Socket creation failed: '';
       State_Monad.return (Inr ret)
     } else do {
     s \<leftarrow> State_Monad.get;
     rc \<leftarrow> SetSockOpt core (m_sockfd s) SOL_SOCKET SO_REUSEADDR (OptInt 1);
     if rc < 0 then do {
       ret \<leftarrow> errno_ret p core ''Error: SetSockOpt(SO_REUSEADDR) failed: errno ''
                ''Error: SetSockOpt(SO_REUSEADDR) failed: '';
       State_Monad.return (Inr ret)
     } else do {
     s \<leftarrow> State_Monad.get;
     rc \<leftarrow> SetSockOpt core (m_sockfd s) SOL_SOCKET SO_RCVBUF (OptInt (m_rxBufSize (m_sockOptions s)));
     if rc < 0 then do {
       ret \<leftarrow> errno_ret p core ''Error: SetSockOpt(SO_RCVBUF) failed: errno ''
                ''Error: SetSockOpt(SO_RCVBUF) failed: '';
       State_Monad.return (Inr ret)
     } else do {
     s \<leftarrow> State_Monad.get;
     rc \<leftarrow> SetSockOpt core (m_sockfd s) SOL_SOCKET SO_SNDBUF (OptInt (m_txBufSize (m_sockOptions s)));
     if rc < 0 then do {
       ret \<leftarrow> errno_ret p core ''Error: SetSockOpt(SO_SNDBUF) failed: errno ''
                ''Error: SetSockOpt(SO_SNDBUF) failed: '';
       State_Monad.return (Inr ret)
     } else do {
     State_Monad.update (\<lambda>s. s\<lparr>m_serverAddress := \<lparr>sin_family = AF_INET, sin_port = htons p port,
       sin_addr = (case inet_pton p (m_listenAddr (m_sockOptions s)) of None \<Rightarrow> 0 | Some a \<Rightarrow> a)\<rparr>\<rparr>);
     s \<leftarrow> State_Monad.get;
     bindSuccess \<leftarrow> Bind core (m_sockfd s) (m_serverAddress s);
     if bindSuccess = -1 then do {
       ret \<leftarrow> errno_ret p core ''Error: errno '' ''BInd error: '';
       State_Monad.return (Inr ret)
     } else do {
     s \<leftarrow> State_Monad.get;
     listenSuccess \<leftarrow> Listen core (m_sockfd s) clientsQueueSize;
     if listenSuccess = -1 then do {
       ret \<leftarrow> errno_ret p core ''Error: listen() failed errno '' ''Error: listen() failed: '';
       State_Monad.return (Inr ret)
     } else do {
     s \<leftarrow> State_Monad.get;
     (case FD_SET (m_sockfd s) FD_ZERO of
        None \<Rightarrow> State_Monad.return (Inl (UB ''FD_SET out of range''))
      | Some fds \<Rightarrow> do {
          State_Monad.update (\<lambda>s. s\<lparr>m_fds := fds\<rparr>);
          obind start_thread (\<lambda>_. State_Monad.return (Inr ok_ret))
        })
     }}}}}}}
   }"

section \<open>The client connections\<close>

text \<open>\<open>Client::sendMsg\<close>\<close>

definition Client_sendMsg ::
  "platform \<Rightarrow> 'w SocketImpl \<Rightarrow> Client \<Rightarrow> bytes \<Rightarrow> size_t \<Rightarrow> (('w, 'z) env_scheme, SocketRet) state" where
  "Client_sendMsg p core client msg sz =
     (if client_sockfd client \<noteq> INVALID_SOCKET then do {
        numBytesSent \<leftarrow> Send core (client_sockfd client) msg sz;
        if sint numBytesSent < 0 then
          errno_ret p core ''Error: send() failed errno '' ''Error: send() failed: ''
        else if numBytesSent < sz then
          State_Monad.return (fail_ret (format_msg p
            (''Only '' @ dec_int (sint numBytesSent) @ '' bytes out of '' @
               dec_nat (unat sz) @ '' was sent to client'')
            (''Only '' @ dec_int (sint numBytesSent) @ '' bytes out of '' @
               dec_nat (unat sz) @ '' was sent to client'')))
        else State_Monad.return ok_ret
      } else State_Monad.return ok_ret)"

definition deleteClient :: "'w SocketImpl \<Rightarrow> int \<Rightarrow> (('w, 'a) TcpServer, bool outcome) state" where
  "deleteClient core handle = do {
     s \<leftarrow> State_Monad.get;
     (case um_find (m_clients s) handle of
        None \<Rightarrow> State_Monad.return (Inr False)
      | Some client \<Rightarrow> do {
          Close core (client_sockfd client);
          s \<leftarrow> State_Monad.get;
          (case FD_CLR (client_sockfd client) (m_fds s) of
             None \<Rightarrow> State_Monad.return (Inl (UB ''FD_CLR out of range''))
           | Some fds \<Rightarrow> do {
               State_Monad.update (\<lambda>s. s\<lparr>m_fds := fds\<rparr>);
               State_Monad.update (\<lambda>s. s\<lparr>m_clients := um_erase handle (m_clients s)\<rparr>);
               State_Monad.return (Inr True)
             })
        })
   }"

text \<open>The loop of \<open>sendBcast\<close> over the elements of the map; it breaks at the first failure.\<close>

fun bcast_loop ::
  "platform \<Rightarrow> 'w SocketImpl \<Rightarrow> bytes \<Rightarrow> size_t \<Rightarrow> (int \<times> Client) list \<Rightarrow> (('w, 'z) env_scheme, SocketRet) state" where
  "bcast_loop p core msg sz [] = State_Monad.return ok_ret"
| "bcast_loop p core msg sz ((k, client) # clients) = do {
     clientRet \<leftarrow> Client_sendMsg p core client msg sz;
     if m_success clientRet then bcast_loop p core msg sz clients
     else State_Monad.return (fail_ret (m_msg clientRet))
   }"

definition sendBcast ::
  "platform \<Rightarrow> 'w SocketImpl \<Rightarrow> bytes \<Rightarrow> size_t \<Rightarrow> (('w, 'a) TcpServer, SocketRet) state" where
  "sendBcast p core msg sz = do {
     s \<leftarrow> State_Monad.get;
     bcast_loop p core msg sz (um_range p (m_clients s))
   }"

text \<open>
  \<open>sendClientMessage\<close> has two halves: it looks the client up while it holds the lock, and uses
  the pointer to the map's element after it has released the lock. A pointer whose element has
  been erased in between dangles.
\<close>

definition sendClientMessage_lookup :: "int \<Rightarrow> (('w, 'a) TcpServer, int option) state" where
  "sendClientMessage_lookup clientId = do {
     s \<leftarrow> State_Monad.get;
     State_Monad.return (if um_find (m_clients s) clientId \<noteq> None then Some clientId else None)
   }"

definition sendClientMessage_use ::
  "platform \<Rightarrow> 'w SocketImpl \<Rightarrow> int \<Rightarrow> int option \<Rightarrow> bytes \<Rightarrow> size_t \<Rightarrow>
   (('w, 'a) TcpServer, SocketRet outcome) state" where
  "sendClientMessage_use p core clientId client msg sz = do {
     s \<leftarrow> State_Monad.get;
     (case client of
        Some k \<Rightarrow>
          (case um_find (m_clients s) k of
             None \<Rightarrow> State_Monad.return (Inl (UB ''use of an erased Client''))
           | Some c \<Rightarrow> do {
               ret \<leftarrow> Client_sendMsg p core c msg sz;
               State_Monad.return (Inr ret)
             })
      | None \<Rightarrow> State_Monad.return (Inr (fail_ret (format_msg p
          (''Error: Client '' @ dec_int clientId @ '' not found'')
          (''Error: Client '' @ dec_int clientId @ '' not found'')))))
   }"

definition sendClientMessage ::
  "platform \<Rightarrow> 'w SocketImpl \<Rightarrow> int \<Rightarrow> bytes \<Rightarrow> size_t \<Rightarrow> (('w, 'a) TcpServer, SocketRet outcome) state" where
  "sendClientMessage p core clientId msg sz = do {
     client \<leftarrow> sendClientMessage_lookup clientId;
     sendClientMessage_use p core clientId client msg sz
   }"

text \<open>The three reference parameters of \<open>getClientInfo\<close> are passed in and handed back.\<close>

definition getClientInfo ::
  "int \<Rightarrow> string \<times> uint16_t \<times> bool \<Rightarrow> (('w, 'a) TcpServer, bool \<times> string \<times> uint16_t \<times> bool) state" where
  "getClientInfo clientId info = do {
     s \<leftarrow> State_Monad.get;
     State_Monad.return (case um_find (m_clients s) clientId of
        None \<Rightarrow> (False, info)
      | Some client \<Rightarrow> (True, m_ip client, m_port client, m_isConnected client))
   }"

section \<open>finish\<close>

fun close_clients :: "'w SocketImpl \<Rightarrow> (int \<times> Client) list \<Rightarrow> (('w, 'z) env_scheme, unit) state" where
  "close_clients core [] = State_Monad.return ()"
| "close_clients core ((k, client) # clients) = do {
     Close core (client_sockfd client);
     close_clients core clients
   }"

text \<open>The accept socket, and the end of \<open>finish\<close>.\<close>

definition close_listener :: "'w SocketImpl \<Rightarrow> (('w, 'a) TcpServer, unit) state" where
  "close_listener core = do {
     s \<leftarrow> State_Monad.get;
     (if m_sockfd s \<noteq> INVALID_SOCKET then do { Close core (m_sockfd s); State_Monad.return () }
      else State_Monad.return ());
     State_Monad.update (\<lambda>s. s\<lparr>m_sockfd := INVALID_SOCKET, m_clients := []\<rparr>)
   }"

definition TcpServer_finish :: "platform \<Rightarrow> 'w SocketImpl \<Rightarrow> bool \<Rightarrow> (('w, 'a) TcpServer, unit) state" where
  "TcpServer_finish p core on_thread = do {
     State_Monad.update (\<lambda>s. s\<lparr>m_stop := True\<rparr>);
     join_thread on_thread;
     s \<leftarrow> State_Monad.get;
     close_clients core (um_range p (m_clients s));
     close_listener core
   }"

text \<open>\<open>~TcpServer\<close>\<close>

definition TcpServer_destroy :: "platform \<Rightarrow> 'w SocketImpl \<Rightarrow> bool \<Rightarrow> (('w, 'a) TcpServer, unit outcome) state" where
  "TcpServer_destroy p core on_thread = do {
     TcpServer_finish p core on_thread;
     destroy_thread
   }"

section \<open>start is a staged set-up\<close>

definition server_listen_address :: "platform \<Rightarrow> SocketOpt \<Rightarrow> uint16_t \<Rightarrow> sockaddr_in" where
  "server_listen_address p opts port = \<lparr>sin_family = AF_INET, sin_port = htons p port,
     sin_addr = (case inet_pton p (m_listenAddr opts) of None \<Rightarrow> 0 | Some a \<Rightarrow> a)\<rparr>"

definition server_opt_call ::
  "'w SocketImpl \<Rightarrow> opt_name \<Rightarrow> (SocketOpt \<Rightarrow> opt_value) \<Rightarrow> (('w, 'a) TcpServer, int) state" where
  "server_opt_call core optname optval = do {
     s \<leftarrow> State_Monad.get;
     SetSockOpt core (m_sockfd s) SOL_SOCKET optname (optval (m_sockOptions s))
   }"

definition start_stages :: "platform \<Rightarrow> 'w SocketImpl \<Rightarrow> uint16_t \<Rightarrow> ('w, 'a) TcpServer stage list" where
  "start_stages p core port =
    [\<lparr>st_call = Initialize core, st_bad = (\<lambda>r. r \<noteq> 0),
      st_fail = (\<lambda>r. State_Monad.return (Inr (fail_ret (format_msg p
         (''Error: Socket initialization failed: '' @ dec_int r)
         (''Error: Socket initialization failed: '' @ dec_int r)))))\<rparr>,
     errno_stage p core
       (do { fd \<leftarrow> Socket core AF_INET SOCK_STREAM 0;
             State_Monad.update (\<lambda>s. s\<lparr>m_sockfd := fd\<rparr>); State_Monad.return fd })
       (\<lambda>r. r = INVALID_SOCKET)
       ''Error: Socket creation failed errno'' ''Error: Socket creation failed: '',
     errno_stage p core (server_opt_call core SO_REUSEADDR (\<lambda>_. OptInt 1)) (\<lambda>r. r < 0)
       ''Error: SetSockOpt(SO_REUSEADDR) failed: errno '' ''Error: SetSockOpt(SO_REUSEADDR) failed: '',
     errno_stage p core (server_opt_call core SO_RCVBUF (\<lambda>opts. OptInt (m_rxBufSize opts))) (\<lambda>r. r < 0)
       ''Error: SetSockOpt(SO_RCVBUF) failed: errno '' ''Error: SetSockOpt(SO_RCVBUF) failed: '',
     errno_stage p core (server_opt_call core SO_SNDBUF (\<lambda>opts. OptInt (m_txBufSize opts))) (\<lambda>r. r < 0)
       ''Error: SetSockOpt(SO_SNDBUF) failed: errno '' ''Error: SetSockOpt(SO_SNDBUF) failed: '',
     errno_stage p core
       (do { State_Monad.update (\<lambda>s. s\<lparr>m_serverAddress := server_listen_address p (m_sockOptions s) port\<rparr>);
             s \<leftarrow> State_Monad.get;
             Bind core (m_sockfd s) (m_serverAddress s) })
       (\<lambda>r. r = -1) ''Error: errno '' ''BInd error: '',
     errno_stage p core
       (do { s \<leftarrow> State_Monad.get; Listen core (m_sockfd s) clientsQueueSize })
       (\<lambda>r. r = -1) ''Error: listen() failed errno '' ''Error: listen() failed: '']"

definition start_planned :: "string list list" where
  "start_planned = [[''Initialize''], [''Socket''], [''SO_REUSEADDR''], [''SO_RCVBUF''], [''SO_SNDBUF''],
     [''Bind''], [''Listen'']]"

definition start_last :: "(('w, 'a) TcpServer, SocketRet outcome) state" where
  "start_last = do {
     s \<leftarrow> State_Monad.get;
     (case FD_SET (m_sockfd s) FD_ZERO of
        None \<Rightarrow> State_Monad.return (Inl (UB ''FD_SET out of range''))
      | Some fds \<Rightarrow> do {
          State_Monad.update (\<lambda>s. s\<lparr>m_fds := fds\<rparr>);
          obind start_thread (\<lambda>_. State_Monad.return (Inr ok_ret))
        })
   }"

lemma start_staged: "TcpServer_start p core port = State_Monad.bind (State_Monad.update (\<lambda>s. s))
   (\<lambda>_. run_stages (start_stages p core port) start_last)"
  by (simp add: TcpServer_start_def start_stages_def start_last_def errno_stage_def server_opt_call_def
      server_listen_address_def cong: if_cong)

lemma start_stages_ok: "list_all2 stage_ok (start_stages p core port) start_planned"
  unfolding start_stages_def start_planned_def errno_stage_def server_opt_call_def list.rel_inject
  by (intro conjI stage_okI; auto simp: wp_simps call_defs Let_def)

lemma start_last_ok: "last_ok start_last [''thread'']"
  unfolding start_last_def by (rule last_okI) (auto simp: wp_simps split: option.split)

lemma start_last_results:
  "wp start_last (\<lambda>r _. r \<in> {Inr ok_ret, Inl Terminate, Inl (UB ''FD_SET out of range'')}) t"
  by (auto simp: start_last_def wp_simps split: option.split)

interpretation server_setup: staged_setup
  "TcpServer_start p core port" "\<lambda>s. s" "start_stages p core port" start_planned start_last "[''thread'']"
  for p core port
  by unfold_locales (simp_all only: start_staged start_stages_ok start_last_ok)

section \<open>The invariant\<close>

abbreviation client_keys :: "('w, 'a) TcpServer \<Rightarrow> int set" where
  "client_keys s \<equiv> set (um_keys (m_clients s))"

text \<open>Every element of the table is under the descriptor of its own connection.\<close>

definition table_ok :: "('w, 'a) TcpServer \<Rightarrow> bool" where
  "table_ok s \<longleftrightarrow> um_inv (m_clients s) \<and> ct.all_entries (\<lambda>k c. client_sockfd c = k) (m_clients s) \<and>
     m_sockfd s \<notin> client_keys s \<and> INVALID_SOCKET \<notin> client_keys s"

text \<open>While the server runs, \<open>m_fds\<close> is the accept socket and the clients.\<close>

definition server_inv :: "('w, 'a) TcpServer \<Rightarrow> bool" where
  "server_inv s \<longleftrightarrow> table_ok s \<and> m_sockfd s \<noteq> INVALID_SOCKET \<and>
     fds_of (m_fds s) = insert (m_sockfd s) (client_keys s)"

definition server_holds :: "('w, 'a) TcpServer \<Rightarrow> int set" where
  "server_holds s = insert (m_sockfd s) (client_keys s) - {INVALID_SOCKET}"

text \<open>Taking one client out keeps the invariant.\<close>

lemma server_inv_erase:
  assumes "server_inv s" and "k \<in> client_keys s" and "m_clients t = um_erase k (m_clients s)"
    and "FD_CLR k (m_fds s) = Some (m_fds t)" and "m_sockfd t = m_sockfd s"
  shows "server_inv t" and "client_keys t = client_keys s - {k}"
proof -
  have ok: "table_ok s" "k \<noteq> m_sockfd s"
    using assms(1,2) by (auto simp: server_inv_def table_ok_def)
  then show keys: "client_keys t = client_keys s - {k}"
    using assms(3) by (simp add: table_ok_def ct.keys_erase)
  have "table_ok t"
    using ok(1) assms(3,5) keys by (simp add: table_ok_def ct.inv_erase ct.all_entries_erase)
  moreover have "fds_of (m_fds t) = insert (m_sockfd t) (client_keys t)"
    using fds_of_CLR [OF assms(4)] assms(1,5) ok(2) keys by (simp add: server_inv_def insert_Diff_if)
  ultimately show "server_inv t"
    using assms(1,5) by (simp add: server_inv_def)
qed

section \<open>Lemmas about the operations\<close>

text \<open>What sending does: it adds \<open>send\<close> calls to the trace and changes nothing of the server.\<close>

definition only_sends :: "('w, 'z) env_scheme \<Rightarrow> ('w, 'z) env_scheme \<Rightarrow> bool" where
  "only_sends s t \<longleftrightarrow> (\<exists>w es. t = s\<lparr>world := w, trace := trace s @ es\<rparr> \<and> list_all quiet es)"

lemma only_sends_refl: "only_sends s s"
  unfolding only_sends_def by (intro exI [of _ "world s"] exI [of _ "[]"]) simp

lemma only_sends_one: "quiet e \<Longrightarrow> only_sends s (s\<lparr>world := w, trace := trace s @ [e]\<rparr>)"
  unfolding only_sends_def by (intro exI [of _ w] exI [of _ "[e]"]) simp

lemma only_sends_trans: "only_sends s t \<Longrightarrow> only_sends t u \<Longrightarrow> only_sends s u"
  unfolding only_sends_def by fastforce

lemma Client_sendMsg_event:
  "client_sockfd client \<noteq> INVALID_SOCKET \<Longrightarrow> wp (Client_sendMsg p core client msg sz) (\<lambda>ret t.
     \<exists>n w. t = s\<lparr>world := w, trace := trace s @ [EvSend (client_sockfd client) msg sz n]\<rparr> \<and>
       (m_success ret \<longleftrightarrow> \<not> sint n < 0 \<and> \<not> n < sz)) s"
  unfolding Client_sendMsg_def by (auto simp: wp_simps call_defs)

lemma Client_sendMsg_sends: "wp (Client_sendMsg p core client msg sz) (\<lambda>_ t. only_sends s t) s"
  unfolding Client_sendMsg_def
  by (simp add: wp_simps call_defs only_sends_refl only_sends_one)

lemma bcast_sends: "wp (bcast_loop p core msg sz clients) (\<lambda>_ t. only_sends s t) s"
proof (induction clients arbitrary: s)
  case (Cons kc clients)
  have "wp (Client_sendMsg p core client msg sz) (\<lambda>r. wp (if m_success r then bcast_loop p core msg sz clients
      else State_Monad.return (fail_ret (m_msg r))) (\<lambda>_. only_sends s)) s" for client
    by (rule wp_mono [OF Client_sendMsg_sends]) (auto intro: wp_mono [OF Cons.IH] only_sends_trans)
  then show ?case by (cases kc) simp
qed (simp add: only_sends_refl)

lemma sendBcast_sends: "wp (sendBcast p core msg sz) (\<lambda>_ t. only_sends s t) s"
  by (simp add: sendBcast_def bcast_sends)

lemma sendClientMessage_sends: "wp (sendClientMessage p core k msg sz) (\<lambda>r t. only_sends s t \<and> (\<exists>ret. r = Inr ret)) s"
  unfolding sendClientMessage_def sendClientMessage_lookup_def sendClientMessage_use_def
  by (auto simp: only_sends_refl intro!: wp_mono [OF Client_sendMsg_sends] split: option.split)

lemma wp_deleteClient [wp_simps]: "wp (deleteClient core k) Q s =
   (case um_find (m_clients s) k of None \<Rightarrow> Q (Inr False) s
    | Some c \<Rightarrow> \<forall>r w. core_Close core (client_sockfd c) (world s) = (r, w) \<longrightarrow>
        (let t = s\<lparr>world := w, trace := trace s @ [EvClose (client_sockfd c) r]\<rparr>
         in case FD_CLR (client_sockfd c) (m_fds s) of
              None \<Rightarrow> Q (Inl (UB ''FD_CLR out of range'')) t
            | Some fds \<Rightarrow> Q (Inr True) (t\<lparr>m_fds := fds, m_clients := um_erase k (m_clients s)\<rparr>)))"
  by (auto simp: deleteClient_def wp_simps call_defs Let_def split: option.split)

text \<open>\<open>start\<close> opens at most one descriptor and leaves it in \<open>m_sockfd\<close>.\<close>

lemma start_frame:
  "wp (TcpServer_start p core port) (\<lambda>r t. prefix (trace s) (trace t) \<and> m_clients t = m_clients s \<and>
     others t = others s \<and> (r = Inl Terminate \<longrightarrow> m_thread s) \<and>
     (succeeded r \<longrightarrow> \<not> m_thread s \<and> m_thread t) \<and>
     (m_sockfd s = INVALID_SOCKET \<longrightarrow>
        owned (trace t) = owned (trace s) \<union> ({m_sockfd t} - {INVALID_SOCKET}) \<and>
        (posix_trace (trace t) \<longrightarrow> m_sockfd t \<notin> owned (trace s))) \<and>
     (m_thread t \<longrightarrow> m_thread s \<or> m_sockfd t \<noteq> INVALID_SOCKET \<and> fds_of (m_fds t) = {m_sockfd t})) s"
  unfolding TcpServer_start_def
  by (auto simp: wp_simps call_defs Let_def trace_simps fds_of_SET split: option.split)

lemma close_clients_trace:
  "wp (close_clients core cs) (\<lambda>_ t. \<exists>w rs. length rs = length cs \<and>
     t = s\<lparr>world := w, trace := trace s @ map2 (\<lambda>(k, c) r. EvClose (client_sockfd c) r) cs rs\<rparr>) s"
proof (induction cs arbitrary: s)
  case Nil
  show ?case by (auto intro!: exI [of _ "world s"])
next
  case (Cons kc cs)
  obtain k c where kc: "kc = (k, c)" by (cases kc)
  have "wp (close_clients core cs) (\<lambda>_ t. \<exists>w' rs. length rs = length (kc # cs) \<and>
      t = s\<lparr>world := w', trace := trace s @ map2 (\<lambda>(k, c) r. EvClose (client_sockfd c) r) (kc # cs) rs\<rparr>)
      (s\<lparr>world := w, trace := trace s @ [EvClose (client_sockfd c) r]\<rparr>)" for w r
  proof (rule wp_mono [OF Cons.IH], elim exE conjE)
    fix t w' and rs :: "int list"
    assume "length rs = length cs"
      "t = s\<lparr>world := w, trace := trace s @ [EvClose (client_sockfd c) r]\<rparr>\<lparr>world := w', trace :=
         trace (s\<lparr>world := w, trace := trace s @ [EvClose (client_sockfd c) r]\<rparr>) @
         map2 (\<lambda>(k, c) r. EvClose (client_sockfd c) r) cs rs\<rparr>"
    then show "\<exists>w' rs. length rs = length (kc # cs) \<and>
      t = s\<lparr>world := w', trace := trace s @ map2 (\<lambda>(k, c) r. EvClose (client_sockfd c) r) (kc # cs) rs\<rparr>"
      using kc by (intro exI [of _ w'] exI [of _ "r # rs"]) simp
  qed
  then show ?case by (simp add: kc wp_simps call_defs)
qed

text \<open>The descriptors a list of events closes.\<close>

fun closed_fds :: "event list \<Rightarrow> int list" where
  "closed_fds [] = []"
| "closed_fds (EvClose fd _ # es) = fd # closed_fds es"
| "closed_fds (_ # es) = closed_fds es"

definition only_closes :: "event list \<Rightarrow> bool" where
  "only_closes es = list_all (\<lambda>e. case e of EvClose _ _ \<Rightarrow> True | _ \<Rightarrow> False) es"

lemma closed_fds_append [simp]: "closed_fds (xs @ ys) = closed_fds xs @ closed_fds ys"
proof (induction xs)
  case (Cons x xs)
  then show ?case by (cases x) simp_all
qed simp

lemma closes_map2:
  "length rs = length cs \<Longrightarrow>
     closed_fds (map2 (\<lambda>(k, c) r. EvClose (client_sockfd c) r) cs rs) = map (\<lambda>(k, c). client_sockfd c) cs \<and>
     only_closes (map2 (\<lambda>(k, c) r. EvClose (client_sockfd c) r) cs rs)"
  by (induction rs cs rule: list_induct2) (auto simp: only_closes_def)

lemma only_closes_owned: "only_closes es \<Longrightarrow> owned (tr @ es) = owned tr - set (closed_fds es)"
proof (induction es arbitrary: tr)
  case (Cons e es)
  from Cons.prems obtain fd r where "e = EvClose fd r" "only_closes es"
    by (cases e) (auto simp: only_closes_def)
  with Cons.IH [of "tr @ [e]"] show ?case by auto
qed simp

lemma range_fds:
  assumes "table_ok s" and "iterates p"
  shows "map (\<lambda>(k, c). client_sockfd c) (um_range p (m_clients s)) = map fst (um_range p (m_clients s))"
    and "set (map fst (um_range p (m_clients s))) = client_keys s"
    and "distinct (map fst (um_range p (m_clients s)))"
proof -
  have inv: "um_inv (m_clients s)" "ct.all_entries (\<lambda>k c. client_sockfd c = k) (m_clients s)"
    using assms(1) by (auto simp: table_ok_def)
  note range = um_range_keys [OF assms(2) inv(1)]
  show "map (\<lambda>(k, c). client_sockfd c) (um_range p (m_clients s)) = map fst (um_range p (m_clients s))"
    using range(2) ct.all_entriesD [OF inv(2)] by auto
  show "distinct (map fst (um_range p (m_clients s)))" by (fact range)
  show "set (map fst (um_range p (m_clients s))) = client_keys s"
    using range(2) by (auto simp: image_iff simp flip: ct.find_in_keys [OF inv(1)])
qed

lemma finish_frame:
  assumes "table_ok s" and "iterates p"
  shows "wp (TcpServer_finish p core on_thread) (\<lambda>_ t. m_stop t \<and> m_sockfd t = INVALID_SOCKET \<and> m_clients t = [] \<and>
     (m_thread t \<longleftrightarrow> m_thread s \<and> on_thread) \<and> others t = others s \<and>
     (\<exists>es. trace t = trace s @ es \<and> only_closes es \<and> distinct (closed_fds es) \<and>
        set (closed_fds es) = server_holds s)) s"
proof -
  let ?cs = "um_range p (m_clients s)"
  let ?Q = "\<lambda>t. m_stop t \<and> m_sockfd t = INVALID_SOCKET \<and> m_clients t = [] \<and>
     (m_thread t \<longleftrightarrow> m_thread s \<and> on_thread) \<and> others t = others s \<and>
     (\<exists>es. trace t = trace s @ es \<and> only_closes es \<and> distinct (closed_fds es) \<and>
        set (closed_fds es) = server_holds s)"
  let ?joined = "if m_thread s \<and> \<not> on_thread then s\<lparr>m_stop := True, m_thread := False\<rparr> else s\<lparr>m_stop := True\<rparr>"
  note range = range_fds [OF assms]
  have fd: "m_sockfd s \<notin> client_keys s" "INVALID_SOCKET \<notin> client_keys s"
    using assms(1) by (auto simp: table_ok_def)
  have tail: "wp (close_listener core) (\<lambda>_. ?Q) (?joined\<lparr>world := w, trace := trace s @ es\<rparr>)"
    if "only_closes es" "closed_fds es = map fst ?cs" for w es
  proof (cases "m_sockfd s = INVALID_SOCKET")
    case True
    then have "server_holds s = set (closed_fds es)"
      using that range fd by (auto simp: server_holds_def)
    with True that range(3) show ?thesis by (auto simp: close_listener_def)
  next
    case False
    have "only_closes (es @ [EvClose (m_sockfd s) r])" "distinct (closed_fds (es @ [EvClose (m_sockfd s) r]))"
      "set (closed_fds (es @ [EvClose (m_sockfd s) r])) = server_holds s" for r
      using that range fd False by (auto simp: only_closes_def server_holds_def)
    with False show ?thesis by (auto simp: close_listener_def wp_simps call_defs)
  qed
  have "wp (close_clients core ?cs) (\<lambda>_ t. wp (close_listener core) (\<lambda>_. ?Q) t) ?joined"
  proof (rule wp_mono [OF close_clients_trace], elim exE conjE)
    fix t w and rs :: "int list"
    assume rs: "length rs = length ?cs"
      and t: "t = ?joined\<lparr>world := w, trace := trace ?joined @ map2 (\<lambda>(k, c) r. EvClose (client_sockfd c) r) ?cs rs\<rparr>"
    have "trace ?joined = trace s" by simp
    moreover have "wp (close_listener core) (\<lambda>_. ?Q)
        (?joined\<lparr>world := w, trace := trace s @ map2 (\<lambda>(k, c) r. EvClose (client_sockfd c) r) ?cs rs\<rparr>)"
      by (rule tail) (simp_all only: closes_map2 [OF rs] range(1))
    ultimately show "wp (close_listener core) (\<lambda>_. ?Q) t" by (simp only: t)
  qed
  then show ?thesis
    unfolding TcpServer_finish_def
    by (cases "m_thread s"; cases on_thread) (simp_all add: wp_join_thread)
qed

text \<open>The sends of a broadcast: a prefix of the clients, all but the last in full.\<close>

definition bcast_events :: "bytes \<Rightarrow> size_t \<Rightarrow> int list \<Rightarrow> size_t list \<Rightarrow> event list" where
  "bcast_events msg sz ks ns = map2 (\<lambda>k n. EvSend k msg sz n) (take (length ns) ks) ns"

definition bcast_outcome :: "size_t \<Rightarrow> int list \<Rightarrow> size_t list \<Rightarrow> bool \<Rightarrow> bool" where
  "bcast_outcome sz ks ns success \<longleftrightarrow> length ns \<le> length ks \<and> (\<forall>n \<in> set (butlast ns). n = sz) \<and>
     (if success then length ns = length ks \<and> (\<forall>n \<in> set ns. n = sz) else ns \<noteq> [] \<and> last ns \<noteq> sz)"

lemma bcast_more:
  assumes "trace t = trace s @ [EvSend k msg sz sz]" "trace u = trace t @ bcast_events msg sz ks ns" "bcast_outcome sz ks ns ok"
  shows "\<exists>ns'. trace u = trace s @ bcast_events msg sz (k # ks) ns' \<and> bcast_outcome sz (k # ks) ns' ok"
  using assms by (intro exI [of _ "sz # ns"]) (auto simp: bcast_events_def bcast_outcome_def)

lemma bcast_loop_trace:
  fixes s :: "('w, 'z) env_scheme"
  assumes "list_all (\<lambda>(k, c). client_sockfd c = k \<and> k \<noteq> INVALID_SOCKET) cs" and "0 \<le> sint sz"
  shows "wp (bcast_loop p core msg sz cs) (\<lambda>ret t. posix_trace (trace t) \<longrightarrow>
     (\<exists>ns. trace t = trace s @ bcast_events msg sz (map fst cs) ns \<and>
        bcast_outcome sz (map fst cs) ns (m_success ret))) s"
  using assms(1)
proof (induction cs arbitrary: s)
  case Nil
  show ?case by (simp add: bcast_events_def bcast_outcome_def)
next
  case (Cons kc cs)
  obtain k c where kc: "kc = (k, c)" "client_sockfd c = k" "k \<noteq> INVALID_SOCKET"
    using Cons.prems by (cases kc) auto
  let ?Q = "\<lambda>ret t. posix_trace (trace t) \<longrightarrow> (\<exists>ns. trace t = trace s @ bcast_events msg sz (map fst (kc # cs)) ns \<and>
        bcast_outcome sz (map fst (kc # cs)) ns (m_success ret))"
  have more: "wp (bcast_loop p core msg sz cs) ?Q t" if t: "trace t = trace s @ [EvSend k msg sz sz]"
    for t :: "('w, 'z) env_scheme"
  proof (rule wp_mono [OF Cons.IH])
    show "?Q ret u" if "posix_trace (trace u) \<longrightarrow> (\<exists>ns. trace u = trace t @ bcast_events msg sz (map fst cs) ns \<and>
        bcast_outcome sz (map fst cs) ns (m_success ret))" for ret u
      using that bcast_more [OF t] kc by fastforce
  qed (use Cons.prems in simp)
  have stop: "?Q (fail_ret m) t" if "trace t = trace s @ [EvSend k msg sz n]" "n \<noteq> sz" for t n m
    using that kc by (auto intro!: exI [of _ "[n]"] simp: bcast_events_def bcast_outcome_def)
  have sent: "wp (if m_success ret then bcast_loop p core msg sz cs else State_Monad.return (fail_ret (m_msg ret))) ?Q t"
    if t: "t = s\<lparr>world := w, trace := trace s @ [EvSend k msg sz n]\<rparr>"
      and ret: "m_success ret \<longleftrightarrow> \<not> sint n < 0 \<and> \<not> n < sz" for ret t n w
  proof (cases "m_success ret")
    case True
    show ?thesis
    proof (cases "n = sz")
      case False
      with True ret complete_send_iff [OF assms(2), of n] have bad: "\<not> posix_ok (trace s) (EvSend k msg sz n)"
        by auto
      have "wp (bcast_loop p core msg sz cs) (\<lambda>_ u. \<exists>es. trace u = trace t @ es) t"
        by (rule wp_mono [OF bcast_sends]) (auto simp: only_sends_def)
      then have "wp (bcast_loop p core msg sz cs) ?Q t"
        by (rule wp_mono) (use t bad posix_trace_mem in fastforce)
      with True show ?thesis by simp
    qed (use True t more in simp)
  next
    case False
    with ret complete_send_iff [OF assms(2), of n] have "n \<noteq> sz" if "posix_ok (trace s) (EvSend k msg sz n)"
      using that by auto
    with False t stop [of t n] show ?thesis by (auto simp: posix_trace_append)
  qed
  have "wp (Client_sendMsg p core c msg sz) (\<lambda>ret. wp (if m_success ret then bcast_loop p core msg sz cs
      else State_Monad.return (fail_ret (m_msg ret))) ?Q) s"
    by (rule wp_mono [OF Client_sendMsg_event], simp add: kc, elim exE conjE, rule sent) (simp_all add: kc)
  then show ?case by (simp add: kc)
qed

section \<open>Properties\<close>

text \<open>
  A server on descriptor 3 with two clients, on 5 and 6, as the server thread leaves it; and the
  result of \<open>start\<close> on a fresh server.
\<close>

definition two_clients :: "mock \<Rightarrow> (mock, unit) TcpServer" where
  "two_clients script = (new_TcpServer None () script [] [] (\<lambda>_. CHR ''?''))\<lparr>m_sockfd := 3, m_thread := True,
     trace := [EvSocket AF_INET SOCK_STREAM 0 3, EvAccept 3 5 sockaddr_zero, EvAccept 3 6 sockaddr_zero],
     m_fds := 0x68, m_clients := [(5, new_Client ''127.0.0.1'' 5 40000), (6, new_Client ''127.0.0.1'' 6 40001)]\<rparr>"

definition server_run :: "SocketRet outcome \<times> (mock, unit) TcpServer" where
  "server_run = run_state (TcpServer_start example_platform MockSocketCore 5000)
     (new_TcpServer None () (no_script\<lparr>q_Socket := [3]\<rparr>) [] [] (\<lambda>_. CHR ''?''))"

lemma example_iterates: "iterates example_platform"
  by (simp add: iterates_def example_platform_def)

lemma fds_of_example: "fds_of (0x68 :: fd_set) = {3, 5, 6}"
proof -
  have "FD_SET 6 FD_ZERO = Some 0x40" and "FD_SET 5 0x40 = Some 0x60" and "FD_SET 3 0x60 = Some 0x68"
    by code_simp+
  from this [THEN fds_of_SET] show ?thesis by auto
qed

lemma two_clients_inv: "server_inv (two_clients script)" "table_ok (two_clients script)"
proof -
  show ok: "table_ok (two_clients script)"
    by (auto simp: table_ok_def two_clients_def um_inv_def um_keys_def ct.all_entries_def um_find_def
        new_Client_def INVALID_SOCKET_def split: if_splits)
  show "server_inv (two_clients script)"
    using ok by (simp add: server_inv_def two_clients_def um_keys_def INVALID_SOCKET_def fds_of_example)
qed



text \<open>
  C22. \<open>sendBcast\<close> sends to the connected clients one after the other, each at most once, and stops
  at the first that does not take the whole message; it reports success exactly when every
  connected client took all of it.
\<close>

theorem sendBcast_reaches_clients:
  assumes "run_state (sendBcast p core msg sz) s = (ret, s')" and "posix_trace (trace s')"
    and "table_ok s" and "iterates p" and "0 \<le> sint sz"
  shows "\<exists>ks ns. distinct ks \<and> set ks = client_keys s \<and> trace s' = trace s @ bcast_events msg sz ks ns \<and>
     bcast_outcome sz ks ns (m_success ret)"
proof -
  let ?cs = "um_range p (m_clients s)"
  note range = range_fds [OF assms(3,4)]
  have "list_all (\<lambda>(k, c). client_sockfd c = k \<and> k \<noteq> INVALID_SOCKET) ?cs"
    unfolding list_all_iff
  proof
    fix kc
    assume mem: "kc \<in> set ?cs"
    then have "client_sockfd (snd kc) = fst kc"
      using range(1) by (auto simp: map_eq_conv split: prod.splits)
    moreover have "fst kc \<in> client_keys s"
      using mem range(2) by force
    ultimately show "case kc of (k, c) \<Rightarrow> client_sockfd c = k \<and> k \<noteq> INVALID_SOCKET"
      using assms(3) by (auto simp: table_ok_def)
  qed
  from wpD [OF bcast_loop_trace [OF this assms(5)]] assms(1,2) obtain ns where
    "trace s' = trace s @ bcast_events msg sz (map fst ?cs) ns" "bcast_outcome sz (map fst ?cs) ns (m_success ret)"
    unfolding sendBcast_def by force
  with range(2,3) show ?thesis by blast
qed

definition bcast_run :: "SocketRet \<times> (mock, unit) TcpServer" where
  "bcast_run = run_state (sendBcast example_platform MockSocketCore ''hello'' 5)
     (two_clients (no_script\<lparr>q_Send := [5, 3]\<rparr>))"

theorem sendBcast_reaches_clients_witness:
  "\<not> m_success (fst bcast_run) \<and> (\<exists>ks ns. distinct ks \<and> set ks = {5, 6} \<and>
     trace (snd bcast_run) = trace (two_clients no_script) @ bcast_events ''hello'' 5 ks ns \<and>
     bcast_outcome 5 ks ns (m_success (fst bcast_run)))"
proof
  have "posix_trace (trace (snd bcast_run))" by code_simp
  from sendBcast_reaches_clients [OF prod.collapse [symmetric, of bcast_run, unfolded bcast_run_def]
      this [unfolded bcast_run_def] two_clients_inv(2) example_iterates]
  show "\<exists>ks ns. distinct ks \<and> set ks = {5, 6} \<and>
     trace (snd bcast_run) = trace (two_clients no_script) @ bcast_events ''hello'' 5 ks ns \<and>
     bcast_outcome 5 ks ns (m_success (fst bcast_run))"
    by (simp add: bcast_run_def two_clients_def um_keys_def)
qed code_simp

lemma sendClientMessage_event:
  assumes "table_ok s" and "k \<in> client_keys s"
  shows "wp (sendClientMessage p core k msg sz) (\<lambda>r t. \<exists>n w ret. r = Inr ret \<and>
      t = s\<lparr>world := w, trace := trace s @ [EvSend k msg sz n]\<rparr> \<and> (m_success ret \<longleftrightarrow> \<not> sint n < 0 \<and> \<not> n < sz)) s"
proof -
  obtain c where c: "um_find (m_clients s) k = Some c"
    using assms(2) um_find_None [of "m_clients s" k] by auto
  moreover have "client_sockfd c = k" "k \<noteq> INVALID_SOCKET"
    using assms ct.all_entriesD [OF _ c] by (auto simp: table_ok_def)
  ultimately have "wp (Client_sendMsg p core c msg sz) (\<lambda>ret t. \<exists>n w.
      t = s\<lparr>world := w, trace := trace s @ [EvSend k msg sz n]\<rparr> \<and> (m_success ret \<longleftrightarrow> \<not> sint n < 0 \<and> \<not> n < sz)) s"
    using Client_sendMsg_event [of c p core msg sz s] by simp
  then show ?thesis
    using c by (simp add: sendClientMessage_def sendClientMessage_lookup_def sendClientMessage_use_def)
      (erule wp_mono, simp)
qed

text \<open>
  \<open>sendClientMessage\<close> to a connected client makes one \<open>send\<close> on its connection and reports
  success exactly when the whole message was taken; to an unknown handle it makes no call and
  reports failure.
\<close>

lemma sendClientMessage_effect:
  assumes "run_state (sendClientMessage p core k msg sz) s = (r, s')" and "posix_trace (trace s')"
    and "table_ok s" and "0 \<le> sint sz"
  shows "if k \<in> client_keys s
     then \<exists>n ret. r = Inr ret \<and> trace s' = trace s @ [EvSend k msg sz n] \<and> (m_success ret \<longleftrightarrow> n = sz)
     else \<exists>why. r = Inr (fail_ret why) \<and> s' = s"
proof (cases "k \<in> client_keys s")
  case False
  with assms(1) show ?thesis
    by (auto simp: sendClientMessage_def sendClientMessage_lookup_def sendClientMessage_use_def um_find_None [symmetric])
next
  case True
  from wpD [OF sendClientMessage_event [OF assms(3) True] assms(1)] obtain n w ret where
    n: "r = Inr ret" "s' = s\<lparr>world := w, trace := trace s @ [EvSend k msg sz n]\<rparr>"
      "m_success ret \<longleftrightarrow> \<not> sint n < 0 \<and> \<not> n < sz"
    by blast
  with assms(2) have "n = -1 \<or> n \<le> sz" by simp
  with n True complete_send_iff [OF assms(4)] show ?thesis by auto
qed

definition send_run :: "SocketRet outcome \<times> (mock, unit) TcpServer" where
  "send_run = run_state (sendClientMessage example_platform MockSocketCore 6 ''hello'' 5)
     (two_clients (no_script\<lparr>q_Send := [5]\<rparr>))"

text \<open>
  C23. \<open>deleteClient\<close> of a connected client closes exactly its connection, takes it out of the
  table and out of \<open>m_fds\<close> and returns true; of an unknown handle it does nothing and returns
  false. The server's invariant is kept.
\<close>

theorem deleteClient_effect:
  assumes "run_state (deleteClient core k) s = (r, s')" and "server_inv s"
  shows "server_inv s' \<and> client_keys s' = client_keys s - {k} \<and>
     (if k \<in> client_keys s then r = Inr True \<and> (\<exists>rc. trace s' = trace s @ [EvClose k rc]) \<and> k \<notin> fds_of (m_fds s')
      else r = Inr False \<and> s' = s)"
proof (cases "um_find (m_clients s) k")
  case None
  then have "k \<notin> client_keys s" by (simp add: um_find_None)
  have "wp (deleteClient core k) (\<lambda>r t. r = Inr False \<and> t = s) s"
    using None by (simp add: wp_simps)
  from wpD [OF this assms(1)] \<open>k \<notin> client_keys s\<close> assms(2) show ?thesis by simp
next
  case (Some c)
  have inv: "um_inv (m_clients s)" "ct.all_entries (\<lambda>k c. client_sockfd c = k) (m_clients s)"
    "fds_of (m_fds s) = insert (m_sockfd s) (client_keys s)"
    using assms(2) by (auto simp: server_inv_def table_ok_def)
  have c: "client_sockfd c = k" "k \<in> client_keys s"
    using Some ct.find_in_keys [OF inv(1), of k] ct.all_entriesD [OF inv(2)] by auto
  have "fd_in_range k" using inv(3) c(2) fds_of_range [of k "m_fds s"] by simp
  then obtain fds where fds: "FD_CLR k (m_fds s) = Some fds" by (auto simp: FD_CLR_def)
  have "wp (deleteClient core k) (\<lambda>r t. r = Inr True \<and> (\<exists>rc. trace t = trace s @ [EvClose k rc]) \<and>
      m_fds t = fds \<and> m_clients t = um_erase k (m_clients s) \<and> m_sockfd t = m_sockfd s) s"
    using Some c fds by (simp add: wp_simps Let_def)
  note t = wpD [OF this assms(1)]
  have "server_inv s'" and "client_keys s' = client_keys s - {k}"
    using server_inv_erase [OF assms(2) c(2), of s'] t fds by simp_all
  then show ?thesis
    using t c fds_of_CLR [OF fds] by simp
qed

theorem deleteClient_effect_witness:
  "server_inv (snd (run_state (deleteClient MockSocketCore 5) (two_clients no_script))) \<and>
   client_keys (snd (run_state (deleteClient MockSocketCore 5) (two_clients no_script))) = {6} \<and>
   fst (run_state (deleteClient MockSocketCore 5) (two_clients no_script)) = Inr True"
  using deleteClient_effect [OF prod.collapse [symmetric] two_clients_inv(1), of MockSocketCore 5 no_script]
  by (simp add: two_clients_def um_keys_def)

text \<open>
  \<open>finish\<close> closes every client connection and the accept socket exactly once and closes nothing
  else; it leaves the server stopped, without clients, without a socket and, unless the server
  thread itself called it, without a thread.
\<close>

theorem TcpServer_finish_effect:
  assumes "run_state (TcpServer_finish p core on_thread) s = (u, s')" and "table_ok s" and "iterates p"
  shows "m_stop s' \<and> m_sockfd s' = INVALID_SOCKET \<and> m_clients s' = [] \<and> (m_thread s' \<longleftrightarrow> m_thread s \<and> on_thread) \<and>
     (\<exists>es. trace s' = trace s @ es \<and> only_closes es \<and> distinct (closed_fds es) \<and>
        set (closed_fds es) = server_holds s)"
  using wpD [OF finish_frame [OF assms(2,3)] assms(1)] by blast

definition finish_run :: "(mock, unit) TcpServer" where
  "finish_run = snd (run_state (TcpServer_finish example_platform MockSocketCore False) (two_clients no_script))"

theorem TcpServer_finish_effect_witness:
  "\<not> m_thread finish_run \<and> (\<exists>es. trace finish_run = trace (two_clients no_script) @ es \<and> only_closes es \<and>
     distinct (closed_fds es) \<and> set (closed_fds es) = {3, 5, 6})"
  using TcpServer_finish_effect [OF prod.collapse [symmetric] two_clients_inv(2) example_iterates,
      of MockSocketCore False no_script]
  by (auto simp: finish_run_def server_holds_def two_clients_def um_keys_def INVALID_SOCKET_def)

text \<open>
  C36. \<open>sendClientMessage\<close> uses its pointer to the client after it has released the lock: when
  another thread deletes the client between the two halves of the call, the pointer dangles and
  the behaviour is undefined.
\<close>

theorem sendClientMessage_race:
  assumes "run_state (sendClientMessage_lookup k) s = (client, s1)" and "k \<in> client_keys s" and "server_inv s"
    and "run_state (deleteClient core k) s1 = (d, s2)"
  shows "run_state (sendClientMessage_use p core k client msg sz) s2 = (Inl (UB ''use of an erased Client''), s2)"
proof -
  have found: "um_find (m_clients s) k \<noteq> None" using assms(2) by (simp add: um_find_None)
  with assms(1) have s1: "s1 = s" "client = Some k"
    by (auto simp: sendClientMessage_lookup_def)
  have inv: "um_inv (m_clients s)" using assms(3) by (simp add: server_inv_def table_ok_def)
  obtain c where c: "um_find (m_clients s) k = Some c" using found by auto
  have "client_sockfd c = k" using assms(3) c ct.all_entriesD by (fastforce simp: server_inv_def table_ok_def)
  moreover have "fd_in_range k"
    using assms(2,3) fds_of_range [of k "m_fds s"] by (simp add: server_inv_def)
  ultimately have "wp (deleteClient core k) (\<lambda>_ t. um_find (m_clients t) k = None) s"
    using c by (auto simp: wp_simps Let_def FD_CLR_def um_find_erase)
  from wpD [OF this] assms(4) s1(1) have "um_find (m_clients s2) k = None" by blast
  then show ?thesis by (simp add: sendClientMessage_use_def s1(2))
qed

theorem sendClientMessage_race_witness:
  "fst (run_state (sendClientMessage_use example_platform MockSocketCore 5 (Some 5) ''hello'' 5)
     (snd (run_state (deleteClient MockSocketCore 5) (two_clients no_script)))) =
     Inl (UB ''use of an erased Client'')"
proof -
  have "run_state (sendClientMessage_lookup 5) (two_clients no_script) = (Some 5, two_clients no_script)"
    by (simp add: sendClientMessage_lookup_def two_clients_def um_find_def)
  from sendClientMessage_race [OF this _ two_clients_inv(1) prod.collapse [symmetric]]
  show ?thesis by (simp add: two_clients_def um_keys_def)
qed

end
