(* ===== verification/Server_Task.thy ===== *)
theory Server_Task
  imports TcpServer
begin

text \<open>
  The thread of \<open>TcpServer\<close>: \<open>findMaxFd\<close>, the callbacks' publication and \<open>serverTask\<close>, with
  the protocol its events follow, the contract of the callback object, and the interference of
  other threads.
\<close>

section \<open>Other threads\<close>

definition run_command ::
  "platform \<Rightarrow> 'w SocketImpl \<Rightarrow> command \<Rightarrow> (('w, 'a) TcpServer, unit outcome) state" where
  "run_command p core cmd =
     (case cmd of
        DeleteClient k \<Rightarrow> obind (deleteClient core k) (\<lambda>_. State_Monad.return (Inr ()))
      | SendBcast msg sz \<Rightarrow> do { sendBcast p core msg sz; State_Monad.return (Inr ()) }
      | SendClientMessage k msg sz \<Rightarrow>
          obind (sendClientMessage p core k msg sz) (\<lambda>_. State_Monad.return (Inr ())))"

fun run_commands ::
  "platform \<Rightarrow> 'w SocketImpl \<Rightarrow> command list \<Rightarrow> (('w, 'a) TcpServer, unit outcome) state" where
  "run_commands p core [] = State_Monad.return (Inr ())"
| "run_commands p core (cmd # cmds) = obind (run_command p core cmd) (\<lambda>_. run_commands p core cmds)"

text \<open>What other threads do at this point of the server thread.\<close>

definition interleave :: "platform \<Rightarrow> 'w SocketImpl \<Rightarrow> (('w, 'a) TcpServer, unit outcome) state" where
  "interleave p core = do {
     s \<leftarrow> State_Monad.get;
     (case others s of
        [] \<Rightarrow> State_Monad.return (Inr ())
      | cmds # rest \<Rightarrow> do {
          State_Monad.set (s\<lparr>others := rest\<rparr>);
          run_commands p core cmds
        })
   }"

section \<open>Callbacks\<close>

text \<open>The interface of the callback object (\<open>CallbackImpl\<close>).\<close>

record 's server_callback =
  onClientConnect :: "int \<Rightarrow> ('s, unit outcome) state"
  onReceiveClientData :: "int \<Rightarrow> bytes \<Rightarrow> ('s, unit outcome) state"
  onClientDisconnect :: "int \<Rightarrow> SocketRet \<Rightarrow> ('s, unit outcome) state"

definition publishClientMsg ::
  "('w, 'a) TcpServer server_callback \<Rightarrow> int \<Rightarrow> bytes \<Rightarrow> (('w, 'a) TcpServer, unit outcome) state" where
  "publishClientMsg cb client msg = do {
     log_event (EvClientData client msg);
     onReceiveClientData cb client msg
   }"

definition publishDisconnected ::
  "platform \<Rightarrow> ('w, 'a) TcpServer server_callback \<Rightarrow> int \<Rightarrow> (('w, 'a) TcpServer, unit outcome) state" where
  "publishDisconnected p cb client = (
     let ret = SocketRet_default\<lparr>m_msg := format_msg p (''Client '' @ dec_int client @ '' disconnected'')
                                  (''Client '' @ dec_int client @ '' disconnected'')\<rparr>
     in do {
       log_event (EvClientDisconnect client ret);
       onClientDisconnect cb client ret
     })"

definition publishClientConnect ::
  "('w, 'a) TcpServer server_callback \<Rightarrow> int \<Rightarrow> (('w, 'a) TcpServer, unit outcome) state" where
  "publishClientConnect cb client = do {
     log_event (EvClientConnect client);
     onClientConnect cb client
   }"

section \<open>serverTask\<close>

definition findMaxFd :: "platform \<Rightarrow> ('w, 'a) TcpServer \<Rightarrow> int" where
  "findMaxFd p s = foldl (\<lambda>maxfd (_, client). max maxfd (client_sockfd client)) (m_sockfd s)
     (um_range p (m_clients s)) + 1"

text \<open>
  The branch for data on a client socket. \<open>client\<close> points into the map and is used without the
  lock: once another thread has erased the element, the pointer dangles.
\<close>

definition client_gone ::
  "platform \<Rightarrow> 'w SocketImpl \<Rightarrow> ('w, 'a) TcpServer server_callback \<Rightarrow> int \<Rightarrow> ssize_t \<Rightarrow>
   (('w, 'a) TcpServer, unit outcome) state" where
  "client_gone p core cb fd numOfBytesReceived = do {
     s \<leftarrow> State_Monad.get;
     (case um_find (m_clients s) fd of
        None \<Rightarrow> State_Monad.return (Inl (UB ''use of an erased Client''))
      | Some client \<Rightarrow> do {
          State_Monad.update (\<lambda>s. s\<lparr>m_clients :=
            um_assign fd (client\<lparr>m_isConnected := False\<rparr>) (m_clients s)\<rparr>);
          if numOfBytesReceived = 0 then
            obind (interleave p core) (\<lambda>_.
            obind (deleteClient core fd) (\<lambda>_.
            publishDisconnected p cb fd))
          else State_Monad.return (Inr ())
        })
   }"

definition serve_client ::
  "platform \<Rightarrow> 'w SocketImpl \<Rightarrow> ('w, 'a) TcpServer server_callback \<Rightarrow> int \<Rightarrow>
   (('w, 'a) TcpServer, unit outcome) state" where
  "serve_client p core cb fd = do {
     (numOfBytesReceived, data) \<leftarrow> Recv core fd SERVER_MAX_PACKET_SIZE;
     State_Monad.update (\<lambda>s. s\<lparr>task_msg := buf_write data (task_msg s)\<rparr>);
     if sint numOfBytesReceived < 1 then
       obind (interleave p core) (\<lambda>_. client_gone p core cb fd numOfBytesReceived)
     else do {
       s \<leftarrow> State_Monad.get;
       publishClientMsg cb fd (buf_read (unat numOfBytesReceived) (task_msg s))
     }
   }"

text \<open>The branch for everything else, which is meant for the accept socket.\<close>

definition add_client ::
  "platform \<Rightarrow> 'w SocketImpl \<Rightarrow> ('w, 'a) TcpServer server_callback \<Rightarrow> int \<Rightarrow>
   (('w, 'a) TcpServer, unit outcome) state" where
  "add_client p core cb clientfd = do {
     State_Monad.update (\<lambda>s. s\<lparr>m_clients := um_emplace clientfd
       (new_Client (inet_ntop p (sin_addr (m_clientAddress s))) clientfd
          (ntohs p (sin_port (m_clientAddress s)))) (m_clients s)\<rparr>);
     obind (interleave p core) (\<lambda>_. do {
       s \<leftarrow> State_Monad.get;
       (case FD_SET clientfd (m_fds s) of
          None \<Rightarrow> State_Monad.return (Inl (UB ''FD_SET out of range''))
        | Some fds \<Rightarrow> do {
            State_Monad.update (\<lambda>s. s\<lparr>m_fds := fds\<rparr>);
            publishClientConnect cb clientfd
          })
     })
   }"

definition serve_accept ::
  "platform \<Rightarrow> 'w SocketImpl \<Rightarrow> ('w, 'a) TcpServer server_callback \<Rightarrow> int \<Rightarrow>
   (('w, 'a) TcpServer, unit outcome) state" where
  "serve_accept p core cb fd = do {
     s \<leftarrow> State_Monad.get;
     (clientfd, peer) \<leftarrow> Accept core fd (m_clientAddress s);
     State_Monad.update (\<lambda>s. s\<lparr>m_clientAddress := peer\<rparr>);
     if clientfd = -1 then State_Monad.return (Inr ())
     else obind (interleave p core) (\<lambda>_. add_client p core cb clientfd)
   }"

text \<open>The body of the loop over the descriptors.\<close>

definition serve_fd ::
  "platform \<Rightarrow> 'w SocketImpl \<Rightarrow> ('w, 'a) TcpServer server_callback \<Rightarrow> fd_set \<Rightarrow> int \<Rightarrow>
   (('w, 'a) TcpServer, unit outcome) state" where
  "serve_fd p core cb read_set fd =
     (case FD_ISSET fd read_set of
        None \<Rightarrow> State_Monad.return (Inl (UB ''FD_ISSET out of range''))
      | Some isset \<Rightarrow>
          if isset then obind (interleave p core) (\<lambda>_. do {
            s \<leftarrow> State_Monad.get;
            if um_find (m_clients s) fd \<noteq> None then obind (interleave p core) (\<lambda>_. serve_client p core cb fd)
            else serve_accept p core cb fd
          })
          else State_Monad.return (Inr ()))"

fun serve_fds ::
  "platform \<Rightarrow> 'w SocketImpl \<Rightarrow> ('w, 'a) TcpServer server_callback \<Rightarrow> fd_set \<Rightarrow> int list \<Rightarrow>
   (('w, 'a) TcpServer, unit outcome) state" where
  "serve_fds p core cb read_set [] = State_Monad.return (Inr ())"
| "serve_fds p core cb read_set (fd # fds) =
     obind (serve_fd p core cb read_set fd) (\<lambda>_. serve_fds p core cb read_set fds)"

text \<open>The body of the outer loop.\<close>

definition select_and_serve ::
  "platform \<Rightarrow> 'w SocketImpl \<Rightarrow> ('w, 'a) TcpServer server_callback \<Rightarrow>
   (('w, 'a) TcpServer, bool outcome) state" where
  "select_and_serve p core cb = do {
     s \<leftarrow> State_Monad.get;
     let maxfds = findMaxFd p s;
     (selectRet, read_set) \<leftarrow> Select core maxfds (m_fds s) (0, USEC_DELAY);
     if selectRet \<le> 0 then State_Monad.return (Inr True)
     else obind (serve_fds p core cb read_set [0..maxfds - 1]) (\<lambda>_. State_Monad.return (Inr True))
   }"

definition serverTask_pass ::
  "platform \<Rightarrow> 'w SocketImpl \<Rightarrow> ('w, 'a) TcpServer server_callback \<Rightarrow>
   (('w, 'a) TcpServer, bool outcome) state" where
  "serverTask_pass p core cb = obind (interleave p core) (\<lambda>_. select_and_serve p core cb)"

fun serverTask ::
  "nat \<Rightarrow> platform \<Rightarrow> 'w SocketImpl \<Rightarrow> ('w, 'a) TcpServer server_callback \<Rightarrow>
   (('w, 'a) TcpServer, unit outcome option) state" where
  "serverTask 0 p core cb = State_Monad.return None"
| "serverTask (Suc fuel) p core cb = do {
     stop \<leftarrow> load_stop;
     if stop then State_Monad.return (Some (Inr ()))
     else do {
       r \<leftarrow> serverTask_pass p core cb;
       (case r of
          Inl a \<Rightarrow> State_Monad.return (Some (Inl a))
        | Inr goes_on \<Rightarrow>
            if goes_on then serverTask fuel p core cb
            else State_Monad.return (Some (Inr ())))
     }
   }"

section \<open>The protocol of the server's events\<close>

fun server_loud :: "event \<Rightarrow> bool" where
  "server_loud (EvRecv _ _ _ _) = True"
| "server_loud (EvAccept _ _ _) = True"
| "server_loud (EvClose _ _) = True"
| "server_loud (EvClientConnect _) = True"
| "server_loud (EvClientData _ _) = True"
| "server_loud (EvClientDisconnect _ _) = True"
| "server_loud _ = False"

text \<open>
  \<open>session L es M\<close>: with the clients \<open>L\<close> connected, the events \<open>es\<close> are a sequence of complete
  exchanges that leaves the clients \<open>M\<close> connected. An accepted connection is announced at once;
  \<open>recv\<close> is only called on connected clients; what it returns is handed on unchanged; the end of
  a stream closes the descriptor and is announced once; a failed \<open>recv\<close> is not announced. A
  \<open>close\<close> on its own is a \<open>deleteClient\<close> of the application, which is not announced either.
\<close>

inductive session :: "int set \<Rightarrow> event list \<Rightarrow> int set \<Rightarrow> bool" where
  session_nil: "session L [] L"
| session_data: "k \<in> L \<Longrightarrow> 1 \<le> sint n \<Longrightarrow> session L es M \<Longrightarrow>
     session L (EvRecv k len n data # EvClientData k data # es) M"
| session_closed: "k \<in> L \<Longrightarrow> session (L - {k}) es M \<Longrightarrow>
     session L (EvRecv k len 0 data # EvClose k r # EvClientDisconnect k ret # es) M"
| session_error: "k \<in> L \<Longrightarrow> sint n < 0 \<Longrightarrow> session L es M \<Longrightarrow> session L (EvRecv k len n data # es) M"
| session_accept: "fd \<notin> L \<Longrightarrow> fd \<noteq> INVALID_SOCKET \<Longrightarrow> session (insert fd L) es M \<Longrightarrow>
     session L (EvAccept l fd peer # EvClientConnect fd # es) M"
| session_refused: "session L es M \<Longrightarrow> session L (EvAccept l INVALID_SOCKET peer # es) M"
| session_dropped: "k \<in> L \<Longrightarrow> session (L - {k}) es M \<Longrightarrow> session L (EvClose k r # es) M"

lemma session_append: "session L es M \<Longrightarrow> session M fs N \<Longrightarrow> session L (es @ fs) N"
  by (induction rule: session.induct) (auto intro: session.intros)

lemma quiet_not_server_loud: "list_all quiet es \<Longrightarrow> filter server_loud es = []"
proof (induction es)
  case (Cons e es)
  then show ?case by (cases e) auto
qed simp

section \<open>Serving\<close>

fun is_delete :: "command \<Rightarrow> bool" where
  "is_delete (DeleteClient _) = True"
| "is_delete _ = False"

text \<open>Other threads may send, but do not delete clients while the server thread runs.\<close>

definition harmless :: "('w, 'a) TcpServer \<Rightarrow> bool" where
  "harmless s = list_all (list_all (\<lambda>c. \<not> is_delete c)) (others s)"

definition balanced :: "int set \<Rightarrow> ('w, 'a) TcpServer \<Rightarrow> bool" where
  "balanced B s \<longleftrightarrow> server_inv s \<and> owned (trace s) = B \<union> server_holds s \<and> B \<inter> server_holds s = {}"

text \<open>
  What every part of the server thread does: from a state that satisfies the invariant to one that
  does, by events that follow the protocol. \<open>serves\<close> is reflexive and transitive, so it is shown
  for each part once and holds for the whole thread.
\<close>

definition serves :: "int set \<Rightarrow> ('w, 'a) TcpServer \<Rightarrow> ('w, 'a) TcpServer \<Rightarrow> bool" where
  "serves B s t \<longleftrightarrow> (harmless s \<longrightarrow>
     (\<exists>es. trace t = trace s @ es \<and> m_sockfd t = m_sockfd s \<and> m_thread t = m_thread s \<and> harmless t \<and>
       (posix_trace (trace t) \<longrightarrow> balanced B s \<longrightarrow>
          balanced B t \<and> session (client_keys s) (filter server_loud es) (client_keys t))))"

lemma serves_refl: "serves B s s"
  by (auto simp: serves_def intro: session_nil)

lemma serves_trans: "serves B s t \<Longrightarrow> serves B t u \<Longrightarrow> serves B s u"
  unfolding serves_def
  by (auto simp: posix_trace_append posix_from_append intro: session_append)

lemma serves_loads: "serves B s (s\<lparr>m_stop := b, stop_stores := bs\<rparr>)"
  by (auto simp: serves_def harmless_def balanced_def server_inv_def table_ok_def server_holds_def
      intro: session_nil)

lemma balanced_frame:
  assumes "balanced B s" and "m_sockfd t = m_sockfd s" and "m_fds t = m_fds s"
    and "um_keys (m_clients t) = um_keys (m_clients s)" and "table_ok t" and "owned (trace t) = owned (trace s)"
  shows "balanced B t"
  using assms by (simp add: balanced_def server_inv_def server_holds_def)

lemma only_sends_serves:
  fixes s t :: "('w, 'a) TcpServer"
  assumes "only_sends s t"
  shows "serves B s t"
proof -
  obtain w es where t: "t = s\<lparr>world := w, trace := trace s @ es\<rparr>" and es: "list_all quiet es"
    using assms unfolding only_sends_def by blast
  then have "balanced B s \<Longrightarrow> balanced B t"
    using quiet_owned [OF es] by (auto simp: balanced_def server_inv_def table_ok_def server_holds_def)
  with t show ?thesis
    by (auto simp: serves_def harmless_def quiet_not_server_loud [OF es] intro: session_nil)
qed

text \<open>Removing one client.\<close>

lemma balanced_erase:
  assumes "balanced B s" and "k \<in> client_keys s" and "m_clients t = um_erase k (m_clients s)"
    and "FD_CLR k (m_fds s) = Some (m_fds t)" and "m_sockfd t = m_sockfd s"
    and "owned (trace t) = owned (trace s) - {k}"
  shows "balanced B t" and "client_keys t = client_keys s - {k}"
proof -
  have inv: "server_inv s" "k \<noteq> m_sockfd s" "k \<noteq> INVALID_SOCKET"
    using assms(1,2) by (auto simp: balanced_def server_inv_def table_ok_def)
  note erased = server_inv_erase [OF inv(1) assms(2-5)]
  then show "client_keys t = client_keys s - {k}" by simp
  have "server_holds t = server_holds s - {k}"
    using inv erased assms(5) by (auto simp: server_holds_def)
  with erased(1) show "balanced B t"
    using assms(1,2,6) inv(3) unfolding balanced_def server_holds_def by auto
qed

lemma balanced_client:
  assumes "balanced B s" and "um_find (m_clients s) k = Some c"
  shows "client_sockfd c = k" and "k \<in> client_keys s" and "FD_CLR k (m_fds s) \<noteq> None" and "k \<noteq> INVALID_SOCKET"
proof -
  have inv: "um_inv (m_clients s)" "ct.all_entries (\<lambda>k c. client_sockfd c = k) (m_clients s)"
    "fds_of (m_fds s) = insert (m_sockfd s) (client_keys s)" "INVALID_SOCKET \<notin> client_keys s"
    using assms(1) by (auto simp: balanced_def server_inv_def table_ok_def)
  show "client_sockfd c = k"
    using ct.all_entriesD [OF inv(2) assms(2)] .
  show mem: "k \<in> client_keys s"
    using ct.find_in_keys [OF inv(1), of k] assms(2) by simp
  then show "k \<noteq> INVALID_SOCKET"
    using inv(4) by blast
  from mem inv(3) have "fd_in_range k"
    using fds_of_range [of k "m_fds s"] by simp
  then show "FD_CLR k (m_fds s) \<noteq> None"
    by (simp add: FD_CLR_def)
qed

lemma deleteClient_serves: "wp (deleteClient core k) (\<lambda>_ t. serves B s t) s"
proof (cases "um_find (m_clients s) k")
  case None
  then show ?thesis by (simp add: wp_simps serves_refl)
next
  case (Some c)
  have ub: "serves B s t" if "trace t = trace s @ [EvClose (client_sockfd c) r]" "m_sockfd t = m_sockfd s"
    "m_thread t = m_thread s" "others t = others s" "FD_CLR (client_sockfd c) (m_fds s) = None" for t r
    using that balanced_client [OF _ Some] by (force simp: serves_def harmless_def)
  have del: "serves B s t" if t: "trace t = trace s @ [EvClose (client_sockfd c) r]" "m_sockfd t = m_sockfd s"
    "m_thread t = m_thread s" "others t = others s" "FD_CLR (client_sockfd c) (m_fds s) = Some (m_fds t)"
    "m_clients t = um_erase k (m_clients s)" for t r
  proof -
    have "balanced B t \<and> session (client_keys s) [EvClose (client_sockfd c) r] (client_keys t)" if "balanced B s"
    proof -
      note c = balanced_client [OF that Some]
      have "balanced B t" and keys: "client_keys t = client_keys s - {k}"
        using balanced_erase [OF that c(2) t(6) _ t(2)] t c by (auto simp: c(1))
      then show ?thesis
        using session_dropped [OF c(2) session_nil] c(1) by simp
    qed
    with t show ?thesis by (simp add: serves_def harmless_def)
  qed
  show ?thesis
  proof (cases "FD_CLR (client_sockfd c) (m_fds s)")
    case None
    then show ?thesis by (auto simp: wp_simps Some Let_def FD_CLR_def intro!: ub)
  next
    case (Some fds)
    then show ?thesis
      using \<open>um_find (m_clients s) k = Some c\<close> by (auto simp: wp_simps Let_def intro!: del)
  qed
qed

text \<open>
  The contract of the callback object: whatever it does to the server, it does by the public
  operations \<open>deleteClient\<close>, \<open>sendBcast\<close> and \<open>sendClientMessage\<close>, beside changing its own
  state.
\<close>

inductive app_step ::
  "platform \<Rightarrow> 'w SocketImpl \<Rightarrow> ('w, 'a) TcpServer \<Rightarrow> ('w, 'a) TcpServer \<Rightarrow> bool"
  for p core where
  app_own: "app_step p core s (s\<lparr>m_callback := a\<rparr>)"
| app_delete: "run_state (deleteClient core k) s = (d, s') \<Longrightarrow> app_step p core s s'"
| app_bcast: "run_state (sendBcast p core msg sz) s = (ret, s') \<Longrightarrow> app_step p core s s'"
| app_send: "run_state (sendClientMessage p core k msg sz) s = (res, s') \<Longrightarrow> app_step p core s s'"

lemma own_serves: "serves B s (s\<lparr>m_callback := a\<rparr>)"
  by (auto simp: serves_def harmless_def balanced_def server_inv_def table_ok_def server_holds_def
      intro: session_nil)

lemma app_step_serves: "app_step p core s t \<Longrightarrow> serves B s t"
proof (induction rule: app_step.induct)
  case (app_own s a)
  show ?case by (rule own_serves)
next
  case (app_delete k s d s')
  show ?case by (rule wpD [OF deleteClient_serves app_delete])
next
  case (app_bcast msg sz s ret s')
  show ?case by (rule only_sends_serves [OF wpD [OF sendBcast_sends app_bcast]])
next
  case (app_send k msg sz s res s')
  show ?case by (rule only_sends_serves) (use wpD [OF sendClientMessage_sends app_send] in blast)
qed

lemma app_steps_serve: "(app_step p core)\<^sup>*\<^sup>* s t \<Longrightarrow> serves B s t"
  by (induction rule: rtranclp_induct) (auto intro: serves_refl serves_trans app_step_serves)

text \<open>Harmless interference is sending only.\<close>

lemma harmless_command: "\<not> is_delete cmd \<Longrightarrow> wp (run_command p core cmd) (\<lambda>r t. r = Inr () \<and> only_sends s t) s"
  by (cases cmd)
    (auto simp: run_command_def intro!: wp_mono [OF sendBcast_sends] wp_mono [OF sendClientMessage_sends])

lemma harmless_commands:
  "list_all (\<lambda>c. \<not> is_delete c) cmds \<Longrightarrow> wp (run_commands p core cmds) (\<lambda>r t. r = Inr () \<and> only_sends s t) s"
proof (induction cmds arbitrary: s)
  case (Cons cmd cmds)
  then have "wp (run_commands p core cmds) (\<lambda>r u. r = Inr () \<and> only_sends s u) t" if "only_sends s t" for t
    using that by (intro wp_mono [OF Cons.IH]) (auto intro: only_sends_trans)
  then show ?case
    using Cons.prems by (auto intro!: wp_mono [OF harmless_command])
qed (simp add: only_sends_refl)

definition calm :: "('w, 'a) TcpServer \<Rightarrow> ('w, 'a) TcpServer \<Rightarrow> bool" where
  "calm s t \<longleftrightarrow> (\<exists>w es rest. t = s\<lparr>others := rest, world := w, trace := trace s @ es\<rparr> \<and> list_all quiet es) \<and> harmless t"

lemma wp_interleave:
  assumes "harmless s" and "\<And>t. calm s t \<Longrightarrow> Q (Inr ()) t"
  shows "wp (interleave p core) Q s"
proof (cases "others s")
  case Nil
  have "calm s s"
    using assms(1) unfolding calm_def
    by (intro conjI exI [of _ "world s"] exI [of _ "[]"] exI [of _ "others s"]) simp_all
  with Nil show ?thesis by (simp add: interleave_def assms(2))
next
  case (Cons cmds rest)
  let ?s = "s\<lparr>others := rest\<rparr>"
  have "calm s t" if sends: "only_sends ?s t" for t
  proof -
    obtain w es where "t = s\<lparr>others := rest, world := w, trace := trace s @ es\<rparr>" "list_all quiet es"
      using sends unfolding only_sends_def by auto
    with assms(1) Cons show ?thesis
      unfolding calm_def by (intro conjI exI [of _ w] exI [of _ es] exI [of _ rest]) (simp_all add: harmless_def)
  qed
  then have "wp (run_commands p core cmds) Q ?s"
    using assms Cons by (intro wp_mono [OF harmless_commands]) (auto simp: harmless_def)
  with Cons show ?thesis by (simp add: interleave_def)
qed

section \<open>The exchanges of the server thread\<close>

lemma calmD:
  assumes "calm s t"
  shows "m_clients t = m_clients s" and "m_fds t = m_fds s" and "m_sockfd t = m_sockfd s"
    and "m_thread t = m_thread s" and "harmless t" and "task_msg t = task_msg s"
    and "m_clientAddress t = m_clientAddress s" and "stop_stores t = stop_stores s"
    and "\<exists>es. trace t = trace s @ es \<and> filter server_loud es = [] \<and> owned (trace t) = owned (trace s)"
  using assms quiet_owned quiet_not_server_loud by (auto simp: calm_def)

lemma servesI:
  assumes "trace t = trace s @ es" and "m_sockfd t = m_sockfd s" and "m_thread t = m_thread s"
    and "harmless t" and "posix_trace (trace t) \<Longrightarrow> balanced B s \<Longrightarrow>
      balanced B t \<and> session (client_keys s) (filter server_loud es) (client_keys t)"
  shows "serves B s t"
  using assms by (auto simp: serves_def)

lemma table_ok_cong:
  "m_clients t = m_clients s \<Longrightarrow> m_sockfd t = m_sockfd s \<Longrightarrow> table_ok t = table_ok s"
  by (simp add: table_ok_def)

lemma balanced_same:
  assumes "balanced B s" and "m_clients t = m_clients s" and "m_sockfd t = m_sockfd s"
    and "m_fds t = m_fds s" and "owned (trace t) = owned (trace s)"
  shows "balanced B t"
  using assms balanced_frame [OF assms(1,3,4)] table_ok_cong [OF assms(2,3)]
  by (auto simp: balanced_def server_inv_def)

lemma calm_serves: "calm s t \<Longrightarrow> serves B s t"
  using calmD(9) [of s t] balanced_same calmD(1-5) [of s t]
  by (auto intro!: servesI session_nil)

lemma data_serves:
  assumes "um_find (m_clients s) fd \<noteq> None" and "1 \<le> sint n" and "harmless t"
    and "trace t = trace s @ [EvRecv fd len n data, EvClientData fd (buf_read (unat n) (buf_write data buf))]"
    and "m_clients t = m_clients s" and "m_sockfd t = m_sockfd s" and "m_fds t = m_fds s"
    and "m_thread t = m_thread s"
  shows "serves B s t"
proof (rule servesI [OF assms(4,6,8,3)])
  let ?d = "buf_read (unat n) (buf_write data buf)"
  assume posix: "posix_trace (trace t)" and bal: "balanced B s"
  from assms(1) obtain c where "um_find (m_clients s) fd = Some c" by auto
  note c = balanced_client [OF bal this]
  have "?d = data"
    using posix assms(2) by (auto simp: assms(4) posix_trace_append intro!: buf_read_write)
  then have "session (client_keys s) [EvRecv fd len n data, EvClientData fd ?d] (client_keys s)"
    using session_data [OF c(2) assms(2) session_nil] by simp
  moreover have "balanced B t"
    by (rule balanced_same [OF bal assms(5-7)]) (simp add: assms(4) owned_append)
  ultimately show "balanced B t \<and> session (client_keys s)
      (filter server_loud [EvRecv fd len n data, EvClientData fd ?d]) (client_keys t)"
    using assms(5) by simp
qed

lemma balanced_assign:
  assumes "balanced B s" and "um_find (m_clients s) fd = Some c" and "client_sockfd c' = client_sockfd c"
    and "m_clients t = um_assign fd c' (m_clients s)" and "m_sockfd t = m_sockfd s"
    and "m_fds t = m_fds s" and "owned (trace t) = owned (trace s)"
  shows "balanced B t"
proof (rule balanced_frame [OF assms(1,5,6) _ _ assms(7)])
  have "table_ok s" using assms(1) by (simp add: balanced_def server_inv_def)
  then show "table_ok t"
    using assms balanced_client(1) [OF assms(1,2)]
    by (simp add: table_ok_def ct.inv_assign ct.all_entries_assign)
qed (use assms in simp)

lemma error_serves:
  assumes "um_find (m_clients s) fd = Some c" and "sint n < 1" and "n \<noteq> 0" and "harmless t"
    and "trace t = trace s @ EvRecv fd len n data # es" and "filter server_loud es = []"
    and "owned (trace t) = owned (trace s)" and "client_sockfd c' = client_sockfd c"
    and "m_clients t = um_assign fd c' (m_clients s)" and "m_sockfd t = m_sockfd s"
    and "m_fds t = m_fds s" and "m_thread t = m_thread s"
  shows "serves B s t"
proof (rule servesI [OF assms(5,10,12,4)])
  assume bal: "balanced B s"
  have "sint n \<noteq> 0" using assms(3) by (metis signed_0 signed_word_eqI)
  then have "session (client_keys s) (EvRecv fd len n data # []) (client_keys s)"
    using assms(2) balanced_client(2) [OF bal assms(1)] by (intro session_error session_nil) auto
  then show "balanced B t \<and> session (client_keys s)
      (filter server_loud (EvRecv fd len n data # es)) (client_keys t)"
    using balanced_assign [OF bal assms(1,8,9,10,11,7)] assms(6,9) by simp
qed

lemma closed_serves:
  assumes "um_find (m_clients s) fd = Some c" and "harmless t"
    and "trace t = trace s @ EvRecv fd len 0 data # es @ [EvClose (client_sockfd c) r, EvClientDisconnect fd ret]"
    and "filter server_loud es = []" and "owned (trace t) = owned (trace s) - {client_sockfd c}"
    and "client_sockfd c' = client_sockfd c" and "m_clients t = um_erase fd (um_assign fd c' (m_clients s))"
    and "m_sockfd t = m_sockfd s" and "FD_CLR (client_sockfd c) (m_fds s) = Some (m_fds t)"
    and "m_thread t = m_thread s"
  shows "serves B s t"
proof (rule servesI [OF assms(3,8,10,2)])
  assume bal: "balanced B s"
  let ?u = "s\<lparr>m_clients := um_assign fd c' (m_clients s)\<rparr>"
  note c = balanced_client [OF bal assms(1)]
  have u: "balanced B ?u"
    by (rule balanced_assign [OF bal assms(1,6)]) simp_all
  have "balanced B t" and "client_keys t = client_keys s - {fd}"
    using balanced_erase [OF u, of fd t] assms c by simp_all
  moreover from this have "session (client_keys s)
      [EvRecv fd len 0 data, EvClose fd r, EvClientDisconnect fd ret] (client_keys t)"
    using session_closed [OF c(2) session_nil] by simp
  ultimately show "balanced B t \<and> session (client_keys s) (filter server_loud
      (EvRecv fd len 0 data # es @ [EvClose (client_sockfd c) r, EvClientDisconnect fd ret])) (client_keys t)"
    using c(1) assms(4) by simp
qed

lemma accept_serves:
  assumes "clientfd \<noteq> INVALID_SOCKET" and "harmless t"
    and "trace t = trace s @ EvAccept l clientfd peer # es @ [EvClientConnect clientfd]"
    and "filter server_loud es = []" and "owned (trace t) = insert clientfd (owned (trace s))"
    and "m_clients t = um_emplace clientfd c (m_clients s)" and "client_sockfd c = clientfd"
    and "m_sockfd t = m_sockfd s" and "FD_SET clientfd (m_fds s) = Some (m_fds t)"
    and "m_thread t = m_thread s"
  shows "serves B s t"
proof (rule servesI [OF assms(3,8,10,2)])
  assume "posix_trace (trace t)" and bal: "balanced B s"
  then have new: "clientfd \<notin> owned (trace s)"
    using posix_trace_mem [of "trace s"] assms(1,3) by fastforce
  have inv: "table_ok s" "m_sockfd s \<noteq> INVALID_SOCKET" "fds_of (m_fds s) = insert (m_sockfd s) (client_keys s)"
    "owned (trace s) = B \<union> server_holds s" "B \<inter> server_holds s = {}"
    using bal by (simp_all add: balanced_def server_inv_def)
  then have fresh: "clientfd \<notin> client_keys s" "clientfd \<noteq> m_sockfd s" "clientfd \<notin> B"
    using new assms(1) by (auto simp: server_holds_def)
  have keys: "client_keys t = insert clientfd (client_keys s)"
    using inv(1) assms(6) by (simp add: table_ok_def ct.keys_emplace)
  have "table_ok t"
    using inv(1) keys fresh assms(1,6-8)
    by (auto simp: table_ok_def ct.inv_emplace ct.all_entries_emplace)
  then have "server_inv t"
    using inv keys fds_of_SET [OF assms(9)] assms(8) by (auto simp: server_inv_def)
  moreover have "server_holds t = insert clientfd (server_holds s)"
    using keys assms(1,8) by (auto simp: server_holds_def)
  ultimately have "balanced B t"
    using inv fresh assms(5) by (auto simp: balanced_def)
  then show "balanced B t \<and> session (client_keys s) (filter server_loud
      (EvAccept l clientfd peer # es @ [EvClientConnect clientfd])) (client_keys t)"
    using session_accept [OF fresh(1) assms(1) session_nil] keys assms(4) by simp
qed

locale server_app =
  fixes p :: platform and core :: "'w SocketImpl" and cb :: "('w, 'a) TcpServer server_callback"
  assumes connect_app: "run_state (onClientConnect cb k) s = (r, s') \<Longrightarrow> (app_step p core)\<^sup>*\<^sup>* s s'"
    and data_app: "run_state (onReceiveClientData cb k data) s = (r, s') \<Longrightarrow> (app_step p core)\<^sup>*\<^sup>* s s'"
    and disconnect_app: "run_state (onClientDisconnect cb k ret) s = (r, s') \<Longrightarrow> (app_step p core)\<^sup>*\<^sup>* s s'"
begin

text \<open>A callback made at the end of an exchange continues to serve.\<close>

lemma wp_callbacks:
  assumes "\<And>r t. serves B s t \<Longrightarrow> Q r t"
  shows "wp (onClientConnect cb k) Q s" and "wp (onReceiveClientData cb k data) Q s"
    and "wp (onClientDisconnect cb k ret) Q s"
  by (rule wpI; blast intro: assms app_steps_serve connect_app data_app disconnect_app)+

lemma receive_data:
  assumes "harmless s" and "um_find (m_clients s) fd \<noteq> None" and "1 \<le> sint n"
    and "t = s\<lparr>world := w, trace := trace s @ [EvRecv fd len n data], task_msg := buf_write data (task_msg s)\<rparr>"
  shows "wp (publishClientMsg cb fd (buf_read (unat n) (task_msg t))) (\<lambda>_ u. serves B s u) t"
proof -
  let ?t = "t\<lparr>trace := trace t @ [EvClientData fd (buf_read (unat n) (task_msg t))]\<rparr>"
  have "serves B s ?t"
    by (rule data_serves [OF assms(2,3)]) (use assms in \<open>simp_all add: harmless_def\<close>)
  then show ?thesis
    by (auto simp: publishClientMsg_def wp_simps intro!: wp_callbacks elim: serves_trans)
qed

lemma receive_closed:
  assumes c: "um_find (m_clients s) fd = Some c" and t: "calm t u" "m_clients t = um_assign fd c' (m_clients s)"
    "client_sockfd c' = client_sockfd c" "m_sockfd t = m_sockfd s" "m_fds t = m_fds s" "m_thread t = m_thread s"
    and tr: "trace t = trace s @ EvRecv fd len 0 data # es" "filter server_loud es = []"
    "owned (trace t) = owned (trace s)"
  shows "wp (obind (deleteClient core fd) (\<lambda>_. publishDisconnected p cb fd))
     (\<lambda>r v. (\<forall>a. r \<noteq> Inl a) \<longrightarrow> serves B s v) u"
proof -
  note calm = calmD [OF t(1)]
  then obtain es' where es': "trace u = trace t @ es'" "filter server_loud es' = []" "owned (trace u) = owned (trace t)"
    by blast
  have found: "um_find (m_clients u) fd = Some c'"
    using calm(1) t(2) c by (simp add: um_find_assign)
  have "serves B s v" if "trace v = trace u @ [EvClose (client_sockfd c) r, EvClientDisconnect fd ret]"
    "m_clients v = um_erase fd (m_clients u)" "FD_CLR (client_sockfd c) (m_fds u) = Some (m_fds v)"
    "m_sockfd v = m_sockfd u" "m_thread v = m_thread u" "others v = others u" for v r ret
    using that t tr es' calm
    by (intro closed_serves [OF c, of v len data "es @ es'" r ret c']) (simp_all add: harmless_def owned_append)
  then show ?thesis
    by (auto simp: wp_simps found t(3) Let_def publishDisconnected_def split: option.split
        intro!: wp_callbacks elim!: serves_trans [rotated])
qed

abbreviation serves_post :: "int set \<Rightarrow> ('w, 'a) TcpServer \<Rightarrow> 'r outcome \<Rightarrow> ('w, 'a) TcpServer \<Rightarrow> bool" where
  "serves_post B s r t \<equiv> (\<forall>a. r \<noteq> Inl a) \<longrightarrow> serves B s t"

lemma client_gone_serves:
  assumes "um_find (m_clients s) fd = Some c" and "sint n < 1" and "calm t u"
    and t: "t = s\<lparr>world := w, trace := trace s @ [EvRecv fd len n data], task_msg := msg\<rparr>"
  shows "wp (client_gone p core cb fd n) (serves_post B s) u"
proof -
  note calm = calmD [OF assms(3)]
  from calm(9) obtain es where es: "trace u = trace t @ es" "filter server_loud es = []" "owned (trace u) = owned (trace t)"
    by blast
  let ?v = "u\<lparr>m_clients := um_assign fd (c\<lparr>m_isConnected := False\<rparr>) (m_clients u)\<rparr>"
  have v: "trace ?v = trace s @ EvRecv fd len n data # es" "owned (trace ?v) = owned (trace s)"
    "m_clients ?v = um_assign fd (c\<lparr>m_isConnected := False\<rparr>) (m_clients s)"
    "m_sockfd ?v = m_sockfd s" "m_fds ?v = m_fds s" "m_thread ?v = m_thread s" "harmless ?v"
    using calm es t by (simp_all add: owned_append harmless_def)
  have c: "client_sockfd (c\<lparr>m_isConnected := False\<rparr>) = client_sockfd c" by simp
  have u: "um_find (m_clients u) fd = Some c" using calm(1) t assms(1) by simp
  show ?thesis
  proof (cases "n = 0")
    case True
    with v(1) have tr: "trace ?v = trace s @ EvRecv fd len 0 data # es" by simp
    from True u show ?thesis
      by (auto intro!: wp_interleave [OF v(7)] receive_closed [OF assms(1) _ v(3) c v(4-6) tr es(2) v(2)]
          simp del: wp_obind simp: client_gone_def wp_obind [of "interleave p core"])
  next
    case False
    then have "serves B s ?v"
      using error_serves [OF assms(1,2) False v(7,1) es(2) v(2) c v(3,4,5,6)] by simp
    with False u show ?thesis by (simp add: client_gone_def)
  qed
qed

lemma serve_client_serves:
  assumes "harmless s" and "um_find (m_clients s) fd = Some c"
  shows "wp (serve_client p core cb fd) (serves_post B s) s"
proof -
  let ?t = "\<lambda>w n data. s\<lparr>world := w, trace := trace s @ [EvRecv fd SERVER_MAX_PACKET_SIZE n data],
    task_msg := buf_write data (task_msg s)\<rparr>"
  have t: "harmless (?t w n data)" for w n data
    using assms(1) by (simp add: harmless_def)
  have "wp (obind (interleave p core) (\<lambda>_. client_gone p core cb fd n)) (serves_post B s) (?t w n data)"
    if "sint n < 1" for w n data
    unfolding wp_obind by (rule wp_interleave [OF t]) (simp add: client_gone_serves [OF assms(2) that _ refl])
  moreover have "wp (publishClientMsg cb fd (buf_read (unat n) (task_msg (?t w n data)))) (serves_post B s) (?t w n data)"
    if "\<not> sint n < 1" for w n data
    by (rule wp_mono [OF receive_data [OF assms(1) _ _ refl]]) (use assms(2) that in auto)
  ultimately show ?thesis
    unfolding serve_client_def by (simp add: wp_simps call_defs del: wp_obind)
qed

text \<open>Interference before an exchange does not hurt it.\<close>

lemma after_interleave:
  assumes "harmless s" and "\<And>t. calm s t \<Longrightarrow> wp m (serves_post B t) t"
  shows "wp (obind (interleave p core) (\<lambda>_. m)) (serves_post B s) s"
proof -
  have "wp m (serves_post B s) t" if "calm s t" for t
    using assms(2) [OF that] by (rule wp_mono) (use serves_trans [OF calm_serves [OF that]] in blast)
  then show ?thesis
    by (simp add: wp_interleave [OF assms(1)])
qed

lemma accepted_serves:
  assumes t: "calm t1 t2" "calm t3 t4" "clientfd \<noteq> -1" "client_sockfd c = clientfd"
    "trace t1 = trace s @ [EvAccept fd clientfd peer]" "m_clients t1 = m_clients s" "m_sockfd t1 = m_sockfd s"
    "m_fds t1 = m_fds s" "m_thread t1 = m_thread s"
    "t3 = t2\<lparr>m_clients := um_emplace clientfd c (m_clients t2)\<rparr>"
    "FD_SET clientfd (m_fds t4) = Some fds" "t = t4\<lparr>m_fds := fds, trace := trace t4 @ [EvClientConnect clientfd]\<rparr>"
  shows "serves B s t"
proof -
  obtain es es' where es: "trace t2 = trace t1 @ es" "filter server_loud es = []" "owned (trace t2) = owned (trace t1)"
    "trace t4 = trace t3 @ es'" "filter server_loud es' = []" "owned (trace t4) = owned (trace t3)"
    using calmD(9) [OF t(1)] calmD(9) [OF t(2)] by blast
  have "owned (trace t) = owned (trace t1)" using t(10,12) es(3,6) by simp
  also have "\<dots> = insert clientfd (owned (trace s))" using t(3,5) by (simp add: INVALID_SOCKET_def)
  finally have own: "owned (trace t) = insert clientfd (owned (trace s))" .
  have tr: "trace t = trace s @ EvAccept fd clientfd peer # (es @ es') @ [EvClientConnect clientfd]"
    using t(5,10,12) es(1,4) by simp
  show ?thesis
    by (rule accept_serves [OF _ _ tr _ own])
      (use t es calmD [OF t(1)] calmD [OF t(2)] in \<open>simp_all add: INVALID_SOCKET_def harmless_def\<close>)
qed

lemma serve_accept_serves:
  assumes "harmless s"
  shows "wp (serve_accept p core cb fd) (serves_post B s) s"
proof -
  have refused: "serves B s t" if "trace t = trace s @ [EvAccept fd (-1) peer]" "m_clients t = m_clients s"
    "m_sockfd t = m_sockfd s" "m_fds t = m_fds s" "m_thread t = m_thread s" "others t = others s" for t peer
    using that assms session_refused [OF session_nil]
    by (intro servesI [OF that(1)] conjI) (auto simp: harmless_def INVALID_SOCKET_def owned_append intro: balanced_same)
  have "wp (obind (interleave p core) (\<lambda>_. add_client p core cb clientfd)) (serves_post B s) t"
    if t: "clientfd \<noteq> -1" "trace t = trace s @ [EvAccept fd clientfd peer]" "m_clients t = m_clients s"
      "m_sockfd t = m_sockfd s" "m_fds t = m_fds s" "m_thread t = m_thread s" "others t = others s"
    for t clientfd peer
  proof -
    have "harmless t" using assms t(7) by (simp add: harmless_def)
    moreover have "wp (add_client p core cb clientfd) (serves_post B s) u" if u: "calm t u" for u
    proof -
      let ?u = "u\<lparr>m_clients := um_emplace clientfd (new_Client (inet_ntop p (sin_addr (m_clientAddress u)))
        clientfd (ntohs p (sin_port (m_clientAddress u)))) (m_clients u)\<rparr>"
      have harm: "harmless ?u" using calmD(5) [OF u] by (simp add: harmless_def)
      have acc: "serves B s (v\<lparr>m_fds := fds, trace := trace v @ [EvClientConnect clientfd]\<rparr>)"
        if "calm ?u v" and "FD_SET clientfd (m_fds v) = Some fds" for v fds
        using accepted_serves [OF u that(1) t(1) _ t(2-6) refl that(2) refl] by (simp add: new_Client_def)
      show ?thesis
        unfolding add_client_def
        by (auto simp: publishClientConnect_def wp_simps split: option.split
            intro!: wp_interleave [OF harm] wp_callbacks [where B = B] intro: serves_trans [OF acc])
    qed
    ultimately show ?thesis by (simp add: wp_interleave)
  qed
  then show ?thesis
    unfolding serve_accept_def by (auto simp: wp_simps call_defs simp del: wp_obind intro!: refused)
qed


lemma serve_fd_serves:
  assumes "harmless s"
  shows "wp (serve_fd p core cb read_set fd) (serves_post B s) s"
proof -
  let ?lookup = "State_Monad.bind State_Monad.get (\<lambda>s. if um_find (m_clients s) fd \<noteq> None
    then obind (interleave p core) (\<lambda>_. serve_client p core cb fd) else serve_accept p core cb fd)"
  have "wp ?lookup (serves_post B t) t" if "harmless t" for t
  proof (cases "um_find (m_clients t) fd")
    case (Some c)
    have "wp (obind (interleave p core) (\<lambda>_. serve_client p core cb fd)) (serves_post B t) t"
      by (rule after_interleave [OF that]) (use Some in \<open>auto intro!: serve_client_serves simp: calmD(1,5)\<close>)
    with Some show ?thesis by simp
  qed (simp add: serve_accept_serves [OF that])
  then have "wp (obind (interleave p core) (\<lambda>_. ?lookup)) (serves_post B s) s"
    using calmD(5) by (intro after_interleave [OF assms]) blast
  then show ?thesis
    unfolding serve_fd_def by (simp add: serves_refl split: option.split)
qed

lemma serve_fds_serves:
  "harmless s \<Longrightarrow> wp (serve_fds p core cb read_set fds) (serves_post B s) s"
proof (induction fds arbitrary: s)
  case (Cons fd fds)
  have "wp (serve_fds p core cb read_set fds) (serves_post B s) t" if "serves B s t" for t
    using that Cons.prems
    by (intro wp_mono [OF Cons.IH [of t]]) (auto simp: serves_def [of B s t] intro: serves_trans [OF that])
  then show ?case
    by (auto intro!: wp_mono [OF serve_fd_serves [OF Cons.prems]] split: sum.split)
qed (simp add: serves_refl)

lemma pass_serves: "wp (serverTask_pass p core cb) (serves_post B s) s"
proof (cases "harmless s")
  case True
  have sel: "serves B t (t\<lparr>world := w, trace := trace t @ [EvSelect nfds asked r ready]\<rparr>)" if "harmless t"
    for t w nfds asked r ready
    using that by (intro servesI) (auto simp: harmless_def intro: balanced_same session_nil)
  show ?thesis
    unfolding serverTask_pass_def
  proof (rule after_interleave [OF True])
    fix t
    assume "calm s t"
    then have t: "harmless t" by (rule calmD)
    have "wp (obind (serve_fds p core cb read_set fds) (\<lambda>_. State_Monad.return (Inr True))) (serves_post B t)
        (t\<lparr>world := w, trace := trace t @ [EvSelect nfds asked r ready]\<rparr>)" for read_set fds w nfds asked r ready
      unfolding wp_obind by (rule wp_mono [OF serve_fds_serves [where B = B]])
        (use t in \<open>auto simp: harmless_def intro: serves_trans [OF sel [OF t]] split: sum.split\<close>)
    then show "wp (select_and_serve p core cb) (serves_post B t) t"
      using sel [OF t] by (simp add: select_and_serve_def wp_simps call_defs Let_def del: wp_obind)
  qed
qed (simp add: serves_def wp_run)

end

section \<open>What a pass attends to\<close>

text \<open>
  The descriptors the server thread has served, by \<open>recv\<close> or \<open>accept\<close>, in order, and the
  answers of its \<open>select\<close> calls.
\<close>

fun attended :: "event list \<Rightarrow> int list" where
  "attended [] = []"
| "attended (EvRecv fd _ _ _ # es) = fd # attended es"
| "attended (EvAccept fd _ _ # es) = fd # attended es"
| "attended (_ # es) = attended es"

fun selects :: "event list \<Rightarrow> (fd_set \<times> int \<times> fd_set) list" where
  "selects [] = []"
| "selects (EvSelect _ asked r ready # es) = (asked, r, ready) # selects es"
| "selects (_ # es) = selects es"

lemma attended_append [simp]: "attended (xs @ ys) = attended xs @ attended ys"
proof (induction xs)
  case (Cons x xs)
  then show ?case by (cases x) simp_all
qed simp

lemma selects_append [simp]: "selects (xs @ ys) = selects xs @ selects ys"
proof (induction xs)
  case (Cons x xs)
  then show ?case by (cases x) simp_all
qed simp

lemma quiet_observed: "list_all quiet es \<Longrightarrow> attended es = [] \<and> selects es = []"
proof (induction es)
  case (Cons e es)
  then show ?case by (cases e) auto
qed simp

lemma posix_selects:
  "posix_trace tr \<Longrightarrow> (asked, r, ready) \<in> set (selects tr) \<Longrightarrow> r \<le> 0 \<or> ready AND asked = ready"
proof (induction tr rule: rev_induct)
  case (snoc e tr)
  then show ?case by (cases e) auto
qed simp

text \<open>
  Callbacks and other threads, whatever they do, neither use up stores of \<open>m_stop\<close> nor attend to
  descriptors.
\<close>

definition observed :: "('w, 'a) TcpServer \<Rightarrow> bool list \<times> int list \<times> (fd_set \<times> int \<times> fd_set) list" where
  "observed s = (stop_stores s, attended (trace s), selects (trace s))"

lemma deleteClient_observed: "wp (deleteClient core k) (\<lambda>_ t. observed t = observed s) s"
  by (auto simp: wp_simps Let_def observed_def split: option.split)

lemma only_sends_observed: "only_sends s t \<Longrightarrow> observed t = observed s"
  by (auto simp: only_sends_def observed_def quiet_observed)

lemma run_command_observed: "wp (run_command p core cmd) (\<lambda>_ t. observed t = observed s) s"
proof (cases "is_delete cmd")
  case True
  then obtain k where "cmd = DeleteClient k" by (cases cmd) auto
  then show ?thesis
    by (auto simp: run_command_def intro!: wp_mono [OF deleteClient_observed] split: sum.split)
next
  case False
  show ?thesis
    by (rule wp_mono [OF harmless_command [OF False]]) (auto dest: only_sends_observed)
qed

lemma run_commands_observed:
  fixes s :: "('w, 'a) TcpServer"
  shows "wp (run_commands p core cmds) (\<lambda>_ t. observed t = observed s) s"
proof (induction cmds arbitrary: s)
  case (Cons cmd cmds)
  have "wp (run_commands p core cmds) (\<lambda>_ u. observed u = observed s) t" if "observed t = observed s"
    for t :: "('w, 'a) TcpServer"
    using Cons.IH [of t] that by simp
  then show ?case
    by (auto intro!: wp_mono [OF run_command_observed] split: sum.split)
qed simp

lemma interleave_observed: "wp (interleave p core) (\<lambda>_ t. observed t = observed s) s"
proof (cases "others s")
  case (Cons cmds rest)
  have "observed (s\<lparr>others := rest\<rparr>) = observed s" by (simp add: observed_def)
  with run_commands_observed [of p core cmds "s\<lparr>others := rest\<rparr>"] Cons show ?thesis
    by (simp add: interleave_def)
qed (simp add: interleave_def)

lemma wp_observed:
  assumes "wp m (\<lambda>_ t. observed t = observed s) s" and "\<And>r t. observed t = observed s \<Longrightarrow> Q r t"
  shows "wp m Q s"
  using assms by (rule wp_mono)

lemma app_step_observed: "app_step p core s t \<Longrightarrow> observed t = observed s"
proof (induction rule: app_step.induct)
  case (app_own s a)
  show ?case by (simp add: observed_def)
next
  case (app_delete k s d s')
  show ?case by (rule wpD [OF deleteClient_observed app_delete])
next
  case (app_bcast msg sz s ret s')
  show ?case by (rule only_sends_observed [OF wpD [OF sendBcast_sends app_bcast]])
next
  case (app_send k msg sz s res s')
  show ?case by (rule only_sends_observed) (use wpD [OF sendClientMessage_sends app_send] in blast)
qed

lemma app_steps_observed: "(app_step p core)\<^sup>*\<^sup>* s t \<Longrightarrow> observed t = observed s"
  by (induction rule: rtranclp_induct) (auto dest: app_step_observed)

text \<open>The observations after serving one more descriptor, if it is ready.\<close>

definition observed_with :: "int list \<Rightarrow> ('w, 'a) TcpServer \<Rightarrow> bool list \<times> int list \<times> (fd_set \<times> int \<times> fd_set) list" where
  "observed_with fds s = (stop_stores s, attended (trace s) @ fds, selects (trace s))"

text \<open>A pass asks \<open>select\<close> once and serves the ready descriptors, once each, in ascending order.\<close>

definition pass_observation :: "platform \<Rightarrow> ('w, 'a) TcpServer \<Rightarrow> ('w, 'a) TcpServer \<Rightarrow> bool" where
  "pass_observation p s t \<longleftrightarrow> stop_stores t = stop_stores s \<and>
     (\<exists>asked n r ready. selects (trace t) = selects (trace s) @ [(asked, r, ready)] \<and>
        attended (trace t) = attended (trace s) @ (if r \<le> 0 then [] else filter (\<lambda>fd. fd \<in> fds_of ready) [0..n - 1]) \<and>
        (harmless s \<longrightarrow> asked = m_fds s \<and> n = findMaxFd p s))"

context server_app
begin

lemma callbacks_observed:
  "wp (onClientConnect cb k) (\<lambda>_ t. observed t = observed s) s"
  "wp (onReceiveClientData cb k data) (\<lambda>_ t. observed t = observed s) s"
  "wp (onClientDisconnect cb k ret) (\<lambda>_ t. observed t = observed s) s"
  by (rule wpI; blast intro: app_steps_observed connect_app data_app disconnect_app)+

lemmas observed_intros = wp_observed [OF interleave_observed] wp_observed [OF deleteClient_observed]
  wp_observed [OF callbacks_observed(1)] wp_observed [OF callbacks_observed(2)] wp_observed [OF callbacks_observed(3)]

lemma serve_client_observed: "wp (serve_client p core cb fd) (\<lambda>r t. r = Inr () \<longrightarrow> observed t = observed_with [fd] s) s"
  unfolding serve_client_def client_gone_def publishClientMsg_def publishDisconnected_def
  by (auto simp: wp_log_event wp_syscall Recv_def Let_def intro!: observed_intros split: option.split sum.split)
    (auto simp: observed_def observed_with_def)

lemma serve_accept_observed: "wp (serve_accept p core cb fd) (\<lambda>r t. r = Inr () \<longrightarrow> observed t = observed_with [fd] s) s"
  unfolding serve_accept_def add_client_def publishClientConnect_def
  by (auto simp: wp_log_event wp_syscall Accept_def Let_def intro!: observed_intros split: option.split sum.split)
    (auto simp: observed_def observed_with_def)

lemma serve_fd_observed: "wp (serve_fd p core cb read_set fd) (\<lambda>r t. r = Inr () \<longrightarrow>
    observed t = observed_with (if fd \<in> fds_of read_set then [fd] else []) s) s"
proof -
  have client: "wp (obind (interleave p core) (\<lambda>_. serve_client p core cb fd))
      (\<lambda>r u. r = Inr () \<longrightarrow> observed u = observed_with [fd] s) t" if "observed t = observed s" for t
    unfolding wp_obind using that
    by (auto intro!: wp_observed [OF interleave_observed] wp_mono [OF serve_client_observed] split: sum.split)
      (auto simp: observed_def observed_with_def)
  have accept: "wp (serve_accept p core cb fd) (\<lambda>r u. r = Inr () \<longrightarrow> observed u = observed_with [fd] s) t"
    if "observed t = observed s" for t
    using that by (auto intro!: wp_mono [OF serve_accept_observed]) (auto simp: observed_def observed_with_def)
  have "wp (obind (interleave p core) (\<lambda>_. do {
      s \<leftarrow> State_Monad.get;
      if um_find (m_clients s) fd \<noteq> None then obind (interleave p core) (\<lambda>_. serve_client p core cb fd)
      else serve_accept p core cb fd })) (\<lambda>r u. r = Inr () \<longrightarrow> observed u = observed_with [fd] s) s"
    unfolding wp_obind [of "interleave p core" "\<lambda>_. State_Monad.bind _ _"]
    using client accept
    by (intro wp_observed [OF interleave_observed]) (auto simp del: wp_obind split: sum.split)
  then show ?thesis
    by (simp add: serve_fd_def FD_ISSET_def fds_of_def observed_def observed_with_def del: wp_obind)
qed

lemma serve_fds_observed: "wp (serve_fds p core cb read_set fds) (\<lambda>r t. r = Inr () \<longrightarrow>
    observed t = observed_with (filter (\<lambda>fd. fd \<in> fds_of read_set) fds) s) s"
proof (induction fds arbitrary: s)
  case Nil
  show ?case by (simp add: observed_def observed_with_def)
next
  case (Cons fd fds)
  have "wp (serve_fds p core cb read_set fds) (\<lambda>r u. r = Inr () \<longrightarrow>
      observed u = observed_with (filter (\<lambda>fd. fd \<in> fds_of read_set) (fd # fds)) s) t"
    if "observed t = observed_with (if fd \<in> fds_of read_set then [fd] else []) s" for t
    using that by (intro wp_mono [OF Cons.IH]) (auto simp: observed_def observed_with_def split: if_splits)
  then show ?case
    by (auto intro!: wp_mono [OF serve_fd_observed] split: sum.split)
qed

lemma pass_observed:
  "wp (serverTask_pass p core cb) (\<lambda>r t. (\<forall>a. r \<noteq> Inl a) \<longrightarrow> pass_observation p s t) s" (is "wp _ ?Q s")
proof -
  have run: "wp (select_and_serve p core cb) ?Q t"
    if "observed t = observed s" "harmless s \<longrightarrow> m_fds t = m_fds s \<and> findMaxFd p t = findMaxFd p s" for t
    using that
    by (auto simp: select_and_serve_def wp_syscall Select_def Let_def intro!: wp_mono [OF serve_fds_observed]
        split: sum.split)
      (auto simp: observed_def observed_with_def pass_observation_def)
  have "wp (interleave p core) (\<lambda>_ t. observed t = observed s \<and>
      (harmless s \<longrightarrow> m_fds t = m_fds s \<and> findMaxFd p t = findMaxFd p s)) s"
  proof (cases "harmless s")
    case True
    have "wp (interleave p core) (\<lambda>r t. m_fds t = m_fds s \<and> findMaxFd p t = findMaxFd p s) s"
      by (rule wp_interleave [OF True]) (simp add: findMaxFd_def calmD(1-3))
    with interleave_observed [of p core s] show ?thesis
      by (auto simp: wp_def split: prod.splits)
  qed (rule wp_mono [OF interleave_observed], simp)
  then show ?thesis
    unfolding serverTask_pass_def wp_obind [of "interleave p core"]
    by (rule wp_mono) (auto intro!: run split: sum.split)
qed

end

sublocale server_app \<subseteq> server_loop: receive_loop
  "\<lambda>fuel. serverTask fuel p core cb" "serverTask_pass p core cb"
proof unfold_locales
  fix s :: "('w, 'a) TcpServer"
  show "wp (serverTask_pass p core cb) (\<lambda>r t. r = Inr True \<longrightarrow> length (stop_stores t) \<le> length (stop_stores s) \<and>
      (True \<in> set (stop_stores s) \<longrightarrow> True \<in> set (stop_stores t))) s"
    by (rule wp_mono [OF pass_observed]) (simp add: pass_observation_def)
qed simp_all

context server_app
begin

lemmas serverTask_returns = server_loop.task_returns

lemma serverTask_serves: "wp (serverTask fuel p core cb) (\<lambda>r t. (\<forall>a. r \<noteq> Some (Inl a)) \<longrightarrow> serves B s t) s"
  by (rule server_loop.task_relates [OF serves_refl serves_trans serves_loads pass_serves])

end

section \<open>Histories of a server\<close>

text \<open>
  The operations of a server in any order: \<open>start\<close> while it holds nothing, passes of the server
  thread and public operations of the application while it runs (other threads do not delete
  clients during a pass), and \<open>finish\<close> from outside the server thread.
\<close>

inductive server_step ::
  "platform \<Rightarrow> 'w SocketImpl \<Rightarrow> ('w, 'a) TcpServer server_callback \<Rightarrow>
   ('w, 'a) TcpServer \<Rightarrow> ('w, 'a) TcpServer \<Rightarrow> bool"
  for p core cb where
  start: "server_holds s = {} \<Longrightarrow> run_state (TcpServer_start p core port) s = (r, s') \<Longrightarrow> server_step p core cb s s'"
| pass: "m_thread s \<Longrightarrow> harmless s \<Longrightarrow> run_state (serverTask_pass p core cb) s = (Inr ok, s') \<Longrightarrow> server_step p core cb s s'"
| app: "m_thread s \<Longrightarrow> harmless s \<Longrightarrow> app_step p core s s' \<Longrightarrow> server_step p core cb s s'"
| finish: "run_state (TcpServer_finish p core False) s = (u, s') \<Longrightarrow> server_step p core cb s s'"

definition server_good :: "platform \<Rightarrow> ('w, 'a) TcpServer \<Rightarrow> bool" where
  "server_good p s \<longleftrightarrow> iterates p \<and> table_ok s \<and> harmless s \<and> (m_thread s \<longrightarrow> server_inv s)"

lemma serves_balance:
  assumes "serves B s t" and "posix_trace (trace t)" and "server_good p s" and "m_thread s"
    and "owned (trace s) = B \<union> server_holds s" and "B \<inter> server_holds s = {}"
  shows "server_good p t \<and> owned (trace t) = B \<union> server_holds t \<and> B \<inter> server_holds t = {}"
  using assms by (auto simp: serves_def server_good_def balanced_def server_inv_def)

lemma start_good:
  assumes "run_state (TcpServer_start p core port) s = (r, t)" and "posix_trace (trace t)"
    and "server_good p s" and "server_holds s = {}" and "owned (trace s) = B"
  shows "server_good p t \<and> owned (trace t) = B \<union> server_holds t \<and> B \<inter> server_holds t = {}"
proof -
  note t = wpD [OF start_frame assms(1)]
  have none: "m_sockfd s = INVALID_SOCKET" "client_keys s = {}" "um_inv (m_clients s)"
    using assms(3,4) by (auto simp: server_holds_def server_good_def table_ok_def subset_singleton_iff)
  then have "\<not> m_thread s"
    using assms(3) by (auto simp: server_good_def server_inv_def)
  moreover have keys: "client_keys t = {}" using none t by simp
  moreover have "table_ok t"
    using assms(3) none keys t by (simp add: server_good_def table_ok_def)
  ultimately have "server_good p t"
    using assms(3) t by (auto simp: server_good_def server_inv_def harmless_def)
  with t none keys assms(2,5) show ?thesis
    by (auto simp: server_holds_def)
qed

lemma finish_good:
  assumes "run_state (TcpServer_finish p core False) s = (u, t)" and "server_good p s"
    and "owned (trace s) = B \<union> server_holds s" and "B \<inter> server_holds s = {}"
  shows "server_good p t \<and> owned (trace t) = B \<union> server_holds t \<and> B \<inter> server_holds t = {}"
proof -
  have "table_ok s" "iterates p" using assms(2) by (simp_all add: server_good_def)
  from wpD [OF finish_frame [OF this] assms(1)] obtain es where
    t: "m_sockfd t = INVALID_SOCKET" "m_clients t = []" "\<not> m_thread t" "others t = others s"
      "trace t = trace s @ es" "only_closes es" "set (closed_fds es) = server_holds s"
    by auto
  have holds: "server_holds t = {}" using t(1,2) by (simp add: server_holds_def um_keys_def)
  have "owned (trace t) = B"
    using only_closes_owned [OF t(6), of "trace s"] t(5,7) assms(3,4) by auto
  moreover have "server_good p t"
    using t assms(2) by (simp add: server_good_def table_ok_def harmless_def um_inv_def um_keys_def ct.all_entries_def um_find_def)
  ultimately show "server_good p t \<and> owned (trace t) = B \<union> server_holds t \<and> B \<inter> server_holds t = {}"
    using holds by simp
qed

lemma finish_prefix: "wp (TcpServer_finish p core on_thread) (\<lambda>_ t. prefix (trace s) (trace t)) s"
proof -
  have "wp (close_listener core) (\<lambda>_ t. prefix (trace s) (trace t)) u" if "prefix (trace s) (trace u)"
    for u :: "('a, 'b) TcpServer"
    using that by (auto simp: close_listener_def wp_simps call_defs)
  then show ?thesis
    unfolding TcpServer_finish_def
    by (auto simp: wp_simps intro!: wp_mono [OF close_clients_trace])
qed

lemma destroy_prefix: "wp (TcpServer_destroy p core on_thread) (\<lambda>_ t. prefix (trace s) (trace t)) s"
  unfolding TcpServer_destroy_def destroy_thread_def by (simp add: wp_mono [OF finish_prefix])

lemma destroy_balance:
  assumes "run_state (TcpServer_destroy p core False) s = (r, t)" and "server_good p s"
    and "owned (trace s) = B \<union> server_holds s" and "B \<inter> server_holds s = {}"
  shows "r = Inr () \<and> owned (trace t) = B"
proof -
  obtain u where f: "run_state (TcpServer_finish p core False) s = (u, t)" and r: "r = (if m_thread t then Inl Terminate else Inr ())"
    using assms(1) by (auto simp: TcpServer_destroy_def destroy_thread_def split: prod.splits)
  have "table_ok s" "iterates p"
    using assms(2) by (simp_all add: server_good_def)
  then have "\<not> m_thread t \<and> server_holds t = {}"
    using wpD [OF finish_frame f] by (simp add: server_holds_def um_keys_def)
  with finish_good [OF f assms(2-4)] r show ?thesis by simp
qed

context server_app
begin

lemma server_step_prefix: "server_step p core cb s s' \<Longrightarrow> prefix (trace s) (trace s')"
proof (induction rule: server_step.induct)
  case (start s port r s')
  from wpD [OF start_frame this(2)] show ?case by simp
next
  case (pass s ok s')
  from wpD [OF pass_serves [of "{}"] pass(3)] pass(2) show ?case by (auto simp: serves_def)
next
  case (app s s')
  from app_step_serves [OF app(3), of "{}"] app(2) show ?case by (auto simp: serves_def)
next
  case (finish s u s')
  show ?case by (rule wpD [OF finish_prefix finish])
qed

lemma server_step_balance:
  assumes "server_step p core cb s s'" and "posix_trace (trace s')" and "server_good p s"
    and "owned (trace s) = B \<union> server_holds s" and "B \<inter> server_holds s = {}"
  shows "server_good p s' \<and> owned (trace s') = B \<union> server_holds s' \<and> B \<inter> server_holds s' = {}"
  using assms(1)
proof cases
  case (start port r)
  from start_good [OF start(2) assms(2,3) start(1)] assms(4) start(1) show ?thesis by simp
next
  case (pass ok)
  have "serves B s s'" using wpD [OF pass_serves pass(3)] by simp
  from serves_balance [OF this assms(2,3) pass(1) assms(4,5)] show ?thesis .
next
  case app
  from serves_balance [OF app_step_serves [OF app(3)] assms(2,3) app(1) assms(4,5)] show ?thesis .
next
  case (finish u)
  from finish_good [OF finish assms(3-5)] show ?thesis .
qed

end

sublocale server_app \<subseteq> server_owner: descriptor_owner "server_step p core cb" server_holds "server_good p"
  by unfold_locales (use server_step_prefix server_step_balance in blast)+

context server_app
begin

lemmas server_no_leak = server_owner.no_leak

lemmas server_steps_balance = server_owner.steps_balance

end

section \<open>The unit tests' callback object\<close>

text \<open>\<open>TcpServerTestApp\<close> of \<open>test/test_TcpServer.cpp\<close>.\<close>

record TcpServerTestApp =
  app_receiveData :: "int \<rightharpoonup> string"
  app_clients :: "int set"

definition TcpServerTestApp_callback :: "('w, TcpServerTestApp) TcpServer server_callback" where
  "TcpServerTestApp_callback =
     \<lparr>onClientConnect = (\<lambda>client. do {
        State_Monad.update (\<lambda>s. s\<lparr>m_callback := (m_callback s)\<lparr>app_clients := insert client (app_clients (m_callback s))\<rparr>\<rparr>);
        State_Monad.return (Inr ()) }),
      onReceiveClientData = (\<lambda>client data. do {
        State_Monad.update (\<lambda>s. s\<lparr>m_callback := (m_callback s)\<lparr>app_receiveData :=
          (app_receiveData (m_callback s))(client \<mapsto> data)\<rparr>\<rparr>);
        State_Monad.return (Inr ()) }),
      onClientDisconnect = (\<lambda>client _. do {
        State_Monad.update (\<lambda>s. s\<lparr>m_callback := (m_callback s)\<lparr>app_clients := app_clients (m_callback s) - {client}\<rparr>\<rparr>);
        State_Monad.return (Inr ()) })\<rparr>"

interpretation test_server: server_app p core TcpServerTestApp_callback
  for p core
  by unfold_locales (auto simp: TcpServerTestApp_callback_def intro!: r_into_rtranclp app_own)

text \<open>
  A session: the server listens on 3; a client connects on 5, sends \<open>hello\<close> and closes; then
  another thread stops the server.
\<close>

definition test_server_state :: "mock \<Rightarrow> command list list \<Rightarrow> (mock, TcpServerTestApp) TcpServer" where
  "test_server_state script cmds = new_TcpServer None \<lparr>app_receiveData = Map.empty, app_clients = {}\<rparr> script
     [False, False, False, True] cmds (\<lambda>_. CHR ''?'')"

definition server_script :: mock where
  "server_script = no_script\<lparr>q_Socket := [3], q_Select := [(1, 8), (1, 0x20), (1, 0x20)],
     q_Accept := [(5, \<lparr>sin_family = AF_INET, sin_port = 0x409C, sin_addr = 0x0100007F\<rparr>)],
     q_Recv := [(5, ''hello''), (0, [])]\<rparr>"

definition started_server :: "(mock, TcpServerTestApp) TcpServer" where
  "started_server = snd (run_state (TcpServer_start example_platform MockSocketCore 5000)
     (test_server_state server_script []))"

definition server_session :: "unit outcome option \<times> (mock, TcpServerTestApp) TcpServer" where
  "server_session = run_state (serverTask 4 example_platform MockSocketCore TcpServerTestApp_callback) started_server"

section \<open>Callbacks that do not delete clients\<close>

fun accepts :: "event list \<Rightarrow> int list" where
  "accepts [] = []"
| "accepts (EvAccept fd _ _ # es) = fd # accepts es"
| "accepts (_ # es) = accepts es"

lemma accepts_append [simp]: "accepts (xs @ ys) = accepts xs @ accepts ys"
proof (induction xs)
  case (Cons x xs)
  then show ?case by (cases x) simp_all
qed simp

lemma quiet_accepts: "list_all quiet es \<Longrightarrow> accepts es = []"
proof (induction es)
  case (Cons e es)
  then show ?case by (cases e) auto
qed simp

text \<open>A callback that only sends, beside changing its own state.\<close>

definition gentle :: "('w, 'a) TcpServer \<Rightarrow> ('w, 'a) TcpServer \<Rightarrow> bool" where
  "gentle s t \<longleftrightarrow> m_clients t = m_clients s \<and> others t = others s \<and>
     (\<exists>es. trace t = trace s @ es \<and> list_all quiet es)"

locale gentle_app = server_app p core cb
  for p :: platform and core :: "'w SocketImpl" and cb :: "('w, 'a) TcpServer server_callback" +
  assumes connect_gentle: "run_state (onClientConnect cb k) s = (r, s') \<Longrightarrow> gentle s s'"
    and data_gentle: "run_state (onReceiveClientData cb k data) s = (r, s') \<Longrightarrow> gentle s s'"
    and disconnect_gentle: "run_state (onClientDisconnect cb k ret) s = (r, s') \<Longrightarrow> gentle s s'"
begin

lemma wp_gentle:
  assumes "harmless s" and "\<And>r t. m_clients t = m_clients s \<Longrightarrow> harmless t \<Longrightarrow>
      accepts (trace t) = accepts (trace s) \<Longrightarrow> Q r t"
  shows "wp (onClientConnect cb k) Q s" and "wp (onReceiveClientData cb k data) Q s"
    and "wp (onClientDisconnect cb k ret) Q s"
proof -
  have "Q r t" if "gentle s t" for r t
    using that assms(1) by (intro assms(2)) (auto simp: gentle_def quiet_accepts harmless_def)
  then show "wp (onClientConnect cb k) Q s" and "wp (onReceiveClientData cb k data) Q s"
    and "wp (onClientDisconnect cb k ret) Q s"
    by (rule wpI; use connect_gentle data_gentle disconnect_gentle in blast)+
qed

lemma wp_calm:
  assumes "harmless s" and "\<And>t. m_clients t = m_clients s \<Longrightarrow> m_fds t = m_fds s \<Longrightarrow> harmless t \<Longrightarrow>
      accepts (trace t) = accepts (trace s) \<Longrightarrow> Q (Inr ()) t"
  shows "wp (interleave p core) Q s"
proof (rule wp_interleave [OF assms(1)])
  fix t
  assume "calm s t"
  then show "Q (Inr ()) t" by (intro assms(2)) (auto simp: calm_def quiet_accepts)
qed

text \<open>Serving one descriptor loses no other client, and accepts only on a descriptor that is no client.\<close>

definition gentle_post :: "int \<Rightarrow> bool \<Rightarrow> ('w, 'a) TcpServer \<Rightarrow> ('w, 'a) TcpServer \<Rightarrow> bool" where
  "gentle_post fd unknown s t \<longleftrightarrow> harmless t \<and> client_keys s - {fd} \<subseteq> client_keys t \<and>
     accepts (trace t) = accepts (trace s) @ (if unknown then [fd] else [])"

lemma harmless_update [simp]:
  "harmless (s\<lparr>world := w\<rparr>) = harmless s" "harmless (s\<lparr>trace := tr\<rparr>) = harmless s"
  "harmless (s\<lparr>m_clients := cs\<rparr>) = harmless s" "harmless (s\<lparr>m_fds := fds\<rparr>) = harmless s"
  "harmless (s\<lparr>task_msg := buf\<rparr>) = harmless s" "harmless (s\<lparr>m_clientAddress := addr\<rparr>) = harmless s"
  by (simp_all add: harmless_def)

lemma client_gone_gentle:
  assumes "harmless s"
  shows "wp (client_gone p core cb fd n) (\<lambda>r t. r = Inr () \<longrightarrow> gentle_post fd False s t) s"
proof -
  have "wp (obind (deleteClient core fd) (\<lambda>_. publishDisconnected p cb fd)) (\<lambda>r t. r = Inr () \<longrightarrow> gentle_post fd False s t) u"
    if "um_keys (m_clients u) = um_keys (m_clients s)" "harmless u" "accepts (trace u) = accepts (trace s)" for u
    using that
    by (auto simp: wp_simps Let_def publishDisconnected_def gentle_post_def um_keys_erase
        intro!: wp_gentle split: option.split)
  then have "wp (obind (interleave p core) (\<lambda>_. obind (deleteClient core fd) (\<lambda>_. publishDisconnected p cb fd)))
      (\<lambda>r t. r = Inr () \<longrightarrow> gentle_post fd False s t) (s\<lparr>m_clients := um_assign fd c (m_clients s)\<rparr>)" for c
    using assms by (simp only: wp_obind [of "interleave p core"]) (auto intro!: wp_calm simp del: wp_obind)
  then show ?thesis
    using assms by (auto simp: client_gone_def gentle_post_def simp del: wp_obind split: option.split)
qed

lemma serve_client_gentle:
  assumes "harmless s"
  shows "wp (serve_client p core cb fd) (\<lambda>r t. r = Inr () \<longrightarrow> gentle_post fd False s t) s"
proof -
  have gone: "wp (obind (interleave p core) (\<lambda>_. client_gone p core cb fd n)) (\<lambda>r t. r = Inr () \<longrightarrow> gentle_post fd False s t) u"
    if "m_clients u = m_clients s" "harmless u" "accepts (trace u) = accepts (trace s)" for u n
    unfolding wp_obind using that
    by (intro wp_calm) (auto intro!: wp_mono [OF client_gone_gentle] simp: gentle_post_def)
  have "wp (publishClientMsg cb fd d) (\<lambda>r t. r = Inr () \<longrightarrow> gentle_post fd False s t) u"
    if "m_clients u = m_clients s" "harmless u" "accepts (trace u) = accepts (trace s)" for u d
    using that by (auto simp: publishClientMsg_def wp_simps gentle_post_def intro!: wp_gentle)
  with gone assms show ?thesis
    unfolding serve_client_def by (simp add: wp_simps Recv_def del: wp_obind)
qed

lemma serve_accept_gentle:
  assumes "harmless s"
  shows "wp (serve_accept p core cb fd) (\<lambda>r t. r = Inr () \<longrightarrow> gentle_post fd True s t) s"
proof -
  have "wp (add_client p core cb clientfd) (\<lambda>r t. r = Inr () \<longrightarrow> gentle_post fd True s t) u"
    if "m_clients u = m_clients s" "harmless u" "accepts (trace u) = accepts (trace s) @ [fd]" for u clientfd
    using that
    by (auto simp: add_client_def publishClientConnect_def wp_simps gentle_post_def um_keys_emplace
        intro!: wp_calm wp_gentle split: option.split)
  then have "wp (obind (interleave p core) (\<lambda>_. add_client p core cb clientfd)) (\<lambda>r t. r = Inr () \<longrightarrow> gentle_post fd True s t) u"
    if "m_clients u = m_clients s" "harmless u" "accepts (trace u) = accepts (trace s) @ [fd]" for u clientfd
    unfolding wp_obind using that by (intro wp_calm) auto
  with assms show ?thesis
    unfolding serve_accept_def by (simp add: wp_simps Accept_def gentle_post_def del: wp_obind)
qed

lemma serve_fd_gentle:
  assumes "harmless s"
  shows "wp (serve_fd p core cb read_set fd) (\<lambda>r t. r = Inr () \<longrightarrow>
    gentle_post fd (fd \<in> fds_of read_set \<and> fd \<notin> client_keys s) s t) s"
proof -
  let ?Q = "\<lambda>r t. r = Inr () \<longrightarrow> gentle_post fd (fd \<notin> client_keys s) s t"
  have "wp (do {
      s \<leftarrow> State_Monad.get;
      if um_find (m_clients s) fd \<noteq> None then obind (interleave p core) (\<lambda>_. serve_client p core cb fd)
      else serve_accept p core cb fd }) ?Q u"
    if u: "m_clients u = m_clients s" "harmless u" "accepts (trace u) = accepts (trace s)" for u
  proof (cases "um_find (m_clients u) fd")
    case None
    with u show ?thesis
      by (auto simp: um_find_None gentle_post_def intro!: wp_mono [OF serve_accept_gentle])
  next
    case (Some c)
    then have "fd \<in> client_keys s" using u(1) um_find_None [of "m_clients u" fd] by auto
    with Some u show ?thesis
      by (auto simp: gentle_post_def subset_iff intro!: wp_calm wp_mono [OF serve_client_gentle])
  qed
  then have "wp (obind (interleave p core) (\<lambda>_. do {
      s \<leftarrow> State_Monad.get;
      if um_find (m_clients s) fd \<noteq> None then obind (interleave p core) (\<lambda>_. serve_client p core cb fd)
      else serve_accept p core cb fd })) ?Q s"
    unfolding wp_obind [of "interleave p core" "\<lambda>_. State_Monad.bind _ _"]
    by (intro wp_calm [OF assms]) (auto simp del: wp_bind)
  with assms show ?thesis
    by (auto simp: serve_fd_def FD_ISSET_def fds_of_def gentle_post_def simp del: wp_obind)
qed

lemma serve_fds_gentle:
  assumes "harmless s" and "distinct fds"
  shows "wp (serve_fds p core cb read_set fds) (\<lambda>r t. r = Inr () \<longrightarrow>
    (\<exists>as. accepts (trace t) = accepts (trace s) @ as \<and> distinct as \<and>
       set as \<subseteq> {fd \<in> set fds. fd \<in> fds_of read_set \<and> fd \<notin> client_keys s})) s"
  using assms
proof (induction fds arbitrary: s)
  case (Cons fd fds)
  let ?Q = "\<lambda>t. \<exists>as. accepts (trace t) = accepts (trace s) @ as \<and> distinct as \<and>
       set as \<subseteq> {fd' \<in> set (fd # fds). fd' \<in> fds_of read_set \<and> fd' \<notin> client_keys s}"
  have "wp (serve_fds p core cb read_set fds) (\<lambda>r u. r = Inr () \<longrightarrow> ?Q u) t"
    if t: "gentle_post fd (fd \<in> fds_of read_set \<and> fd \<notin> client_keys s) s t" for t
  proof -
    have "?Q u" if "accepts (trace u) = accepts (trace t) @ as" "distinct as"
        "set as \<subseteq> {fd \<in> set fds. fd \<in> fds_of read_set \<and> fd \<notin> client_keys t}" for u as
      using that t Cons.prems(2)
      by (intro exI [of _ "(if fd \<in> fds_of read_set \<and> fd \<notin> client_keys s then [fd] else []) @ as"])
        (auto simp: gentle_post_def)
    then show ?thesis
      using t Cons.prems by (intro wp_mono [OF Cons.IH]) (auto simp: gentle_post_def)
  qed
  then show ?case
    by (auto intro!: wp_mono [OF serve_fd_gentle [OF Cons.prems(1)]] split: sum.split)
qed simp

lemma pass_gentle:
  assumes "harmless s"
  shows "wp (serverTask_pass p core cb) (\<lambda>r t. (\<forall>a. r \<noteq> Inl a) \<longrightarrow> (\<exists>as.
     accepts (trace t) = accepts (trace s) @ as \<and> distinct as \<and>
     (as = [] \<or> (\<exists>r ready. last (selects (trace t)) = (m_fds s, r, ready) \<and> selects (trace t) \<noteq> [] \<and> 0 < r \<and>
        set as \<subseteq> fds_of ready - client_keys s)))) s"
proof -
  let ?Q = "\<lambda>t. \<exists>as. accepts (trace t) = accepts (trace s) @ as \<and> distinct as \<and>
     (as = [] \<or> (\<exists>r ready. last (selects (trace t)) = (m_fds s, r, ready) \<and> selects (trace t) \<noteq> [] \<and> 0 < r \<and>
        set as \<subseteq> fds_of ready - client_keys s))"
  have serve: "wp (obind (serve_fds p core cb ready [0..n - 1]) (\<lambda>_. State_Monad.return (Inr True)))
      (\<lambda>r t. (\<forall>a. r \<noteq> Inl a) \<longrightarrow> ?Q t) u"
    if u: "harmless u" "accepts (trace u) = accepts (trace s)" "m_clients u = m_clients s" "0 < r"
      "selects (trace u) = pre @ [(m_fds s, r, ready)]" for u n ready r pre
  proof -
    have "wp (serve_fds p core cb ready [0..n - 1]) (\<lambda>r t. r = Inr () \<longrightarrow> selects (trace t) = selects (trace u) \<and>
        (\<exists>as. accepts (trace t) = accepts (trace u) @ as \<and> distinct as \<and>
          set as \<subseteq> {fd \<in> set [0..n - 1]. fd \<in> fds_of ready \<and> fd \<notin> client_keys u})) u"
      using serve_fds_gentle [OF u(1), of "[0..n - 1]" ready] serve_fds_observed [of ready "[0..n - 1]" u]
      by (auto simp: wp_def observed_def observed_with_def split: prod.splits)
    then show ?thesis
      unfolding wp_obind using u
      by (elim wp_mono) (force split: sum.splits)
  qed
  have "wp (select_and_serve p core cb) (\<lambda>r t. (\<forall>a. r \<noteq> Inl a) \<longrightarrow> ?Q t) u"
    if "harmless u" "accepts (trace u) = accepts (trace s)" "m_clients u = m_clients s" "m_fds u = m_fds s" for u
    using that
    by (auto simp: select_and_serve_def wp_simps Select_def Let_def simp del: wp_obind intro!: serve)
  then show ?thesis
    unfolding serverTask_pass_def wp_obind by (intro wp_calm [OF assms]) auto
qed

end

interpretation test_gentle: gentle_app p core TcpServerTestApp_callback
  for p core
  by unfold_locales (auto simp: TcpServerTestApp_callback_def gentle_def)

section \<open>Properties\<close>

lemma foldl_max: "foldl max (a :: int) xs = Max (insert a (set xs))"
proof (induction xs arbitrary: a)
  case (Cons x xs)
  have "Max (insert (max a x) (set xs)) = Max (insert a (insert x (set xs)))"
    by (cases "xs = []") (simp_all add: max.assoc Max_insert)
  with Cons show ?case by simp
qed simp

lemma findMaxFd_Max:
  assumes "table_ok s" and "iterates p"
  shows "findMaxFd p s = Max (insert (m_sockfd s) (client_keys s)) + 1"
proof -
  have "foldl (\<lambda>maxfd (_, client). max maxfd (client_sockfd client)) a cs =
      foldl max a (map (\<lambda>(k, c). client_sockfd c) cs)" for a and cs :: "(int \<times> Client) list"
    by (induction cs arbitrary: a) auto
  then show ?thesis
    using range_fds [OF assms] by (simp add: findMaxFd_def foldl_max)
qed

lemma findMaxFd_covers_fds:
  assumes "server_inv s" and "iterates p"
  shows "findMaxFd p s - 1 \<in> fds_of (m_fds s)" and "fds_of (m_fds s) \<subseteq> {0..<findMaxFd p s}"
proof -
  have fds: "fds_of (m_fds s) = insert (m_sockfd s) (client_keys s)" and "table_ok s"
    using assms(1) by (auto simp: server_inv_def)
  then have max: "findMaxFd p s = Max (fds_of (m_fds s)) + 1"
    using findMaxFd_Max [OF _ assms(2)] by simp
  have fin: "finite (fds_of (m_fds s))" "fds_of (m_fds s) \<noteq> {}" using fds by simp_all
  have "0 \<le> k \<and> k < findMaxFd p s" if "k \<in> fds_of (m_fds s)" for k
    using fds_of_range [OF that] Max_ge [OF fin(1) that] max by (simp add: fd_in_range_def)
  moreover have "findMaxFd p s - 1 \<in> fds_of (m_fds s)"
    using Max_in [OF fin] max by simp
  ultimately show "findMaxFd p s - 1 \<in> fds_of (m_fds s)" and "fds_of (m_fds s) \<subseteq> {0..<findMaxFd p s}"
    by auto
qed

text \<open>
  \<open>findMaxFd\<close> is one more than the largest descriptor in \<open>m_fds\<close>, so that \<open>select\<close> watches
  and the loop visits every one of them.
\<close>

theorem findMaxFd_covers:
  assumes "server_inv s" and "iterates p"
  shows "findMaxFd p s - 1 \<in> fds_of (m_fds s) \<and> fds_of (m_fds s) \<subseteq> {0..<findMaxFd p s}"
  using findMaxFd_covers_fds [OF assms] by blast

theorem findMaxFd_covers_witness:
  "findMaxFd example_platform (two_clients no_script) = 7 \<and> fds_of (m_fds (two_clients no_script)) \<subseteq> {0..<7}"
proof -
  have "findMaxFd example_platform (two_clients no_script) = 7" by code_simp
  with findMaxFd_covers [OF two_clients_inv(1) [of no_script] example_iterates] show ?thesis by simp
qed

text \<open>
  C1. From a running server, with any callback object that acts through the public operations and
  other threads that send but do not delete, the server thread keeps the invariant (table, client
  descriptors and \<open>m_fds\<close> agree) and its events follow the protocol: clients are announced when
  accepted, their data is handed on unchanged and only while they are connected, and the end of
  a connection closes it and is announced once.
\<close>

theorem serverTask_sessions:
  assumes "server_app p core cb" and "run_state (serverTask fuel p core cb) s = (r, s')"
    and "\<forall>a. r \<noteq> Some (Inl a)" and "posix_trace (trace s')"
    and "server_inv s" and "server_holds s \<subseteq> owned (trace s)" and "harmless s"
  shows "server_inv s' \<and> server_holds s' \<subseteq> owned (trace s') \<and>
     (\<exists>es. trace s' = trace s @ es \<and> session (client_keys s) (filter server_loud es) (client_keys s'))"
proof -
  let ?B = "owned (trace s) - server_holds s"
  have "serves ?B s s'"
    using wpD [OF server_app.serverTask_serves [OF assms(1)] assms(2)] assms(3) by blast
  moreover have "balanced ?B s"
    using assms(5,6) by (auto simp: balanced_def)
  ultimately show ?thesis
    using assms(4,7) by (auto simp: serves_def balanced_def)
qed

lemma started_inv:
  assumes "run_state (TcpServer_start p core port) s = (r, s')" and "succeeded r" and "posix_trace (trace s')"
    and "server_good p s" and "server_holds s = {}"
  shows "server_inv s'" and "server_holds s' \<subseteq> owned (trace s')"
proof -
  note good = start_good [OF assms(1,3-5) refl]
  moreover have "m_thread s'" using wpD [OF start_frame assms(1)] assms(2) by simp
  ultimately show "server_inv s'" and "server_holds s' \<subseteq> owned (trace s')"
    by (auto simp: server_good_def)
qed

lemma test_server_good: "server_good example_platform (test_server_state script [])"
  "server_holds (test_server_state script []) = {}"
  by (simp_all add: server_good_def example_iterates table_ok_def harmless_def test_server_state_def new_TcpServer_def
      um_inv_def um_keys_def ct.all_entries_def um_find_def server_holds_def)

theorem serverTask_sessions_witness:
  "fst server_session = Some (Inr ()) \<and>
   app_receiveData (m_callback (snd server_session)) 5 = Some ''hello'' \<and>
   server_inv (snd server_session) \<and>
   (\<exists>es. trace (snd server_session) = trace started_server @ es \<and>
      session (client_keys started_server) (filter server_loud es) (client_keys (snd server_session)))"
proof -
  let ?start = "run_state (TcpServer_start example_platform MockSocketCore 5000) (test_server_state server_script [])"
  have "succeeded (fst ?start)" "posix_trace (trace started_server)" by code_simp+
  then have started: "server_inv started_server" "server_holds started_server \<subseteq> owned (trace started_server)"
    using started_inv [OF prod.collapse [symmetric, of ?start] _ _ test_server_good] unfolding started_server_def by blast+
  have ret: "fst server_session = Some (Inr ())" by code_simp
  have "posix_trace (trace (snd server_session))" by code_simp
  moreover have "harmless started_server" by code_simp
  ultimately have "server_inv (snd server_session) \<and> (\<exists>es. trace (snd server_session) = trace started_server @ es \<and>
      session (client_keys started_server) (filter server_loud es) (client_keys (snd server_session)))"
    using serverTask_sessions [OF test_server.server_app_axioms
        prod.collapse [symmetric, of server_session, unfolded server_session_def]] started ret
    unfolding server_session_def by auto
  moreover have "app_receiveData (m_callback (snd server_session)) 5 = Some ''hello''" by code_simp
  ultimately show ?thesis using ret by blast
qed

text \<open>
  The server thread ends: once another thread has stored \<open>true\<close> in \<open>m_stop\<close>, the loop returns
  after at most as many passes as it makes loads of the flag until then, whatever the other
  threads do.
\<close>

lemma serverTask_terminates:
  assumes "server_app p core cb" and "True \<in> set (stop_stores s)" and "length (stop_stores s) \<le> fuel"
  shows "\<exists>ending. fst (run_state (serverTask fuel p core cb) s) = Some ending"
  using server_app.serverTask_returns [OF assms] by (simp add: wp_run)


definition passed_server :: "(mock, TcpServerTestApp) TcpServer" where
  "passed_server = snd (run_state (serverTask_pass example_platform MockSocketCore TcpServerTestApp_callback) started_server)"

definition destroyed_server :: "unit outcome \<times> (mock, TcpServerTestApp) TcpServer" where
  "destroyed_server = run_state (TcpServer_destroy example_platform MockSocketCore False) passed_server"

lemma passed_history:
  "(server_step example_platform MockSocketCore TcpServerTestApp_callback)\<^sup>*\<^sup>* (test_server_state server_script []) passed_server"
  (is "?step\<^sup>*\<^sup>* _ _")
proof -
  let ?pass = "run_state (serverTask_pass example_platform MockSocketCore TcpServerTestApp_callback) started_server"
  have "?step (test_server_state server_script []) started_server"
    unfolding started_server_def by (rule server_step.start [OF test_server_good(2) prod.collapse [symmetric]])
  moreover have "?step started_server passed_server"
  proof (rule server_step.pass)
    have "fst ?pass = Inr True" by code_simp
    then show "?pass = (Inr True, passed_server)" by (simp add: passed_server_def prod_eq_iff)
  qed code_simp+
  ultimately show ?thesis
    by (metis rtranclp.simps)
qed




text \<open>
  C3. A pass of the server thread asks \<open>select\<close> once, about exactly the accept socket and the
  connected clients, and then attends to every descriptor that is ready, once each and in
  ascending order: no ready client is passed over, whatever the callbacks do.
\<close>

theorem serverTask_pass_attends:
  assumes "server_app p core cb" and "run_state (serverTask_pass p core cb) s = (Inr ok, s')"
    and "server_inv s" and "harmless s" and "iterates p" and "posix_trace (trace s')"
  shows "\<exists>r ready. selects (trace s') = selects (trace s) @ [(m_fds s, r, ready)] \<and>
     attended (trace s') = attended (trace s) @ (if r \<le> 0 then [] else sorted_list_of_set (fds_of ready))"
proof -
  have "pass_observation p s s'"
    using wpD [OF server_app.pass_observed [OF assms(1)] assms(2)] by simp
  then obtain r ready where
    sel: "selects (trace s') = selects (trace s) @ [(m_fds s, r, ready)]" and
    att: "attended (trace s') = attended (trace s) @
      (if r \<le> 0 then [] else filter (\<lambda>fd. fd \<in> fds_of ready) [0..findMaxFd p s - 1])"
    using assms(4) unfolding pass_observation_def by blast
  have "filter (\<lambda>fd. fd \<in> fds_of ready) [0..findMaxFd p s - 1] = sorted_list_of_set (fds_of ready)" if "0 < r"
  proof -
    have "ready AND m_fds s = ready"
      using posix_selects [OF assms(6), of "m_fds s" r ready] sel that by auto
    then have "fds_of ready \<subseteq> {0..<findMaxFd p s}"
      using ready_subset findMaxFd_covers_fds [OF assms(3,5)] by blast
    then have "set (filter (\<lambda>fd. fd \<in> fds_of ready) [0..findMaxFd p s - 1]) = fds_of ready" by auto
    moreover have "sorted (filter (\<lambda>fd. fd \<in> fds_of ready) [0..findMaxFd p s - 1])"
      by (rule sorted_wrt_filter) simp
    moreover have "distinct (filter (\<lambda>fd. fd \<in> fds_of ready) [0..findMaxFd p s - 1])" by simp
    ultimately show ?thesis
      using sorted_list_of_set.idem_if_sorted_distinct by metis
  qed
  with sel att show ?thesis by auto
qed

theorem serverTask_pass_attends_witness:
  "\<exists>r ready. selects (trace passed_server) = selects (trace started_server) @ [(m_fds started_server, r, ready)] \<and>
     attended (trace passed_server) = attended (trace started_server) @ (if r \<le> 0 then [] else sorted_list_of_set (fds_of ready))"
proof -
  let ?start = "run_state (TcpServer_start example_platform MockSocketCore 5000) (test_server_state server_script [])"
  let ?pass = "run_state (serverTask_pass example_platform MockSocketCore TcpServerTestApp_callback) started_server"
  have "succeeded (fst ?start)" "posix_trace (trace started_server)" by code_simp+
  then have started: "server_inv started_server"
    using started_inv [OF prod.collapse [symmetric, of ?start] _ _ test_server_good] unfolding started_server_def by blast
  have "fst ?pass = Inr True" by code_simp
  then have run: "?pass = (Inr True, passed_server)" by (simp add: passed_server_def prod_eq_iff)
  have "harmless started_server" "posix_trace (trace passed_server)" by code_simp+
  then show ?thesis
    by (intro serverTask_pass_attends [OF test_server.server_app_axioms run started _ example_iterates])
qed

end
