(* ===== verification/Server_Limits.thy ===== *)
theory Server_Limits
  imports Server_Task
begin

text \<open>
  Where the guarantees of the server thread end: which descriptors it accepts on, what it does
  with a failing connection and with a descriptor beyond \<open>FD_SETSIZE\<close>, and what goes wrong when
  a callback or another thread deletes clients while a pass is under way.
\<close>

section \<open>Accepting\<close>

text \<open>
  C25. While neither the callbacks nor other threads delete clients, a pass accepts at most once, and
  only on the accept socket.
\<close>

theorem accept_only_on_listener:
  assumes "gentle_app p core cb" and "run_state (serverTask_pass p core cb) s = (Inr ok, s')"
    and "server_inv s" and "harmless s" and "posix_trace (trace s')"
  shows "accepts (trace s') = accepts (trace s) \<or> accepts (trace s') = accepts (trace s) @ [m_sockfd s]"
proof -
  from wpD [OF gentle_app.pass_gentle [OF assms(1,4)] assms(2)] obtain as where
    as: "accepts (trace s') = accepts (trace s) @ as" "distinct as" and
    why: "as = [] \<or> (\<exists>r ready. last (selects (trace s')) = (m_fds s, r, ready) \<and> selects (trace s') \<noteq> [] \<and>
      0 < r \<and> set as \<subseteq> fds_of ready - client_keys s)"
    by auto
  show ?thesis
  proof (cases "as = []")
    case False
    with why obtain r ready where "last (selects (trace s')) = (m_fds s, r, ready)" "selects (trace s') \<noteq> []"
      "0 < r" and sub: "set as \<subseteq> fds_of ready - client_keys s"
      by blast
    then have "ready AND m_fds s = ready"
      using posix_selects [OF assms(5), of "m_fds s" r ready] last_in_set by fastforce
    then have "set as \<subseteq> {m_sockfd s}"
      using ready_subset [of ready "m_fds s"] sub assms(3) by (auto simp: server_inv_def)
    then have "as = [m_sockfd s]"
      using as(2) False by (cases as) (auto simp: subset_singleton_iff)
    with as show ?thesis by simp
  qed (use as in simp)
qed

theorem accept_only_on_listener_witness:
  "accepts (trace passed_server) = accepts (trace started_server) \<or>
   accepts (trace passed_server) = accepts (trace started_server) @ [3]"
proof -
  let ?start = "run_state (TcpServer_start example_platform MockSocketCore 5000) (test_server_state server_script [])"
  let ?pass = "run_state (serverTask_pass example_platform MockSocketCore TcpServerTestApp_callback) started_server"
  have "succeeded (fst ?start)" "posix_trace (trace started_server)" by code_simp+
  then have started: "server_inv started_server"
    using started_inv [OF prod.collapse [symmetric, of ?start] _ _ test_server_good] unfolding started_server_def by blast
  have "fst ?pass = Inr True" by code_simp
  then have run: "?pass = (Inr True, passed_server)" by (simp add: passed_server_def prod_eq_iff)
  have "harmless started_server" "posix_trace (trace passed_server)" "m_sockfd started_server = 3" by code_simp+
  with accept_only_on_listener [OF test_gentle.gentle_app_axioms run started] show ?thesis by simp
qed

text \<open>
  A callback object that drops client 6 as soon as client 5 says anything, on a server with both
  clients ready in the same pass.
\<close>

definition dropping_callback :: "(mock, unit) TcpServer server_callback" where
  "dropping_callback =
     \<lparr>onClientConnect = (\<lambda>_. State_Monad.return (Inr ())),
      onReceiveClientData = (\<lambda>_ _. obind (deleteClient MockSocketCore 6) (\<lambda>_. State_Monad.return (Inr ()))),
      onClientDisconnect = (\<lambda>_ _. State_Monad.return (Inr ()))\<rparr>"

interpretation dropping: server_app p MockSocketCore dropping_callback
  for p
proof unfold_locales
  fix k data r and s s' :: "(mock, unit) TcpServer"
  assume "run_state (onReceiveClientData dropping_callback k data) s = (r, s')"
  then have "run_state (deleteClient MockSocketCore 6) s = (fst (run_state (deleteClient MockSocketCore 6) s), s')"
    by (auto simp: dropping_callback_def obind_def split: prod.splits sum.splits)
  then show "(app_step p MockSocketCore)\<^sup>*\<^sup>* s s'"
    by (intro r_into_rtranclp app_delete)
qed (auto simp: dropping_callback_def)

definition drop_run :: "bool outcome \<times> (mock, unit) TcpServer" where
  "drop_run = run_state (serverTask_pass example_platform MockSocketCore dropping_callback)
     (two_clients (no_script\<lparr>q_Select := [(2, 0x60)], q_Recv := [(2, ''hi'')], q_Accept := [(-1, sockaddr_zero)]\<rparr>))"

text \<open>A whole pass with this callback object: the last call is an \<open>accept\<close> on the closed descriptor 6.\<close>

lemma drop_accepts:
  "server_app example_platform MockSocketCore dropping_callback \<and> fst drop_run = Inr True \<and>
   m_sockfd (snd drop_run) = 3 \<and>
   (\<exists>before peer. trace (snd drop_run) = before @ [EvAccept 6 (-1) peer] \<and> 6 \<notin> owned before)"
proof -
  have "trace (snd drop_run) = butlast (trace (snd drop_run)) @ [EvAccept 6 (-1) sockaddr_zero] \<and>
      6 \<notin> owned (butlast (trace (snd drop_run)))"
    by code_simp
  moreover have "fst drop_run = Inr True \<and> m_sockfd (snd drop_run) = 3" by code_simp
  ultimately show ?thesis
    using dropping.server_app_axioms by blast
qed

text \<open>In general: what \<open>deleteClient\<close> leaves, and what the loop then does with the descriptor.\<close>

lemma deleted_is_closed:
  assumes "server_inv s" "k \<in> client_keys s"
  shows "wp (deleteClient core k) (\<lambda>r t. r = Inr True \<longrightarrow> um_find (m_clients t) k = None \<and> k \<notin> owned (trace t) \<and>
      m_sockfd t \<noteq> k \<and> others t = others s) s"
proof -
  obtain c where c: "um_find (m_clients s) k = Some c"
    using assms(2) um_find_None [of "m_clients s" k] by (cases "um_find (m_clients s) k") auto
  with assms have inv: "client_sockfd c = k" "um_inv (m_clients s)" "m_sockfd s \<noteq> k"
    by (auto simp: server_inv_def table_ok_def ct.all_entries_def)
  then have "um_find (um_erase k (m_clients s)) k = None"
    by (simp add: um_find_None um_keys_erase)
  with c inv show ?thesis
    by (auto simp: wp_simps Let_def trace_simps split: option.split)
qed

lemma serve_fd_unknown:
  assumes "FD_ISSET k read_set = Some True" "um_find (m_clients s) k = None" "harmless s"
    and "\<forall>a w. fst (fst (core_Accept core k a w)) = -1"
  shows "wp (serve_fd p core cb read_set k) (\<lambda>r u. r = Inr () \<and>
      (\<exists>es peer. trace u = trace s @ es @ [EvAccept k (-1) peer] \<and> list_all quiet es)) s"
proof -
  have "wp (serve_accept p core cb k) (\<lambda>r u. r = Inr () \<and>
      (\<exists>es peer. trace u = trace s @ es @ [EvAccept k (-1) peer] \<and> list_all quiet es)) t" if "calm s t" for t
    using that assms(4) by (auto simp: serve_accept_def wp_simps call_defs calm_def) (metis fst_conv)+
  then show ?thesis
    using assms(1,2) unfolding serve_fd_def
    by (auto simp: calmD(1) intro!: wp_interleave [OF assms(3)])
qed

text \<open>
  C34. A client deleted during a pass is taken for the accept socket: the descriptor is still in the
  pass's copy of the ready set, and a ready descriptor that is not in the table is given to
  \<open>accept\<close>. So whenever a callback deletes a client that is ready too, the server calls \<open>accept\<close> on the
  descriptor it has closed (which fails, so nothing else happens).
\<close>

theorem accept_on_deleted_client:
  assumes "run_state (deleteClient core k) s = (Inr True, t)" "server_inv s" "k \<in> client_keys s" "harmless s"
    and "FD_ISSET k read_set = Some True" "\<forall>a w. fst (fst (core_Accept core k a w)) = -1"
    and "run_state (serve_fd p core cb read_set k) t = (r, u)"
  shows "r = Inr () \<and> k \<noteq> m_sockfd t \<and> k \<notin> owned (trace t) \<and>
     (\<exists>es peer. trace u = trace t @ es @ [EvAccept k (-1) peer] \<and> list_all quiet es)"
proof -
  have t: "um_find (m_clients t) k = None" "k \<notin> owned (trace t)" "m_sockfd t \<noteq> k" "harmless t"
    using wpD [OF deleted_is_closed [OF assms(2,3)] assms(1)] assms(4) by (simp_all add: harmless_def)
  from wpD [OF serve_fd_unknown [OF assms(5) t(1,4) assms(6)] assms(7)] t(2,3) show ?thesis by simp
qed

text \<open>Deleting client 6 of the clients 5 and 6, both ready, where \<open>accept\<close> fails.\<close>

definition failing_accept :: "mock SocketImpl" where
  "failing_accept = MockSocketCore\<lparr>core_Accept := (\<lambda>_ addr w. ((-1, addr), w))\<rparr>"

definition after_delete :: "bool outcome \<times> (mock, unit) TcpServer" where
  "after_delete = run_state (deleteClient failing_accept 6) (two_clients no_script)"

definition after_accept :: "unit outcome \<times> (mock, unit) TcpServer" where
  "after_accept = run_state (serve_fd example_platform failing_accept dropping_callback 0x60 6) (snd after_delete)"

theorem accept_on_deleted_client_witness:
  "fst after_accept = Inr () \<and> 6 \<noteq> m_sockfd (snd after_delete) \<and> 6 \<notin> owned (trace (snd after_delete)) \<and>
   (\<exists>es peer. trace (snd after_accept) = trace (snd after_delete) @ es @ [EvAccept 6 (-1) peer] \<and> list_all quiet es)"
proof (rule accept_on_deleted_client)
  have "fst after_delete = Inr True" by code_simp
  then show "run_state (deleteClient failing_accept 6) (two_clients no_script) = (Inr True, snd after_delete)"
    unfolding after_delete_def by (simp add: prod_eq_iff)
  show "run_state (serve_fd example_platform failing_accept dropping_callback 0x60 6) (snd after_delete) =
      (fst after_accept, snd after_accept)"
    by (simp add: after_accept_def)
  show "FD_ISSET 6 0x60 = Some True" "harmless (two_clients no_script)" by code_simp+
qed (simp_all add: two_clients_inv failing_accept_def, simp add: two_clients_def um_keys_def)

section \<open>Failing connections\<close>

text \<open>
  C33. When \<open>recv\<close> on a client fails, the client is marked as not connected and nothing else happens:
  it stays in the table and in \<open>m_fds\<close>, its descriptor stays open, and no callback is made, so
  only \<open>getClientInfo\<close> tells.
\<close>

theorem recv_error_keeps_client:
  assumes "um_find (m_clients s) fd = Some c" and "harmless s"
    and "core_Recv core fd SERVER_MAX_PACKET_SIZE (world s) = ((n, data), w)" and "sint n < 0"
    and "run_state (serve_client p core cb fd) s = (r, s')"
  shows "r = Inr () \<and> filter server_loud (trace s') = filter server_loud (trace s) @
       [EvRecv fd SERVER_MAX_PACKET_SIZE n data] \<and>
     m_fds s' = m_fds s \<and> um_keys (m_clients s') = um_keys (m_clients s) \<and>
     run_state (getClientInfo fd info) s' = ((True, m_ip c, m_port c, False), s')"
proof -
  let ?Q = "\<lambda>r t. r = Inr () \<and> filter server_loud (trace t) = filter server_loud (trace s) @
       [EvRecv fd SERVER_MAX_PACKET_SIZE n data] \<and> m_fds t = m_fds s \<and>
     m_clients t = um_assign fd (c\<lparr>m_isConnected := False\<rparr>) (m_clients s)"
  have "n \<noteq> 0" using assms(4) by auto
  then have "wp (client_gone p core cb fd n) ?Q t" if "calm u t" "m_clients u = m_clients s" "m_fds u = m_fds s"
    "filter server_loud (trace u) = filter server_loud (trace s) @ [EvRecv fd SERVER_MAX_PACKET_SIZE n data]" for t u
    using that assms(1) calmD(1,2,9) [OF that(1)] by (auto simp: client_gone_def)
  then have "wp (obind (interleave p core) (\<lambda>_. client_gone p core cb fd n)) ?Q
      (s\<lparr>world := w, trace := trace s @ [EvRecv fd SERVER_MAX_PACKET_SIZE n data],
         task_msg := buf_write data (task_msg s)\<rparr>)"
    unfolding wp_obind using assms(2) by (intro wp_interleave) (auto simp: harmless_def)
  then have "wp (serve_client p core cb fd) ?Q s"
    using assms(3,4) by (simp add: serve_client_def wp_simps Recv_def del: wp_obind)
  from wpD [OF this assms(5)] show ?thesis
    using assms(1) by (simp add: getClientInfo_def um_find_assign)
qed

definition error_run :: "unit outcome \<times> (mock, TcpServerTestApp) TcpServer" where
  "error_run = run_state (serve_client example_platform MockSocketCore TcpServerTestApp_callback 5)
     ((test_server_state (no_script\<lparr>q_Recv := [(-1, [])]\<rparr>) [])\<lparr>m_clients := [(5, new_Client ''127.0.0.1'' 5 40000)]\<rparr>)"

theorem recv_error_keeps_client_witness:
  "um_keys (m_clients (snd error_run)) = [5] \<and>
   run_state (getClientInfo 5 ([], 0, True)) (snd error_run) = ((True, ''127.0.0.1'', 40000, False), snd error_run)"
proof -
  let ?s = "(test_server_state (no_script\<lparr>q_Recv := [(-1, [])]\<rparr>) [])\<lparr>m_clients := [(5, new_Client ''127.0.0.1'' 5 40000)]\<rparr>"
  have "um_find (m_clients ?s) 5 = Some (new_Client ''127.0.0.1'' 5 40000)" by (simp add: um_find_def)
  moreover have "harmless ?s" by (simp add: harmless_def test_server_state_def new_TcpServer_def)
  moreover have "core_Recv MockSocketCore 5 SERVER_MAX_PACKET_SIZE (world ?s) = ((-1, []), no_script)"
    by (simp add: MockSocketCore_def scripted_def test_server_state_def new_TcpServer_def no_script_def)
  ultimately show ?thesis
    using recv_error_keeps_client [OF _ _ _ _ prod.collapse [symmetric], of ?s 5] 
    by (simp add: error_run_def new_Client_def um_keys_def)
qed

section \<open>FD_SETSIZE\<close>

text \<open>
  C37. The server does not check that an accepted descriptor fits an \<open>fd_set\<close>: for a descriptor of
  1024 or more, \<open>FD_SET\<close> writes outside \<open>m_fds\<close>, after the client has been put into the table
  and before it has been announced.
\<close>

theorem accept_beyond_FD_SETSIZE:
  assumes "run_state (add_client p core cb clientfd) s = (r, s')" and "harmless s" and "FD_SETSIZE \<le> clientfd"
  shows "r = Inl (UB ''FD_SET out of range'') \<and> clientfd \<in> client_keys s' \<and>
     filter server_loud (trace s') = filter server_loud (trace s)"
proof -
  let ?s = "s\<lparr>m_clients := um_emplace clientfd (new_Client (inet_ntop p (sin_addr (m_clientAddress s))) clientfd
    (ntohs p (sin_port (m_clientAddress s)))) (m_clients s)\<rparr>"
  have "\<not> fd_in_range clientfd" using assms(3) by (simp add: fd_in_range_def)
  then have post: "r = Inl (UB ''FD_SET out of range'') \<and> clientfd \<in> client_keys t \<and>
      filter server_loud (trace t) = filter server_loud (trace s)"
    if "calm ?s t" "r = Inl (UB ''FD_SET out of range'')" for t r
    using that calmD(1,9) [OF that(1)] by (auto simp: um_keys_emplace)
  have "wp (add_client p core cb clientfd) (\<lambda>r t. r = Inl (UB ''FD_SET out of range'') \<and> clientfd \<in> client_keys t \<and>
      filter server_loud (trace t) = filter server_loud (trace s)) s"
    unfolding add_client_def using assms(2) \<open>\<not> fd_in_range clientfd\<close>
    by (auto simp: FD_SET_def intro!: wp_interleave dest: post [OF _ refl])
  from wpD [OF this assms(1)] show ?thesis .
qed

definition overflow_run :: "unit outcome \<times> (mock, TcpServerTestApp) TcpServer" where
  "overflow_run = run_state (add_client example_platform MockSocketCore TcpServerTestApp_callback 1024)
     (test_server_state no_script [])"

theorem accept_beyond_FD_SETSIZE_witness:
  "fst overflow_run = Inl (UB ''FD_SET out of range'') \<and> 1024 \<in> client_keys (snd overflow_run)"
proof -
  have "harmless (test_server_state no_script [])"
    by (simp add: harmless_def test_server_state_def new_TcpServer_def)
  from accept_beyond_FD_SETSIZE [OF prod.collapse [symmetric, of overflow_run, unfolded overflow_run_def] this]
  show ?thesis
    by (simp add: overflow_run_def FD_SETSIZE_def)
qed

section \<open>Deleting from another thread\<close>

text \<open>
  The interference that hurts: another thread deletes a client while the server thread, between
  two critical sections, is still busy with it. The list holds what happens before the
  pass, before the descriptor is looked up, before the client is entered into the table and
  before it is entered into \<open>m_fds\<close>.
\<close>

definition stale_run :: "bool outcome \<times> (mock, TcpServerTestApp) TcpServer" where
  "stale_run = run_state (serverTask_pass example_platform MockSocketCore TcpServerTestApp_callback)
     ((snd (run_state (TcpServer_start example_platform MockSocketCore 5000)
        (test_server_state server_script [[], [], [], [DeleteClient 5]]))))"

text \<open>
  When another thread deletes a client between its entry into the table and its entry into
  \<open>m_fds\<close>, the closed descriptor stays in \<open>m_fds\<close> with no client in the table, and the client is
  announced to the application after it is gone.
\<close>

lemma delete_race_leaves_stale_descriptor:
  "fst stale_run = Inr True \<and> 5 \<in> fds_of (m_fds (snd stale_run)) \<and> 5 \<notin> client_keys (snd stale_run) \<and>
   5 \<notin> owned (trace (snd stale_run)) \<and> last (trace (snd stale_run)) = EvClientConnect 5 \<and>
   \<not> server_inv (snd stale_run)"
proof -
  have "FD_ISSET 5 (m_fds (snd stale_run)) = Some True \<and> m_sockfd (snd stale_run) = 3" by code_simp
  then have in_fds: "5 \<in> fds_of (m_fds (snd stale_run))" "m_sockfd (snd stale_run) = 3"
    by (auto simp: FD_ISSET_def fds_of_def split: if_splits)
  have rest: "fst stale_run = Inr True" "5 \<notin> client_keys (snd stale_run)" "5 \<notin> owned (trace (snd stale_run))"
    "last (trace (snd stale_run)) = EvClientConnect 5"
    by code_simp+
  with in_fds show ?thesis by (auto simp: server_inv_def)
qed

text \<open>
  C35. When another thread deletes a client between \<open>recv\<close> reporting the end of its stream, or an
  error, and the server thread marking it, the server thread writes through a pointer to the
  erased element. This holds for every application and every server whose table is in order.
\<close>

theorem delete_race_dangles:
  assumes "table_ok s" and "fd \<in> client_keys s" and "fd_in_range fd"
    and "others s = [DeleteClient fd] # rest"
    and "core_Recv core fd SERVER_MAX_PACKET_SIZE (world s) = ((n, data), w)" and "sint n < 1"
  shows "fst (run_state (serve_client p core cb fd) s) = Inl (UB ''use of an erased Client'')"
proof -
  obtain c where c: "um_find (m_clients s) fd = Some c"
    using assms(2) um_find_None [of "m_clients s" fd] by auto
  then have "client_sockfd c = fd"
    using assms(1) ct.all_entriesD [OF _ c] by (auto simp: table_ok_def)
  with c have "wp (serve_client p core cb fd) (\<lambda>r _. r = Inl (UB ''use of an erased Client'')) s"
    using assms(3-6)
    by (simp add: serve_client_def client_gone_def interleave_def run_command_def wp_simps Recv_def Let_def
        FD_CLR_def um_find_erase)
  then show ?thesis
    by (simp add: wp_run)
qed

theorem delete_race_dangles_witness:
  "fst (run_state (serve_client example_platform MockSocketCore dropping_callback 5)
     ((two_clients (no_script\<lparr>q_Recv := [(0, [])]\<rparr>))\<lparr>others := [[DeleteClient 5]]\<rparr>)) = Inl (UB ''use of an erased Client'')"
proof (rule delete_race_dangles [where n = 0 and data = "[]" and w = no_script])
  show "table_ok ((two_clients (no_script\<lparr>q_Recv := [(0, [])]\<rparr>))\<lparr>others := [[DeleteClient 5]]\<rparr>)"
    using two_clients_inv(2) [of "no_script\<lparr>q_Recv := [(0, [])]\<rparr>"] by (simp add: table_ok_def)
qed (simp_all add: two_clients_def new_TcpServer_def um_keys_def fd_in_range_def FD_SETSIZE_def mock_simps)

end
