(* ===== verification/AddrLookup.thy ===== *)
theory AddrLookup
  imports MockSocketCore
begin

text \<open>
  \<open>include/sockets-cpp/AddrLookup.h\<close>: \<open>lookupHost\<close>, which resolves a host name to its first
  IPv4 address. The reference parameter \<open>addr\<close> is passed in and handed back.
\<close>

definition lookupHost ::
  "'w SocketImpl \<Rightarrow> string option \<Rightarrow> in_addr_t \<Rightarrow> (('w, 'z) env_scheme, int \<times> in_addr_t) state" where
  "lookupHost core host addr = do {
     (errcode, result) \<leftarrow> GetAddrInfo core host AF_INET;
     if errcode \<noteq> 0 then State_Monad.return (-1, addr)
     else (case result of
         res # _ \<Rightarrow> do {
           FreeAddrInfo core result;
           State_Monad.return (errcode, res)
         }
       | [] \<Rightarrow> do {
           FreeAddrInfo core result;
           State_Monad.return (-1, addr)
         })
   }"

text \<open>
  The result list of every successful \<open>getaddrinfo\<close> is freed exactly once, and nothing else is.
\<close>

fun addrinfo_results :: "event list \<Rightarrow> in_addr_t list list" where
  "addrinfo_results [] = []"
| "addrinfo_results (EvGetAddrInfo _ _ rc res # es) =
     (if rc = 0 then res # addrinfo_results es else addrinfo_results es)"
| "addrinfo_results (_ # es) = addrinfo_results es"

fun addrinfo_freed :: "event list \<Rightarrow> in_addr_t list list" where
  "addrinfo_freed [] = []"
| "addrinfo_freed (EvFreeAddrInfo res # es) = res # addrinfo_freed es"
| "addrinfo_freed (_ # es) = addrinfo_freed es"

lemma wp_lookupHost [wp_simps]: "wp (lookupHost core host addr) Q s =
   (\<forall>rc res w. core_GetAddrInfo core host AF_INET (world s) = ((rc, res), w) \<longrightarrow>
      (let s1 = s\<lparr>world := w, trace := trace s @ [EvGetAddrInfo host AF_INET rc res]\<rparr>;
           s2 = s\<lparr>world := core_FreeAddrInfo core res w,
                  trace := trace s @ [EvGetAddrInfo host AF_INET rc res, EvFreeAddrInfo res]\<rparr>
       in if rc \<noteq> 0 then Q (-1, addr) s1
          else if res = [] then Q (-1, addr) s2 else Q (0, hd res) s2))"
proof -
  obtain rc res w where "core_GetAddrInfo core host AF_INET (world s) = ((rc, res), w)"
    by (metis prod.exhaust)
  then show ?thesis
    by (cases res) (simp_all add: lookupHost_def call_defs wp_simps Let_def)
qed

section \<open>Properties\<close>

text \<open>
  C32. \<open>lookupHost\<close> asks for the host's IPv4 addresses once. It returns 0 and the first address
  exactly when the resolver succeeded with at least one address, and otherwise -1 with the
  caller's address left alone; the result list of a successful query is freed exactly once and
  nothing else is.
\<close>

theorem lookupHost_resolves:
  assumes "run_state (lookupHost core host addr) s = ((rc, a), s')"
  shows "\<exists>errcode res es. trace s' = trace s @ EvGetAddrInfo host AF_INET errcode res # es \<and>
     rc = (if errcode = 0 \<and> res \<noteq> [] then 0 else -1) \<and> a = (if rc = 0 then hd res else addr) \<and>
     addrinfo_freed es = addrinfo_results [EvGetAddrInfo host AF_INET errcode res] \<and> addrinfo_results es = []"
proof -
  have "wp (lookupHost core host addr) (\<lambda>(rc, a) s'.
     \<exists>errcode res es. trace s' = trace s @ EvGetAddrInfo host AF_INET errcode res # es \<and>
     rc = (if errcode = 0 \<and> res \<noteq> [] then 0 else -1) \<and> a = (if rc = 0 then hd res else addr) \<and>
     addrinfo_freed es = addrinfo_results [EvGetAddrInfo host AF_INET errcode res] \<and> addrinfo_results es = []) s"
    by (auto simp: wp_simps Let_def)
  from wpD [OF this assms] show ?thesis by simp
qed

definition lookup_run :: "(int \<times> in_addr_t) \<times> mock env" where
  "lookup_run = run_state (lookupHost MockSocketCore (Some ''localhost'') 7)
     \<lparr>world = no_script\<lparr>q_GetAddrInfo := [(0, [0x0100007F, 0x0200007F])]\<rparr>, trace = []\<rparr>"

theorem lookupHost_resolves_witness:
  "\<exists>errcode res es. trace (snd lookup_run) = [] @ EvGetAddrInfo (Some ''localhost'') AF_INET errcode res # es \<and>
     0 = (if errcode = 0 \<and> res \<noteq> [] then 0 else (-1 :: int)) \<and> 0x0100007F = hd res \<and>
     addrinfo_freed es = addrinfo_results [EvGetAddrInfo (Some ''localhost'') AF_INET errcode res] \<and>
     addrinfo_results es = []"
proof -
  have "fst lookup_run = (0, 0x0100007F)" by code_simp
  then have "run_state (lookupHost MockSocketCore (Some ''localhost'') 7)
     \<lparr>world = no_script\<lparr>q_GetAddrInfo := [(0, [0x0100007F, 0x0200007F])]\<rparr>, trace = []\<rparr> =
     ((0, 0x0100007F), snd lookup_run)"
    by (metis lookup_run_def prod.collapse)
  from lookupHost_resolves [OF this] show ?thesis by (simp split del: if_split)
qed

end
