(* ===== verification/TcpClient.thy ===== *)
theory TcpClient
  imports AddrLookup Socket_Base MockSocketCore
begin

text \<open>
  \<open>include/sockets-cpp/TcpClient.h\<close>: connecting, sending, shutting down and the receive thread of
  a TCP client, with the contract its callback object has to keep.
\<close>

section \<open>State and construction\<close>

definition TCP_MAX_PACKET_SIZE :: size_t where
  "TCP_MAX_PACKET_SIZE = 65536"

record ('w, 'a) TcpClient = "('w, 'a) sock" +
  m_server :: sockaddr_in

text \<open>\<open>garbage\<close> is the indeterminate value of the uninitialised member \<open>m_server\<close>.\<close>

definition new_TcpClient ::
  "SocketOpt option \<Rightarrow> 'a \<Rightarrow> 'w \<Rightarrow> bool list \<Rightarrow> sockaddr_in \<Rightarrow> ('w, 'a) TcpClient" where
  "new_TcpClient options callback w stores garbage =
     \<lparr>world = w, trace = [], m_sockfd = INVALID_SOCKET, m_stop = False, m_thread = False,
      m_sockOptions = choose_options options, m_callback = callback, stop_stores = stores,
      m_server = garbage\<rparr>"

section \<open>connectTo\<close>

definition connectTo ::
  "platform \<Rightarrow> 'w SocketImpl \<Rightarrow> string option \<Rightarrow> uint16_t \<Rightarrow>
   (('w, 'a) TcpClient, SocketRet outcome) state" where
  "connectTo p core remoteIp remotePort = do {
     State_Monad.update (\<lambda>s. s\<lparr>m_sockfd := INVALID_SOCKET\<rparr>);
     result \<leftarrow> Initialize core;
     if result \<noteq> 0 then
       State_Monad.return (Inr (fail_ret (format_msg p
         (''Error: Socket initializatio failed: '' @ dec_int result)
         (''Error: Socket initialization failed: '' @ dec_int result))))
     else do {
     fd \<leftarrow> Socket core AF_INET SOCK_STREAM 0;
     State_Monad.update (\<lambda>s. s\<lparr>m_sockfd := fd\<rparr>);
     if fd = INVALID_SOCKET then do {
       ret \<leftarrow> errno_ret p core ''Error: Failed to create socket: errno ''
                ''Error: Failed to create socket: '';
       State_Monad.return (Inr ret)
     } else do {
     s \<leftarrow> State_Monad.get;
     rc \<leftarrow> SetSockOpt core (m_sockfd s) SOL_SOCKET SO_RCVBUF (OptInt (m_rxBufSize (m_sockOptions s)));
     if rc < 0 then do {
       ret \<leftarrow> errno_ret p core ''Error: setsockopt(SO_RCVBUF) failed: errno ''
                ''Error: setsockopt(SO_REUSEADDR) failed: '';
       State_Monad.return (Inr ret)
     } else do {
     s \<leftarrow> State_Monad.get;
     rc \<leftarrow> SetSockOpt core (m_sockfd s) SOL_SOCKET SO_SNDBUF (OptInt (m_txBufSize (m_sockOptions s)));
     if rc < 0 then do {
       ret \<leftarrow> errno_ret p core ''Error: setsockopt(SO_SNDBUF) failed: errno ''
                ''Error: setsockopt(SO_SNDBUF) failed: '';
       State_Monad.return (Inr ret)
     } else do {
     s \<leftarrow> State_Monad.get;
     (rc, addr) \<leftarrow> lookupHost core remoteIp (sin_addr (m_server s));
     State_Monad.update (\<lambda>s. s\<lparr>m_server := (m_server s)\<lparr>sin_addr := addr\<rparr>\<rparr>);
     if rc \<noteq> 0 then State_Monad.return (unresolved_host p remoteIp)
     else do {
     State_Monad.update (\<lambda>s. s\<lparr>m_server := (m_server s)\<lparr>sin_family := AF_INET,
       sin_port := htons p remotePort\<rparr>\<rparr>);
     s \<leftarrow> State_Monad.get;
     connectRet \<leftarrow> Connect core (m_sockfd s) (m_server s);
     if connectRet = -1 then do {
       ret \<leftarrow> errno_ret p core ''Error: connect() failed errno '' ''Error: connect() failed errno '';
       State_Monad.return (Inr ret)
     } else
       obind start_thread (\<lambda>_. State_Monad.return (Inr ok_ret))
     }}}}}
   }"

section \<open>sendMsg and finish\<close>

definition TcpClient_sendMsg ::
  "platform \<Rightarrow> 'w SocketImpl \<Rightarrow> bytes \<Rightarrow> size_t \<Rightarrow> (('w, 'a) TcpClient, SocketRet) state" where
  "TcpClient_sendMsg p core msg sz = do {
     s \<leftarrow> State_Monad.get;
     numBytesSent \<leftarrow> Send core (m_sockfd s) msg sz;
     if sint numBytesSent < 0 then
       errno_ret p core ''Error: send() failed errno '' ''Error: send() failed: ''
     else if numBytesSent < sz then
       State_Monad.return (fail_ret (format_msg p
         (''Error: Only '' @ dec_int (sint numBytesSent) @ '' bytes out of '' @
            dec_nat (unat sz) @ '' sent to client'')
         (''Only '' @ dec_int (sint numBytesSent) @ '' bytes out of '' @
            dec_nat (unat sz) @ '' was sent to client'')))
     else State_Monad.return ok_ret
   }"

text \<open>
  \<open>on_thread\<close>: whether the caller is the receive thread itself, which happens when the callback
  object calls \<open>finish\<close>.
\<close>

definition TcpClient_finish :: "'w SocketImpl \<Rightarrow> bool \<Rightarrow> (('w, 'a) TcpClient, unit) state" where
  "TcpClient_finish core on_thread = do {
     State_Monad.update (\<lambda>s. s\<lparr>m_stop := True\<rparr>);
     join_thread on_thread;
     s \<leftarrow> State_Monad.get;
     if m_sockfd s \<noteq> INVALID_SOCKET then do {
       Close core (m_sockfd s);
       State_Monad.update (\<lambda>s. s\<lparr>m_sockfd := INVALID_SOCKET\<rparr>)
     } else
       State_Monad.update (\<lambda>s. s\<lparr>m_sockfd := INVALID_SOCKET\<rparr>)
   }"

text \<open>\<open>~TcpClient\<close>\<close>

definition TcpClient_destroy :: "'w SocketImpl \<Rightarrow> bool \<Rightarrow> (('w, 'a) TcpClient, unit outcome) state" where
  "TcpClient_destroy core on_thread = do {
     TcpClient_finish core on_thread;
     destroy_thread
   }"

section \<open>The receive thread\<close>

text \<open>The interface of the callback object (\<open>CallbackImpl\<close>).\<close>

record 's client_callback =
  onReceiveData :: "bytes \<Rightarrow> ('s, unit outcome) state"
  onDisconnect :: "SocketRet \<Rightarrow> ('s, unit outcome) state"

definition publishServerMsg ::
  "('w, 'a) TcpClient client_callback \<Rightarrow> bytes \<Rightarrow> (('w, 'a) TcpClient, unit outcome) state" where
  "publishServerMsg cb msg = do {
     log_event (EvReceiveData msg);
     onReceiveData cb msg
   }"

definition TcpClient_publishDisconnected ::
  "('w, 'a) TcpClient client_callback \<Rightarrow> SocketRet \<Rightarrow> (('w, 'a) TcpClient, unit outcome) state" where
  "TcpClient_publishDisconnected cb ret = do {
     log_event (EvDisconnect ret);
     onDisconnect cb ret
   }"

text \<open>
  One pass of the loop; the result says whether the loop goes on. \<open>junk\<close> is the indeterminate
  contents of the local array \<open>msg\<close>.
\<close>

definition TcpClient_receive_pass ::
  "platform \<Rightarrow> 'w SocketImpl \<Rightarrow> ('w, 'a) TcpClient client_callback \<Rightarrow> buffer \<Rightarrow>
   (('w, 'a) TcpClient, bool outcome) state" where
  "TcpClient_receive_pass p core cb junk = do {
     s \<leftarrow> State_Monad.get;
     (case FD_SET (m_sockfd s) FD_ZERO of
        None \<Rightarrow> State_Monad.return (Inl (UB ''FD_SET out of range''))
      | Some fds \<Rightarrow> do {
          (selectRet, fds) \<leftarrow> Select core (m_sockfd s + 1) fds (0, USEC_DELAY);
          if selectRet \<le> 0 then do {
            stop \<leftarrow> load_stop;
            State_Monad.return (Inr (\<not> stop))
          } else do {
            s \<leftarrow> State_Monad.get;
            (case FD_ISSET (m_sockfd s) fds of
               None \<Rightarrow> State_Monad.return (Inl (UB ''FD_ISSET out of range''))
             | Some isset \<Rightarrow>
                 if isset then do {
                   (numOfBytesReceived, data) \<leftarrow> Recv core (m_sockfd s) TCP_MAX_PACKET_SIZE;
                   if sint numOfBytesReceived < 1 then do {
                     State_Monad.update (\<lambda>s. s\<lparr>m_stop := True\<rparr>);
                     ret \<leftarrow> (if numOfBytesReceived = 0
                            then State_Monad.return (fail_ret ''Server closed connection'')
                            else errno_ret p core ''Error: recv() failed errno '' ''Error: recv() failed: '');
                     obind (TcpClient_publishDisconnected cb ret)
                       (\<lambda>_. State_Monad.return (Inr False))
                   } else
                     obind (publishServerMsg cb (buf_read (unat numOfBytesReceived) (buf_write data junk)))
                       (\<lambda>_. State_Monad.return (Inr True))
                 } else State_Monad.return (Inr True))
          }
        })
   }"

text \<open>
  The loop may run for as long as the connection lives, so it takes a bound on the number of
  passes; \<open>None\<close> is a run that has not returned within the bound.
\<close>

fun TcpClient_ReceiveTask ::
  "nat \<Rightarrow> platform \<Rightarrow> 'w SocketImpl \<Rightarrow> ('w, 'a) TcpClient client_callback \<Rightarrow> buffer \<Rightarrow>
   (('w, 'a) TcpClient, unit outcome option) state" where
  "TcpClient_ReceiveTask 0 p core cb junk = State_Monad.return None"
| "TcpClient_ReceiveTask (Suc fuel) p core cb junk = do {
     stop \<leftarrow> load_stop;
     if stop then State_Monad.return (Some (Inr ()))
     else do {
       r \<leftarrow> TcpClient_receive_pass p core cb junk;
       (case r of
          Inl a \<Rightarrow> State_Monad.return (Some (Inl a))
        | Inr goes_on \<Rightarrow>
            if goes_on then TcpClient_ReceiveTask fuel p core cb junk
            else State_Monad.return (Some (Inr ())))
     }
   }"

section \<open>connectTo is a staged set-up\<close>

definition connect_stages ::
  "platform \<Rightarrow> 'w SocketImpl \<Rightarrow> string option \<Rightarrow> uint16_t \<Rightarrow> ('w, 'a) TcpClient stage list" where
  "connect_stages p core remoteIp remotePort =
    [\<lparr>st_call = Initialize core, st_bad = (\<lambda>r. r \<noteq> 0),
      st_fail = (\<lambda>r. State_Monad.return (Inr (fail_ret (format_msg p
         (''Error: Socket initializatio failed: '' @ dec_int r)
         (''Error: Socket initialization failed: '' @ dec_int r)))))\<rparr>,
     errno_stage p core
       (do { fd \<leftarrow> Socket core AF_INET SOCK_STREAM 0;
             State_Monad.update (\<lambda>s. s\<lparr>m_sockfd := fd\<rparr>); State_Monad.return fd })
       (\<lambda>r. r = INVALID_SOCKET)
       ''Error: Failed to create socket: errno '' ''Error: Failed to create socket: '',
     errno_stage p core
       (do { s \<leftarrow> State_Monad.get;
             SetSockOpt core (m_sockfd s) SOL_SOCKET SO_RCVBUF (OptInt (m_rxBufSize (m_sockOptions s))) })
       (\<lambda>r. r < 0)
       ''Error: setsockopt(SO_RCVBUF) failed: errno '' ''Error: setsockopt(SO_REUSEADDR) failed: '',
     errno_stage p core
       (do { s \<leftarrow> State_Monad.get;
             SetSockOpt core (m_sockfd s) SOL_SOCKET SO_SNDBUF (OptInt (m_txBufSize (m_sockOptions s))) })
       (\<lambda>r. r < 0)
       ''Error: setsockopt(SO_SNDBUF) failed: errno '' ''Error: setsockopt(SO_SNDBUF) failed: '',
     \<lparr>st_call = do { s \<leftarrow> State_Monad.get;
                    (rc, addr) \<leftarrow> lookupHost core remoteIp (sin_addr (m_server s));
                    State_Monad.update (\<lambda>s. s\<lparr>m_server := (m_server s)\<lparr>sin_addr := addr\<rparr>\<rparr>);
                    State_Monad.return rc },
      st_bad = (\<lambda>r. r \<noteq> 0),
      st_fail = (\<lambda>_. State_Monad.return (unresolved_host p remoteIp))\<rparr>,
     errno_stage p core
       (do { State_Monad.update (\<lambda>s. s\<lparr>m_server := (m_server s)\<lparr>sin_family := AF_INET,
               sin_port := htons p remotePort\<rparr>\<rparr>);
             s \<leftarrow> State_Monad.get;
             Connect core (m_sockfd s) (m_server s) })
       (\<lambda>r. r = -1)
       ''Error: connect() failed errno '' ''Error: connect() failed errno '']"

definition connect_planned :: "string list list" where
  "connect_planned = [[''Initialize''], [''Socket''], [''SO_RCVBUF''], [''SO_SNDBUF''],
     [''GetAddrInfo'', ''FreeAddrInfo''], [''Connect'']]"

lemma connectTo_staged: "connectTo p core remoteIp remotePort =
   State_Monad.bind (State_Monad.update (\<lambda>s. s\<lparr>m_sockfd := INVALID_SOCKET\<rparr>))
     (\<lambda>_. run_stages (connect_stages p core remoteIp remotePort)
        (obind start_thread (\<lambda>_. State_Monad.return (Inr ok_ret))))"
  by (simp add: connectTo_def connect_stages_def errno_stage_def case_prod_beta' cong: if_cong)

lemma connect_stages_ok:
  "list_all2 stage_ok (connect_stages p core remoteIp remotePort) connect_planned"
  unfolding connect_stages_def connect_planned_def errno_stage_def list.rel_inject
  by (intro conjI stage_okI; auto simp: wp_simps call_defs Let_def)

interpretation client_setup: staged_setup
  "connectTo p core remoteIp remotePort" "\<lambda>s. s\<lparr>m_sockfd := INVALID_SOCKET\<rparr>"
  "connect_stages p core remoteIp remotePort" connect_planned
  "obind start_thread (\<lambda>_. State_Monad.return (Inr ok_ret))" "[''thread'']"
  for p core remoteIp remotePort
  by unfold_locales (simp_all add: connectTo_staged connect_stages_ok start_thread_last)

section \<open>What a callback may do, and what the receive thread promises\<close>

text \<open>
  The promise: every \<open>recv\<close> that returns data is followed by one \<open>onReceiveData\<close> with exactly
  these bytes, a \<open>recv\<close> that returns 0 or fails is followed by one \<open>onDisconnect\<close>, and nothing
  comes after that.
\<close>

fun deliver_spec :: "event list \<Rightarrow> bool" where
  "deliver_spec [] = True"
| "deliver_spec (EvRecv _ _ n data # EvReceiveData d # es) =
     (1 \<le> sint n \<and> d = data \<and> deliver_spec es)"
| "deliver_spec (EvRecv _ _ n data # EvDisconnect ret # es) =
     (sint n < 1 \<and> \<not> m_success ret \<and> es = [])"
| "deliver_spec _ = False"

lemma deliver_spec_data: "1 \<le> sint n \<Longrightarrow>
   deliver_spec (EvRecv fd len n data # EvReceiveData data # es) = deliver_spec es"
  by simp

locale polite_callback = polite_receiver "onReceiveData cb"
  for cb :: "('w, 'a) TcpClient client_callback" +
  assumes disconnect_polite: "run_state (onDisconnect cb ret) s = (r, s') \<Longrightarrow> polite s s'"
begin

text \<open>
  One pass adds either nothing loud, or a \<open>recv\<close> with the callback it calls for; it goes on
  only in the first case and after data.
\<close>

definition pass_chunk :: "bool outcome \<Rightarrow> event list \<Rightarrow> bool" where
  "pass_chunk r es \<longleftrightarrow>
     filter loud es = [] \<or>
     (\<exists>fd len n data. 1 \<le> sint n \<and> filter loud es = [EvRecv fd len n data, EvReceiveData data]) \<or>
     (r \<noteq> Inr True \<and> (\<exists>fd len n data ret. sint n < 1 \<and> \<not> m_success ret \<and>
        filter loud es = [EvRecv fd len n data, EvDisconnect ret]))"

definition pass_post :: "('w, 'a) TcpClient \<Rightarrow> bool outcome \<Rightarrow> ('w, 'a) TcpClient \<Rightarrow> bool" where
  "pass_post s r s' \<longleftrightarrow> (\<exists>es. trace s' = trace s @ es \<and> owned (trace s') = owned (trace s) \<and> pass_chunk r es)"

lemma silent_post:
  "trace s' = trace s \<or> (\<exists>n i x d. trace s' = trace s @ [EvSelect n i x d]) \<Longrightarrow> pass_post s r s'"
  by (auto simp: pass_post_def pass_chunk_def)

lemma data_post:
  assumes "polite (s\<lparr>world := w, trace := trace s @ [EvSelect nfds asked x ready, EvRecv fd len n data,
      EvReceiveData (buf_read (unat n) (buf_write data junk))]\<rparr>) s'"
    and "posix_trace (trace s')" and "\<not> sint n < 1"
  shows "pass_post s r s'"
proof -
  let ?recv = "EvRecv fd len n data" and ?sel = "EvSelect nfds asked x ready"
  obtain qs where qs:
    "trace s' = trace s @ [?sel, ?recv, EvReceiveData (buf_read (unat n) (buf_write data junk))] @ qs"
    "filter loud qs = []" "owned (trace s') = owned (trace s)"
    using polite_traces [OF assms(1)] by (auto simp: owned_def)
  then have "posix_trace ((trace s @ [?sel]) @
      ?recv # EvReceiveData (buf_read (unat n) (buf_write data junk)) # qs)"
    using assms(2) by simp
  from posix_trace_mem [OF this] have "buf_read (unat n) (buf_write data junk) = data"
    using assms(3) by (auto simp: buf_read_write)
  with assms(3) qs show ?thesis
    unfolding pass_post_def pass_chunk_def
    by (intro exI [of _ "[?sel, ?recv, EvReceiveData data] @ qs"]) auto
qed

lemma disconnect_post:
  assumes "polite t s'" and "r \<noteq> Inr True"
    and "\<exists>nfds asked x ready fd len n data msg. sint n < 1 \<and> trace t =
      trace s @ [EvSelect nfds asked x ready, EvRecv fd len n data, EvDisconnect (fail_ret msg)]"
  shows "pass_post s r s'"
proof -
  obtain nfds asked x ready fd len n data msg where n: "sint n < 1" and
    t: "trace t = trace s @ [EvSelect nfds asked x ready, EvRecv fd len n data, EvDisconnect (fail_ret msg)]"
    using assms(3) by blast
  obtain qs where "trace s' = trace t @ qs" "filter loud qs = []" "owned (trace s') = owned (trace t)"
    using polite_traces [OF assms(1)] by auto
  with n t assms(2) show ?thesis
    unfolding pass_post_def pass_chunk_def
    by (intro exI [of _ "[EvSelect nfds asked x ready, EvRecv fd len n data, EvDisconnect (fail_ret msg)] @ qs"])
      (auto simp: owned_def)
qed

lemma wp_onDisconnect:
  assumes "\<And>r s'. polite s s' \<Longrightarrow> Q r s'"
  shows "wp (onDisconnect cb ret) Q s"
  by (rule wpI) (blast intro: assms disconnect_polite)

lemma receive_pass_post:
  "wp (TcpClient_receive_pass p core cb junk)
     (\<lambda>r s'. posix_trace (trace s') \<longrightarrow> pass_post s r s') s"
  unfolding TcpClient_receive_pass_def publishServerMsg_def TcpClient_publishDisconnected_def
  by (auto simp: wp_simps call_defs split: option.splits list.splits sum.splits
        intro!: wp_on_data wp_onDisconnect)
    ((erule data_post; simp) | (erule disconnect_post; simp) | (rule silent_post; simp))+

lemma receive_pass_stores:
  "wp (TcpClient_receive_pass p core cb junk) (\<lambda>r t. r = Inr True \<longrightarrow>
     length (stop_stores t) \<le> length (stop_stores s) \<and>
     (True \<in> set (stop_stores s) \<longrightarrow> True \<in> set (stop_stores t))) s"
  unfolding TcpClient_receive_pass_def publishServerMsg_def TcpClient_publishDisconnected_def
  by (auto simp: wp_simps call_defs polite_def split: option.splits list.splits sum.splits
      intro!: wp_on_data wp_onDisconnect)

end

sublocale polite_callback \<subseteq> client_loop: receive_loop
  "\<lambda>fuel. TcpClient_ReceiveTask fuel p core cb junk" "TcpClient_receive_pass p core cb junk"
  for p core junk
  by unfold_locales (simp_all add: receive_pass_stores)

context polite_callback
begin

lemmas ReceiveTask_returns = client_loop.task_returns

text \<open>The whole loop keeps the promise, however it ends.\<close>

lemma ReceiveTask_promise:
  "wp (TcpClient_ReceiveTask fuel p core cb junk) (\<lambda>r s'. posix_trace (trace s') \<longrightarrow>
     (\<exists>es. trace s' = trace s @ es \<and> deliver_spec (filter loud es))) s"
proof (rule client_loop.task_promise [where chunk = pass_chunk])
  fix s :: "('w, 'a) TcpClient"
  show "wp (TcpClient_receive_pass p core cb junk) (\<lambda>r t. posix_trace (trace t) \<longrightarrow>
      (\<exists>es. trace t = trace s @ es \<and> pass_chunk r es)) s"
    by (rule wp_mono [OF receive_pass_post]) (auto simp: pass_post_def)
qed (auto simp: pass_chunk_def)

end

section \<open>Histories of a client\<close>

text \<open>
  The operations of a client in any order. \<open>connectTo\<close> is called only while the client holds no
  socket, which is what a caller has to keep to.
\<close>

inductive client_step ::
  "platform \<Rightarrow> 'w SocketImpl \<Rightarrow> ('w, 'a) TcpClient client_callback \<Rightarrow> buffer \<Rightarrow>
   ('w, 'a) TcpClient \<Rightarrow> ('w, 'a) TcpClient \<Rightarrow> bool"
  for p core cb junk where
  connect: "m_sockfd s = INVALID_SOCKET \<Longrightarrow> run_state (connectTo p core remoteIp remotePort) s = (r, s') \<Longrightarrow>
     client_step p core cb junk s s'"
| send: "run_state (TcpClient_sendMsg p core msg sz) s = (ret, s') \<Longrightarrow> client_step p core cb junk s s'"
| receive: "run_state (TcpClient_receive_pass p core cb junk) s = (ok, s') \<Longrightarrow> client_step p core cb junk s s'"
| finish: "run_state (TcpClient_finish core on_thread) s = (u, s') \<Longrightarrow> client_step p core cb junk s s'"

definition client_holds :: "('w, 'a) TcpClient \<Rightarrow> int set" where
  "client_holds s = {m_sockfd s} - {INVALID_SOCKET}"

lemma wp_finish [wp_simps]: "wp (TcpClient_finish core on_thread) Q s =
   (let t = (if m_thread s \<and> \<not> on_thread then s\<lparr>m_stop := True, m_thread := False\<rparr> else s\<lparr>m_stop := True\<rparr>)
    in if m_sockfd s = INVALID_SOCKET then Q () (t\<lparr>m_sockfd := INVALID_SOCKET\<rparr>)
       else (\<forall>r w. core_Close core (m_sockfd s) (world s) = (r, w) \<longrightarrow>
          Q () (t\<lparr>world := w, trace := trace s @ [EvClose (m_sockfd s) r], m_sockfd := INVALID_SOCKET\<rparr>)))"
  by (auto simp: TcpClient_finish_def wp_simps call_defs)

lemma connectTo_owned:
  "wp (connectTo p core remoteIp remotePort) (\<lambda>r s'.
     owned (trace s') = owned (trace s) \<union> client_holds s' \<and> prefix (trace s) (trace s') \<and>
     (posix_trace (trace s') \<longrightarrow> m_sockfd s' \<notin> owned (trace s))) s"
  unfolding connectTo_def
  by (auto simp: wp_simps call_defs Let_def client_holds_def trace_simps)

lemma connectTo_frame:
  "wp (connectTo p core remoteIp remotePort) (\<lambda>r s'. m_stop s' = m_stop s \<and>
     (r = Inl Terminate \<longrightarrow> m_thread s) \<and> (succeeded r \<longrightarrow> \<not> m_thread s \<and> m_thread s')) s"
  unfolding connectTo_def
  by (auto simp: wp_simps call_defs Let_def unresolved_host_def split: option.split)

lemma connectTo_holds:
  "wp (connectTo p core remoteIp remotePort) (\<lambda>r s'. succeeded r \<longrightarrow> m_sockfd s' \<noteq> INVALID_SOCKET) s"
  unfolding connectTo_def
  by (auto simp: wp_simps call_defs Let_def unresolved_host_def split: option.split)

lemma sendMsg_event:
  "wp (TcpClient_sendMsg p core msg sz) (\<lambda>ret s'. \<exists>n w. s' = s\<lparr>world := w, trace := trace s @
      [EvSend (m_sockfd s) msg sz n]\<rparr> \<and> (m_success ret \<longleftrightarrow> \<not> sint n < 0 \<and> \<not> n < sz)) s"
  unfolding TcpClient_sendMsg_def by (auto simp: wp_simps call_defs)

context polite_callback
begin

lemma receive_pass_owned:
  "wp (TcpClient_receive_pass p core cb junk) (\<lambda>r s'. prefix (trace s) (trace s') \<and>
     owned (trace s') = owned (trace s) \<and> m_sockfd s' = m_sockfd s) s"
  unfolding TcpClient_receive_pass_def publishServerMsg_def TcpClient_publishDisconnected_def
  by (auto simp: wp_simps call_defs trace_simps split: option.splits list.splits sum.splits
      intro!: wp_on_data wp_onDisconnect dest!: polite_owned)

lemma client_step_prefix: "client_step p core cb junk s s' \<Longrightarrow> prefix (trace s) (trace s')"
proof (induction rule: client_step.induct)
  case (connect s remoteIp remotePort r s')
  from wpD [OF connectTo_owned this(2)] show ?case by simp
next
  case (send msg sz s ret s')
  from wpD [OF sendMsg_event this] show ?case by auto
next
  case (receive s ok s')
  from wpD [OF receive_pass_owned this] show ?case by simp
next
  case (finish on_thread s u s')
  have "wp (TcpClient_finish core on_thread) (\<lambda>_ s'. prefix (trace s) (trace s')) s"
    by (simp add: wp_simps Let_def)
  from wpD [OF this finish] show ?case .
qed

lemma client_step_balance:
  assumes "client_step p core cb junk s s'" and "posix_trace (trace s')"
    and "owned (trace s) = B \<union> client_holds s" and "B \<inter> client_holds s = {}"
  shows "owned (trace s') = B \<union> client_holds s' \<and> B \<inter> client_holds s' = {}"
  using assms
proof (induction rule: client_step.induct)
  case (connect s remoteIp remotePort r s')
  from wpD [OF connectTo_owned connect.hyps(2)] connect show ?case
    by (auto simp: client_holds_def)
next
  case (send msg sz s ret s')
  from wpD [OF sendMsg_event send.hyps] send show ?case
    by (auto simp: client_holds_def)
next
  case (receive s ok s')
  from wpD [OF receive_pass_owned receive.hyps] receive show ?case
    by (auto simp: client_holds_def)
next
  case (finish on_thread s u s')
  have "wp (TcpClient_finish core on_thread) (\<lambda>_ s'. client_holds s' = {} \<and>
      owned (trace s') = owned (trace s) - client_holds s) s"
    by (auto simp: wp_simps Let_def client_holds_def)
  from wpD [OF this finish.hyps] finish show ?case
    by auto
qed

end

sublocale polite_callback \<subseteq> client_owner: descriptor_owner "client_step p core cb junk" client_holds "\<lambda>_. True"
  for p core junk
  by unfold_locales (use client_step_prefix client_step_balance in blast)+

context polite_callback
begin

lemmas client_no_leak = client_owner.no_leak

end

section \<open>The unit tests' callback object\<close>

text \<open>\<open>TcpClientTestApp\<close> of \<open>test/test_TcpClient.cpp\<close>: it keeps the last data received.\<close>

record TcpClientTestApp =
  m_receiveData :: string
  m_disconnected :: bool

definition TcpClientTestApp_callback :: "('w, TcpClientTestApp) TcpClient client_callback" where
  "TcpClientTestApp_callback =
     \<lparr>onReceiveData = (\<lambda>data. do {
        State_Monad.update (\<lambda>s. s\<lparr>m_callback := (m_callback s)\<lparr>m_receiveData := data\<rparr>\<rparr>);
        State_Monad.return (Inr ()) }),
      onDisconnect = (\<lambda>_. do {
        State_Monad.update (\<lambda>s. s\<lparr>m_callback := (m_callback s)\<lparr>m_disconnected := True\<rparr>\<rparr>);
        State_Monad.return (Inr ()) })\<rparr>"

definition test_client :: "mock \<Rightarrow> bool list \<Rightarrow> (mock, TcpClientTestApp) TcpClient" where
  "test_client script stores =
     new_TcpClient None \<lparr>m_receiveData = [], m_disconnected = False\<rparr> script stores sockaddr_zero"

text \<open>
  A session: \<open>connectTo\<close> succeeds on socket 4, one message arrives, then the server closes.
\<close>

definition session_script :: mock where
  "session_script = no_script\<lparr>q_Socket := [4], q_GetAddrInfo := [(0, [0x0100007F])],
     q_Select := [(1, 16), (1, 16)], q_Recv := [(5, ''hello''), (0, [])]\<rparr>"

definition connected_client :: "(mock, TcpClientTestApp) TcpClient" where
  "connected_client = snd (run_state (connectTo example_platform MockSocketCore (Some ''localhost'') 5000)
     (test_client session_script [False, False, True]))"

definition finished_session :: "unit outcome option \<times> (mock, TcpClientTestApp) TcpClient" where
  "finished_session = run_state (TcpClient_ReceiveTask 3 example_platform MockSocketCore
     TcpClientTestApp_callback (\<lambda>_. CHR ''?'')) connected_client"

lemma test_callback_polite:
  "run_state (onReceiveData TcpClientTestApp_callback data) s = (r, s') \<Longrightarrow> polite s s'"
  "run_state (onDisconnect TcpClientTestApp_callback ret) s = (r, s') \<Longrightarrow> polite s s'"
  by (auto simp: TcpClientTestApp_callback_def polite_def)

interpretation test_app: polite_callback "TcpClientTestApp_callback :: ('w, TcpClientTestApp) TcpClient client_callback"
  by unfold_locales (fact test_callback_polite)+

section \<open>Properties\<close>



text \<open>
  \<open>sendMsg\<close> makes one \<open>send\<close> on the client's socket and reports success exactly when the
  kernel took the whole message; a partial send or an error is a failure.
\<close>

lemma TcpClient_sendMsg_complete:
  assumes "run_state (TcpClient_sendMsg p core msg sz) s = (ret, s')" and "posix_trace (trace s')"
    and "0 \<le> sint sz"
  shows "\<exists>n. trace s' = trace s @ [EvSend (m_sockfd s) msg sz n] \<and> (m_success ret \<longleftrightarrow> n = sz)"
proof -
  from wpD [OF sendMsg_event assms(1)] obtain n where
    n: "trace s' = trace s @ [EvSend (m_sockfd s) msg sz n]" "m_success ret \<longleftrightarrow> \<not> sint n < 0 \<and> \<not> n < sz"
    by auto
  with assms(2) have "n = -1 \<or> n \<le> sz" by simp
  with n show ?thesis
    using complete_send_iff [OF assms(3)] by blast
qed

definition send_script :: mock where
  "send_script = no_script\<lparr>q_Send := [5]\<rparr>"

text \<open>
  C6. The receive thread hands every chunk it receives to \<open>onReceiveData\<close>, in order, unchanged
  and with none of the buffer's old contents; it calls \<open>onDisconnect\<close> once, when the peer has
  closed or \<open>recv\<close> failed, and makes no further \<open>recv\<close> and no callback after that. This holds
  for any callback object that keeps its side of the contract.
\<close>

theorem TcpClient_ReceiveTask_delivers:
  assumes "polite_callback cb" and "run_state (TcpClient_ReceiveTask fuel p core cb junk) s = (r, s')"
    and "posix_trace (trace s')"
  shows "\<exists>es. trace s' = trace s @ es \<and> deliver_spec (filter loud es)"
  using wpD [OF polite_callback.ReceiveTask_promise [OF assms(1)] assms(2)] assms(3) by blast

theorem TcpClient_ReceiveTask_delivers_witness:
  "(\<exists>es. trace (snd finished_session) = trace connected_client @ es \<and> deliver_spec (filter loud es)) \<and>
   m_receiveData (m_callback (snd finished_session)) = ''hello'' \<and>
   m_disconnected (m_callback (snd finished_session))"
proof -
  have "posix_trace (trace (snd finished_session))" by code_simp
  from TcpClient_ReceiveTask_delivers [OF test_app.polite_callback_axioms
      prod.collapse [symmetric, of finished_session, unfolded finished_session_def]
      this [unfolded finished_session_def]]
  have "\<exists>es. trace (snd finished_session) = trace connected_client @ es \<and> deliver_spec (filter loud es)"
    by (simp only: finished_session_def)
  moreover have "m_receiveData (m_callback (snd finished_session)) = ''hello''"
    "m_disconnected (m_callback (snd finished_session))"
    by code_simp+
  ultimately show ?thesis by simp
qed

text \<open>
  The receive thread ends: once another thread has stored \<open>true\<close> in \<open>m_stop\<close>, the loop
  returns after at most as many passes as it makes loads of the flag until then.
\<close>

lemma TcpClient_ReceiveTask_terminates:
  assumes "polite_callback cb" and "True \<in> set (stop_stores s)" and "length (stop_stores s) \<le> fuel"
  shows "\<exists>ending. fst (run_state (TcpClient_ReceiveTask fuel p core cb junk) s) = Some ending"
  using polite_callback.ReceiveTask_returns [OF assms] by (simp add: wp_run)

text \<open>
  C19. No descriptor leaks: after any history of a client in which \<open>connectTo\<close> is only called while
  no socket is held, the destructor returns normally when it runs outside the receive thread, and
  then every descriptor the client opened has been closed and no other descriptor has.
\<close>

theorem TcpClient_no_leak:
  assumes "polite_callback cb" and "(client_step p core cb junk)\<^sup>*\<^sup>* s s'" and "m_sockfd s = INVALID_SOCKET"
    and "run_state (TcpClient_destroy core False) s' = (r, t)" and "posix_trace (trace t)"
  shows "r = Inr () \<and> owned (trace t) = owned (trace s)"
proof -
  obtain u f where f: "run_state (TcpClient_finish core False) s' = (u, f)"
    by (cases "run_state (TcpClient_finish core False) s'") simp
  have idle: "\<not> m_thread f \<and> m_sockfd f = INVALID_SOCKET"
    using wpD [OF _ f, of "\<lambda>_ f. \<not> m_thread f \<and> m_sockfd f = INVALID_SOCKET"] by (simp add: wp_finish Let_def)
  then have t: "r = Inr () \<and> t = f"
    using assms(4) f by (simp add: TcpClient_destroy_def destroy_thread_def)
  have "(client_step p core cb junk)\<^sup>*\<^sup>* s f"
    using assms(2) client_step.finish [OF f] by (rule rtranclp.rtrancl_into_rtrancl)
  with polite_callback.client_no_leak [OF assms(1) this] t idle assms(3,5) show ?thesis
    by (simp add: client_holds_def)
qed

definition destroyed_client :: "unit outcome \<times> (mock, TcpClientTestApp) TcpClient" where
  "destroyed_client = run_state (TcpClient_destroy MockSocketCore False) connected_client"

theorem TcpClient_no_leak_witness:
  "4 \<in> owned (trace connected_client) \<and> fst destroyed_client = Inr () \<and>
   owned (trace (snd destroyed_client)) = owned (trace (test_client session_script [False, False, True]))"
proof -
  let ?step = "client_step example_platform MockSocketCore TcpClientTestApp_callback (\<lambda>_. CHR ''?'')"
  have "?step (test_client session_script [False, False, True]) connected_client"
    unfolding connected_client_def
    by (rule client_step.connect [OF _ prod.collapse [symmetric]])
      (simp add: test_client_def new_TcpClient_def)
  then have "?step\<^sup>*\<^sup>* (test_client session_script [False, False, True]) connected_client"
    by (rule r_into_rtranclp)
  moreover have "posix_trace (trace (snd destroyed_client))" and owned: "4 \<in> owned (trace connected_client)" by code_simp+
  ultimately have "fst destroyed_client = Inr () \<and>
      owned (trace (snd destroyed_client)) = owned (trace (test_client session_script [False, False, True]))"
    by (intro TcpClient_no_leak [OF test_app.polite_callback_axioms _ _
          prod.collapse [symmetric, of destroyed_client, unfolded destroyed_client_def], folded destroyed_client_def])
      (simp_all add: test_client_def new_TcpClient_def)
  with owned show ?thesis by blast
qed

text \<open>
  The condition of the previous property is needed: \<open>connectTo\<close> on a client that still holds
  a socket overwrites the member first, and the old descriptor stays open with nothing left to
  refer to it.
\<close>

lemma connectTo_leaks_held_socket:
  assumes "run_state (connectTo p core remoteIp remotePort) s = (r, s')" and "posix_trace (trace s')"
    and "m_sockfd s \<in> owned (trace s)"
  shows "m_sockfd s \<in> owned (trace s') \<and> m_sockfd s \<notin> client_holds s'"
  using wpD [OF connectTo_owned assms(1)] assms(2,3) by (auto simp: client_holds_def)

definition failed_connect :: "(mock, TcpClientTestApp) TcpClient" where
  "failed_connect = snd (run_state (connectTo example_platform MockSocketCore (Some ''localhost'') 5000)
     (test_client (no_script\<lparr>q_Socket := [4, 5], q_GetAddrInfo := [(0, [0x0100007F]), (0, [0x0100007F])],
        q_Connect := [-1, 0]\<rparr>) []))"

definition retried_connect :: "(mock, TcpClientTestApp) TcpClient" where
  "retried_connect = snd (run_state (connectTo example_platform MockSocketCore (Some ''localhost'') 5000)
     failed_connect)"

text \<open>
  \<open>finish\<close> leaves the client stopped, without a socket and, unless the receive thread itself
  called it, without a thread; it closes the socket it held and nothing else, and a second
  \<open>finish\<close> makes no call.
\<close>

theorem TcpClient_finish_effect:
  assumes "run_state (TcpClient_finish core on_thread) s = (u, s')"
    and "run_state (TcpClient_finish core again) s' = (u', s'')"
  shows "m_stop s' \<and> m_sockfd s' = INVALID_SOCKET \<and> (m_thread s' \<longleftrightarrow> m_thread s \<and> on_thread) \<and>
     owned (trace s') = owned (trace s) - {m_sockfd s} \<and> trace s'' = trace s'"
proof -
  have "wp (TcpClient_finish core on_thread) (\<lambda>_ t. m_stop t \<and> m_sockfd t = INVALID_SOCKET \<and>
      (m_thread t \<longleftrightarrow> m_thread s \<and> on_thread) \<and> owned (trace t) = owned (trace s) - {m_sockfd s}) s"
    by (auto simp: wp_simps Let_def)
  note first = wpD [OF this assms(1)]
  then have "wp (TcpClient_finish core again) (\<lambda>_ t. trace t = trace s') s'"
    by (simp add: wp_simps Let_def)
  from wpD [OF this assms(2)] first show ?thesis by simp
qed

definition closed_client :: "(mock, TcpClientTestApp) TcpClient" where
  "closed_client = snd (run_state (TcpClient_finish MockSocketCore False) connected_client)"

theorem TcpClient_finish_effect_witness:
  "m_stop closed_client \<and> m_sockfd closed_client = INVALID_SOCKET \<and>
   (m_thread closed_client \<longleftrightarrow> m_thread connected_client \<and> False) \<and>
   owned (trace closed_client) = owned (trace connected_client) - {m_sockfd connected_client} \<and>
   trace (snd (run_state (TcpClient_finish MockSocketCore False) closed_client)) = trace closed_client"
  unfolding closed_client_def
  by (rule TcpClient_finish_effect [OF prod.collapse [symmetric] prod.collapse [symmetric]])

text \<open>
  \<open>finish\<close> sets \<open>m_stop\<close> and nothing clears it, so a client that is connected again after
  \<open>finish\<close> reports success and receives nothing: its new receive thread returns before its
  first \<open>select\<close>.
\<close>

lemma reconnect_receives_nothing:
  assumes "run_state (TcpClient_finish core False) s = (u, t)"
    and "run_state (connectTo p core remoteIp remotePort) t = (r, v)"
    and "run_state (TcpClient_ReceiveTask (Suc fuel) p core cb junk) v = (ending, v')"
  shows "ending = Some (Inr ()) \<and> trace v' = trace v"
proof -
  have "wp (TcpClient_finish core False) (\<lambda>_ t. m_stop t) s"
    by (simp add: wp_simps Let_def)
  from wpD [OF this assms(1)] have "m_stop v"
    using wpD [OF connectTo_frame assms(2)] by simp
  then have "wp (TcpClient_ReceiveTask (Suc fuel) p core cb junk) (\<lambda>r v'. r = Some (Inr ()) \<and> trace v' = trace v) v"
    by (simp add: wp_simps split: list.split)
  from wpD [OF this assms(3)] show ?thesis .
qed

definition finished_client :: "(mock, TcpClientTestApp) TcpClient" where
  "finished_client = snd (run_state (TcpClient_finish MockSocketCore False) (test_client
     (no_script\<lparr>q_Socket := [4], q_GetAddrInfo := [(0, [0x0100007F])], q_Select := [(1, 16)],
        q_Recv := [(5, ''hello'')]\<rparr>) []))"

definition reconnected_client :: "(mock, TcpClientTestApp) TcpClient" where
  "reconnected_client =
     snd (run_state (connectTo example_platform MockSocketCore (Some ''localhost'') 5000) finished_client)"

definition reconnected_task :: "unit outcome option \<times> (mock, TcpClientTestApp) TcpClient" where
  "reconnected_task = run_state (TcpClient_ReceiveTask (Suc 0) example_platform MockSocketCore
     TcpClientTestApp_callback (\<lambda>_. CHR ''?'')) reconnected_client"



end
