(* ===== verification/UdpSocket.thy ===== *)
theory UdpSocket
  imports AddrLookup Socket_Base MockSocketCore
begin

text \<open>
  \<open>include/sockets-cpp/UdpSocket.h\<close>: multicast and unicast set-up, sending, shutting down and the
  receive thread of a UDP socket. The member \<open>m_fd\<close> is the shared field \<open>m_sockfd\<close>.
\<close>

section \<open>State and construction\<close>

definition UDP_MAX_PACKET_SIZE :: size_t where
  "UDP_MAX_PACKET_SIZE = 65507"

record ('w, 'a) UdpSocket = "('w, 'a) sock" +
  m_sockaddr :: sockaddr_in

definition new_UdpSocket :: "SocketOpt option \<Rightarrow> 'a \<Rightarrow> 'w \<Rightarrow> bool list \<Rightarrow> ('w, 'a) UdpSocket" where
  "new_UdpSocket options callback w stores =
     \<lparr>world = w, trace = [], m_sockfd = INVALID_SOCKET, m_stop = False, m_thread = False,
      m_sockOptions = choose_options options, m_callback = callback, stop_stores = stores,
      m_sockaddr = sockaddr_zero\<rparr>"

text \<open>
  \<open>inet_pton(AF_INET, text, &dst)\<close>: \<open>dst\<close> keeps its value when \<open>text\<close> is no address.
\<close>

definition pton_into :: "platform \<Rightarrow> string \<Rightarrow> in_addr_t \<Rightarrow> in_addr_t" where
  "pton_into p text dst = (case inet_pton p text of None \<Rightarrow> dst | Some a \<Rightarrow> a)"

text \<open>The message of a failed \<open>Initialize\<close>, the same in all three set-up operations.\<close>

definition udp_init_failed :: "platform \<Rightarrow> int \<Rightarrow> SocketRet" where
  "udp_init_failed p result = fail_ret (format_msg p
     (''Error: Socket initialization failed: '' @ dec_int result)
     (''Error: Socket initialization failed: '' @ dec_int result))"

section \<open>startMcast\<close>

text \<open>
  The local \<open>in_addr addr\<close> of the last \<open>setsockopt\<close> is uninitialised (\<open>None\<close>) unless a local
  address was given and is valid: without one the code assigns to \<open>mreq\<close> a second time instead.
\<close>

definition startMcast ::
  "platform \<Rightarrow> 'w SocketImpl \<Rightarrow> string option \<Rightarrow> uint16_t \<Rightarrow> string option \<Rightarrow>
   (('w, 'a) UdpSocket, SocketRet outcome) state" where
  "startMcast p core mcastAddr port localIpAddr = do {
     result \<leftarrow> Initialize core;
     if result \<noteq> 0 then State_Monad.return (Inr (udp_init_failed p result))
     else do {
     fd \<leftarrow> Socket core AF_INET SOCK_DGRAM 0;
     State_Monad.update (\<lambda>s. s\<lparr>m_sockfd := fd\<rparr>);
     if fd = INVALID_SOCKET then do {
       ret \<leftarrow> errno_ret p core ''Error: socket() failed: errno '' ''Error: socket() failed: '';
       State_Monad.return (Inr ret)
     } else do {
     s \<leftarrow> State_Monad.get;
     rc \<leftarrow> SetSockOpt core (m_sockfd s) SOL_SOCKET SO_REUSEADDR (OptInt 1);
     if rc < 0 then do {
       ret \<leftarrow> errno_ret p core ''Error: setsockopt(SO_REUSEADDR) failed: errno ''
                ''Error: setsockopt(SO_REULSEADDR) failed: '';
       State_Monad.return (Inr ret)
     } else do {
     s \<leftarrow> State_Monad.get;
     rc \<leftarrow> SetSockOpt core (m_sockfd s) SOL_SOCKET SO_RCVBUF (OptInt (m_rxBufSize (m_sockOptions s)));
     if rc < 0 then do {
       ret \<leftarrow> errno_ret p core ''Error: setsockopt(SO_RCVBUF) failed: errno ''
                ''Error: setsockopt(SO_RCVBUF) failed: '';
       State_Monad.return (Inr ret)
     } else do {
     s \<leftarrow> State_Monad.get;
     rc \<leftarrow> SetSockOpt core (m_sockfd s) SOL_SOCKET SO_SNDBUF (OptInt (m_txBufSize (m_sockOptions s)));
     if rc < 0 then do {
       ret \<leftarrow> errno_ret p core ''Error: setsockopt(SO_SNDBUF) failed: errno ''
                ''Error: setsockopt(SO_SNDBUF) failed: '';
       State_Monad.return (Inr ret)
     } else do {
     s \<leftarrow> State_Monad.get;
     rc \<leftarrow> Bind core (m_sockfd s) \<lparr>sin_family = AF_INET, sin_port = htons p port, sin_addr = INADDR_ANY\<rparr>;
     if rc < 0 then do {
       ret \<leftarrow> errno_ret p core ''Error: bind() failed: errno '' ''Error: bind() failed: '';
       State_Monad.return (Inr ret)
     } else
     (case mcastAddr of
        None \<Rightarrow> State_Monad.return (Inl (UB ''null pointer for inet_pton''))
      | Some mcast \<Rightarrow> do {
     State_Monad.update (\<lambda>s. s\<lparr>m_sockaddr := \<lparr>sin_family = AF_INET, sin_port = htons p port,
       sin_addr = pton_into p mcast 0\<rparr>\<rparr>);
     s \<leftarrow> State_Monad.get;
     rc \<leftarrow> SetSockOpt core (m_sockfd s) IPPROTO_IP IP_ADD_MEMBERSHIP
       (OptMreq \<lparr>imr_multiaddr = pton_into p mcast 0,
         imr_interface = (case localIpAddr of None \<Rightarrow> INADDR_ANY | Some ip \<Rightarrow> pton_into p ip 0)\<rparr>);
     if rc < 0 then do {
       ret \<leftarrow> errno_ret p core ''Error: setsockopt(IP_ADD_MEMBERSHIP) failed: errno ''
                ''Error: setsockopt(IP_ADD_MEMBERSHIP) failed: '';
       State_Monad.return (Inr ret)
     } else do {
     s \<leftarrow> State_Monad.get;
     rc \<leftarrow> SetSockOpt core (m_sockfd s) IPPROTO_IP IP_MULTICAST_IF
       (OptAddr (case localIpAddr of None \<Rightarrow> None | Some ip \<Rightarrow> inet_pton p ip));
     if rc < 0 then do {
       ret \<leftarrow> errno_ret p core ''Error: setsockopt(IP_MULTICAST_IF) failed: errno ''
                ''Error: setsockopt(IP_MULTICAST_IF) failed: '';
       State_Monad.return (Inr ret)
     } else
       obind start_thread (\<lambda>_. State_Monad.return (Inr ok_ret))
     }})}}}}}
   }"

section \<open>startUnicast\<close>

definition startUnicast_local ::
  "platform \<Rightarrow> 'w SocketImpl \<Rightarrow> uint16_t \<Rightarrow> (('w, 'a) UdpSocket, SocketRet outcome) state" where
  "startUnicast_local p core localPort = do {
     result \<leftarrow> Initialize core;
     if result \<noteq> 0 then State_Monad.return (Inr (udp_init_failed p result))
     else do {
     fd \<leftarrow> Socket core AF_INET SOCK_DGRAM 0;
     State_Monad.update (\<lambda>s. s\<lparr>m_sockfd := fd\<rparr>);
     if fd = INVALID_SOCKET then do {
       e \<leftarrow> errno core;
       State_Monad.return (Inr (fail_ret (if FMT_SUPPORT p
         then ''Error: socket() failed: errno '' @ dec_int e else ''socket() failed'')))
     } else do {
     s \<leftarrow> State_Monad.get;
     rc \<leftarrow> SetSockOpt core (m_sockfd s) SOL_SOCKET SO_REUSEADDR (OptInt 1);
     if rc < 0 then do {
       ret \<leftarrow> errno_ret p core ''Error: setsockopt(SO_REUSEADDR) failed: errno ''
                ''Error: setsockopt(SO_REUSEADDR) failed: errno '';
       State_Monad.return (Inr ret)
     } else do {
     s \<leftarrow> State_Monad.get;
     rc \<leftarrow> SetSockOpt core (m_sockfd s) SOL_SOCKET SO_RCVBUF (OptInt (m_rxBufSize (m_sockOptions s)));
     if rc < 0 then do {
       ret \<leftarrow> errno_ret p core ''Error: setsockopt(SO_RCVBUF) failed: errno ''
                ''Error: setsockopt(SO_RCVBUF) failed: errno '';
       State_Monad.return (Inr ret)
     } else do {
     s \<leftarrow> State_Monad.get;
     rc \<leftarrow> SetSockOpt core (m_sockfd s) SOL_SOCKET SO_SNDBUF (OptInt (m_txBufSize (m_sockOptions s)));
     if rc < 0 then do {
       ret \<leftarrow> errno_ret p core ''Error: setsockopt(SO_SNDBUF) failed: errno ''
                ''Error: setsockopt(SO_SNDBUF) failed: errno '';
       State_Monad.return (Inr ret)
     } else do {
     s \<leftarrow> State_Monad.get;
     rc \<leftarrow> Bind core (m_sockfd s) \<lparr>sin_family = AF_INET, sin_port = htons p localPort,
       sin_addr = pton_into p (m_listenAddr (m_sockOptions s)) 0\<rparr>;
     if rc < 0 then do {
       ret \<leftarrow> errno_ret p core ''Error: bind() failed: errno '' ''Error: bind() failed: '';
       State_Monad.return (Inr ret)
     } else
       obind start_thread (\<lambda>_. State_Monad.return (Inr ok_ret))
     }}}}}
   }"

definition startUnicast ::
  "platform \<Rightarrow> 'w SocketImpl \<Rightarrow> string option \<Rightarrow> uint16_t \<Rightarrow> uint16_t \<Rightarrow>
   (('w, 'a) UdpSocket, SocketRet outcome) state" where
  "startUnicast p core remoteAddr localPort port = do {
     result \<leftarrow> Initialize core;
     if result \<noteq> 0 then State_Monad.return (Inr (udp_init_failed p result))
     else do {
     State_Monad.update (\<lambda>s. s\<lparr>m_sockaddr := sockaddr_zero\<lparr>sin_family := AF_INET\<rparr>\<rparr>);
     s \<leftarrow> State_Monad.get;
     (rc, addr) \<leftarrow> lookupHost core remoteAddr (sin_addr (m_sockaddr s));
     State_Monad.update (\<lambda>s. s\<lparr>m_sockaddr := (m_sockaddr s)\<lparr>sin_addr := addr\<rparr>\<rparr>);
     if rc \<noteq> 0 then State_Monad.return (unresolved_host p remoteAddr)
     else do {
     State_Monad.update (\<lambda>s. s\<lparr>m_sockaddr := (m_sockaddr s)\<lparr>sin_port := htons p port\<rparr>\<rparr>);
     startUnicast_local p core localPort
     }}
   }"

section \<open>sendMsg and finish\<close>

definition UdpSocket_sendMsg ::
  "platform \<Rightarrow> 'w SocketImpl \<Rightarrow> bytes \<Rightarrow> size_t \<Rightarrow> (('w, 'a) UdpSocket, SocketRet) state" where
  "UdpSocket_sendMsg p core msg sz = do {
     s \<leftarrow> State_Monad.get;
     if sin_port (m_sockaddr s) \<noteq> 0 then do {
       numBytesSent \<leftarrow> SendTo core (m_sockfd s) msg sz (m_sockaddr s);
       if sint numBytesSent < 0 then
         errno_ret p core ''Error: sendto() failed: '' ''Error: sendto() failed: ''
       else if numBytesSent < sz then
         State_Monad.return (fail_ret (format_msg p
           (''Only '' @ dec_int (sint numBytesSent) @ '' bytes of '' @
              dec_nat (unat sz) @ '' was sent to client'')
           (''Only '' @ dec_int (sint numBytesSent) @ '' bytes out of '' @
              dec_nat (unat sz) @ '' was sent to client'')))
       else State_Monad.return ok_ret
     } else State_Monad.return ok_ret
   }"

definition UdpSocket_finish :: "'w SocketImpl \<Rightarrow> bool \<Rightarrow> (('w, 'a) UdpSocket, unit) state" where
  "UdpSocket_finish core on_thread = do {
     State_Monad.update (\<lambda>s. s\<lparr>m_stop := True\<rparr>);
     join_thread on_thread;
     s \<leftarrow> State_Monad.get;
     if m_sockfd s \<noteq> INVALID_SOCKET then do {
       Close core (m_sockfd s);
       State_Monad.update (\<lambda>s. s\<lparr>m_sockfd := INVALID_SOCKET\<rparr>)
     } else
       State_Monad.update (\<lambda>s. s\<lparr>m_sockfd := INVALID_SOCKET\<rparr>)
   }"

text \<open>\<open>~UdpSocket\<close>\<close>

definition UdpSocket_destroy :: "'w SocketImpl \<Rightarrow> bool \<Rightarrow> (('w, 'a) UdpSocket, unit outcome) state" where
  "UdpSocket_destroy core on_thread = do {
     UdpSocket_finish core on_thread;
     destroy_thread
   }"

section \<open>The receive thread\<close>

definition publishUdpMsg ::
  "(bytes \<Rightarrow> (('w, 'a) UdpSocket, unit outcome) state) \<Rightarrow> bytes \<Rightarrow> (('w, 'a) UdpSocket, unit outcome) state" where
  "publishUdpMsg on_data msg = do {
     log_event (EvReceiveData msg);
     on_data msg
   }"

definition UdpSocket_receive_pass ::
  "'w SocketImpl \<Rightarrow> (bytes \<Rightarrow> (('w, 'a) UdpSocket, unit outcome) state) \<Rightarrow> buffer \<Rightarrow>
   (('w, 'a) UdpSocket, bool outcome) state" where
  "UdpSocket_receive_pass core on_data junk = do {
     s \<leftarrow> State_Monad.get;
     if m_sockfd s \<noteq> INVALID_SOCKET then
     (case FD_SET (m_sockfd s) FD_ZERO of
        None \<Rightarrow> State_Monad.return (Inl (UB ''FD_SET out of range''))
      | Some fds \<Rightarrow> do {
          (selectRet, fds) \<leftarrow> Select core (m_sockfd s + 1) fds (0, USEC_DELAY);
          if selectRet \<le> 0 then do {
            stop \<leftarrow> load_stop;
            State_Monad.return (Inr (\<not> stop))
          } else do {
            s \<leftarrow> State_Monad.get;
            (case FD_ISSET (m_sockfd s) fds of
               None \<Rightarrow> State_Monad.return (Inl (UB ''FD_ISSET out of range''))
             | Some isset \<Rightarrow>
                 if isset then do {
                   (numOfBytesReceived, data) \<leftarrow> Recv core (m_sockfd s) UDP_MAX_PACKET_SIZE;
                   if 0 \<le> sint numOfBytesReceived then
                     obind (publishUdpMsg on_data (buf_read (unat numOfBytesReceived) (buf_write data junk)))
                       (\<lambda>_. State_Monad.return (Inr True))
                   else State_Monad.return (Inr True)
                 } else State_Monad.return (Inr True))
          }
        })
     else State_Monad.return (Inr True)
   }"

fun UdpSocket_ReceiveTask ::
  "nat \<Rightarrow> 'w SocketImpl \<Rightarrow> (bytes \<Rightarrow> (('w, 'a) UdpSocket, unit outcome) state) \<Rightarrow> buffer \<Rightarrow>
   (('w, 'a) UdpSocket, unit outcome option) state" where
  "UdpSocket_ReceiveTask 0 core on_data junk = State_Monad.return None"
| "UdpSocket_ReceiveTask (Suc fuel) core on_data junk = do {
     stop \<leftarrow> load_stop;
     if stop then State_Monad.return (Some (Inr ()))
     else do {
       r \<leftarrow> UdpSocket_receive_pass core on_data junk;
       (case r of
          Inl a \<Rightarrow> State_Monad.return (Some (Inl a))
        | Inr goes_on \<Rightarrow>
            if goes_on then UdpSocket_ReceiveTask fuel core on_data junk
            else State_Monad.return (Some (Inr ())))
     }
   }"

section \<open>The set-up operations are staged\<close>

text \<open>The stages the three operations share.\<close>

definition udp_init_stage :: "platform \<Rightarrow> 'w SocketImpl \<Rightarrow> ('w, 'a) UdpSocket stage" where
  "udp_init_stage p core =
     \<lparr>st_call = Initialize core, st_bad = (\<lambda>r. r \<noteq> 0),
      st_fail = (\<lambda>r. State_Monad.return (Inr (udp_init_failed p r)))\<rparr>"

definition udp_socket_call :: "'w SocketImpl \<Rightarrow> (('w, 'a) UdpSocket, int) state" where
  "udp_socket_call core = do {
     fd \<leftarrow> Socket core AF_INET SOCK_DGRAM 0;
     State_Monad.update (\<lambda>s. s\<lparr>m_sockfd := fd\<rparr>);
     State_Monad.return fd
   }"

definition udp_opt_call ::
  "'w SocketImpl \<Rightarrow> opt_level \<Rightarrow> opt_name \<Rightarrow> (SocketOpt \<Rightarrow> opt_value) \<Rightarrow> (('w, 'a) UdpSocket, int) state" where
  "udp_opt_call core level optname optval = do {
     s \<leftarrow> State_Monad.get;
     SetSockOpt core (m_sockfd s) level optname (optval (m_sockOptions s))
   }"

definition mcast_stages ::
  "platform \<Rightarrow> 'w SocketImpl \<Rightarrow> string \<Rightarrow> uint16_t \<Rightarrow> string option \<Rightarrow> ('w, 'a) UdpSocket stage list" where
  "mcast_stages p core mcast port localIpAddr =
    [udp_init_stage p core,
     errno_stage p core (udp_socket_call core) (\<lambda>r. r = INVALID_SOCKET)
       ''Error: socket() failed: errno '' ''Error: socket() failed: '',
     errno_stage p core (udp_opt_call core SOL_SOCKET SO_REUSEADDR (\<lambda>_. OptInt 1)) (\<lambda>r. r < 0)
       ''Error: setsockopt(SO_REUSEADDR) failed: errno '' ''Error: setsockopt(SO_REULSEADDR) failed: '',
     errno_stage p core (udp_opt_call core SOL_SOCKET SO_RCVBUF (\<lambda>opts. OptInt (m_rxBufSize opts))) (\<lambda>r. r < 0)
       ''Error: setsockopt(SO_RCVBUF) failed: errno '' ''Error: setsockopt(SO_RCVBUF) failed: '',
     errno_stage p core (udp_opt_call core SOL_SOCKET SO_SNDBUF (\<lambda>opts. OptInt (m_txBufSize opts))) (\<lambda>r. r < 0)
       ''Error: setsockopt(SO_SNDBUF) failed: errno '' ''Error: setsockopt(SO_SNDBUF) failed: '',
     errno_stage p core
       (do { s \<leftarrow> State_Monad.get;
             Bind core (m_sockfd s) \<lparr>sin_family = AF_INET, sin_port = htons p port, sin_addr = INADDR_ANY\<rparr> })
       (\<lambda>r. r < 0) ''Error: bind() failed: errno '' ''Error: bind() failed: '',
     errno_stage p core
       (do { State_Monad.update (\<lambda>s. s\<lparr>m_sockaddr := \<lparr>sin_family = AF_INET, sin_port = htons p port,
               sin_addr = pton_into p mcast 0\<rparr>\<rparr>);
             udp_opt_call core IPPROTO_IP IP_ADD_MEMBERSHIP
               (\<lambda>_. OptMreq \<lparr>imr_multiaddr = pton_into p mcast 0,
                 imr_interface = (case localIpAddr of None \<Rightarrow> INADDR_ANY | Some ip \<Rightarrow> pton_into p ip 0)\<rparr>) })
       (\<lambda>r. r < 0) ''Error: setsockopt(IP_ADD_MEMBERSHIP) failed: errno ''
       ''Error: setsockopt(IP_ADD_MEMBERSHIP) failed: '',
     errno_stage p core
       (udp_opt_call core IPPROTO_IP IP_MULTICAST_IF
          (\<lambda>_. OptAddr (case localIpAddr of None \<Rightarrow> None | Some ip \<Rightarrow> inet_pton p ip)))
       (\<lambda>r. r < 0) ''Error: setsockopt(IP_MULTICAST_IF) failed: errno ''
       ''Error: setsockopt(IP_MULTICAST_IF) failed: '']"

definition unicast_stages :: "platform \<Rightarrow> 'w SocketImpl \<Rightarrow> uint16_t \<Rightarrow> ('w, 'a) UdpSocket stage list" where
  "unicast_stages p core localPort =
    [udp_init_stage p core,
     \<lparr>st_call = udp_socket_call core, st_bad = (\<lambda>r. r = INVALID_SOCKET),
      st_fail = (\<lambda>_. do {
        e \<leftarrow> errno core;
        State_Monad.return (Inr (fail_ret (if FMT_SUPPORT p
          then ''Error: socket() failed: errno '' @ dec_int e else ''socket() failed''))) })\<rparr>,
     errno_stage p core (udp_opt_call core SOL_SOCKET SO_REUSEADDR (\<lambda>_. OptInt 1)) (\<lambda>r. r < 0)
       ''Error: setsockopt(SO_REUSEADDR) failed: errno '' ''Error: setsockopt(SO_REUSEADDR) failed: errno '',
     errno_stage p core (udp_opt_call core SOL_SOCKET SO_RCVBUF (\<lambda>opts. OptInt (m_rxBufSize opts))) (\<lambda>r. r < 0)
       ''Error: setsockopt(SO_RCVBUF) failed: errno '' ''Error: setsockopt(SO_RCVBUF) failed: errno '',
     errno_stage p core (udp_opt_call core SOL_SOCKET SO_SNDBUF (\<lambda>opts. OptInt (m_txBufSize opts))) (\<lambda>r. r < 0)
       ''Error: setsockopt(SO_SNDBUF) failed: errno '' ''Error: setsockopt(SO_SNDBUF) failed: errno '',
     errno_stage p core
       (do { s \<leftarrow> State_Monad.get;
             Bind core (m_sockfd s) \<lparr>sin_family = AF_INET, sin_port = htons p localPort,
               sin_addr = pton_into p (m_listenAddr (m_sockOptions s)) 0\<rparr> })
       (\<lambda>r. r < 0) ''Error: bind() failed: errno '' ''Error: bind() failed: '']"

definition remote_stages ::
  "platform \<Rightarrow> 'w SocketImpl \<Rightarrow> string option \<Rightarrow> uint16_t \<Rightarrow> ('w, 'a) UdpSocket stage list" where
  "remote_stages p core remoteAddr port =
    [udp_init_stage p core,
     \<lparr>st_call = do {
        State_Monad.update (\<lambda>s. s\<lparr>m_sockaddr := sockaddr_zero\<lparr>sin_family := AF_INET\<rparr>\<rparr>);
        s \<leftarrow> State_Monad.get;
        (rc, addr) \<leftarrow> lookupHost core remoteAddr (sin_addr (m_sockaddr s));
        State_Monad.update (\<lambda>s. s\<lparr>m_sockaddr := (m_sockaddr s)\<lparr>sin_addr := addr\<rparr>\<rparr>);
        (if rc \<noteq> 0 then State_Monad.return ()
         else State_Monad.update (\<lambda>s. s\<lparr>m_sockaddr := (m_sockaddr s)\<lparr>sin_port := htons p port\<rparr>\<rparr>));
        State_Monad.return rc },
      st_bad = (\<lambda>r. r \<noteq> 0),
      st_fail = (\<lambda>_. State_Monad.return (unresolved_host p remoteAddr))\<rparr>]"

definition unicast_planned :: "string list list" where
  "unicast_planned = [[''Initialize''], [''Socket''], [''SO_REUSEADDR''], [''SO_RCVBUF''], [''SO_SNDBUF''], [''Bind'']]"

definition mcast_planned :: "string list list" where
  "mcast_planned = unicast_planned @ [[''IP_ADD_MEMBERSHIP''], [''IP_MULTICAST_IF'']]"

definition remote_planned :: "string list list" where
  "remote_planned = [[''Initialize''], [''GetAddrInfo'', ''FreeAddrInfo'']]"

lemmas udp_stage_defs = udp_init_stage_def errno_stage_def udp_socket_call_def udp_opt_call_def

lemma startMcast_stages: "startMcast p core (Some mcast) port localIpAddr =
   run_stages (mcast_stages p core mcast port localIpAddr) (obind start_thread (\<lambda>_. State_Monad.return (Inr ok_ret)))"
  by (simp add: startMcast_def mcast_stages_def udp_stage_defs cong: if_cong)

lemma startUnicast_local_stages: "startUnicast_local p core localPort =
   run_stages (unicast_stages p core localPort) (obind start_thread (\<lambda>_. State_Monad.return (Inr ok_ret)))"
  by (simp add: startUnicast_local_def unicast_stages_def udp_stage_defs cong: if_cong)

lemma startUnicast_stages: "startUnicast p core remoteAddr localPort port =
   run_stages (remote_stages p core remoteAddr port @ unicast_stages p core localPort)
     (obind start_thread (\<lambda>_. State_Monad.return (Inr ok_ret)))"
  unfolding run_stages_append startUnicast_local_stages [symmetric]
  by (simp add: startUnicast_def remote_stages_def udp_stage_defs case_prod_beta'
      if_distrib [where f = "\<lambda>m. State_Monad.bind m f" for f] cong: if_cong)

lemma unicast_stages_ok: "list_all2 stage_ok (unicast_stages p core localPort) unicast_planned"
  unfolding unicast_stages_def unicast_planned_def udp_stage_defs list.rel_inject
  by (intro conjI stage_okI; auto simp: wp_simps call_defs Let_def udp_init_failed_def)

lemma mcast_stages_ok: "list_all2 stage_ok (mcast_stages p core mcast port localIpAddr) mcast_planned"
  unfolding mcast_stages_def mcast_planned_def unicast_planned_def udp_stage_defs append.simps list.rel_inject
  by (intro conjI stage_okI; auto simp: wp_simps call_defs Let_def udp_init_failed_def)

lemma remote_stages_ok: "list_all2 stage_ok (remote_stages p core remoteAddr port) remote_planned"
  unfolding remote_stages_def remote_planned_def udp_stage_defs list.rel_inject
  by (intro conjI stage_okI; auto simp: wp_simps call_defs Let_def udp_init_failed_def)

lemma bind_update_id [simp]: "State_Monad.bind (State_Monad.update (\<lambda>s. s)) (\<lambda>_. m) = m"
  by (rule state.expand) (simp add: fun_eq_iff)

interpretation mcast_setup: staged_setup
  "startMcast p core (Some mcast) port localIpAddr" "\<lambda>s. s"
  "mcast_stages p core mcast port localIpAddr" mcast_planned
  "obind start_thread (\<lambda>_. State_Monad.return (Inr ok_ret))" "[''thread'']"
  for p core mcast port localIpAddr
  by unfold_locales (simp_all add: startMcast_stages mcast_stages_ok start_thread_last)

interpretation unicast_setup: staged_setup
  "startUnicast_local p core localPort" "\<lambda>s. s"
  "unicast_stages p core localPort" unicast_planned
  "obind start_thread (\<lambda>_. State_Monad.return (Inr ok_ret))" "[''thread'']"
  for p core localPort
  by unfold_locales (simp_all add: startUnicast_local_stages unicast_stages_ok start_thread_last)

interpretation remote_setup: staged_setup
  "startUnicast p core remoteAddr localPort port" "\<lambda>s. s"
  "remote_stages p core remoteAddr port @ unicast_stages p core localPort" "remote_planned @ unicast_planned"
  "obind start_thread (\<lambda>_. State_Monad.return (Inr ok_ret))" "[''thread'']"
  for p core remoteAddr localPort port
  by unfold_locales
    (simp_all add: startUnicast_stages remote_stages_ok unicast_stages_ok start_thread_last list_all2_appendI)

section \<open>What the receive thread promises\<close>

text \<open>
  Every \<open>recv\<close> that succeeds, a datagram of length zero included, is followed by one
  \<open>onReceiveData\<close> with exactly the datagram; a failed \<open>recv\<close> is ignored.
\<close>

fun datagram_spec :: "event list \<Rightarrow> bool" where
  "datagram_spec [] = True"
| "datagram_spec (EvRecv _ _ n data # es) =
     (if 0 \<le> sint n then (case es of EvReceiveData d # es' \<Rightarrow> d = data \<and> datagram_spec es' | _ \<Rightarrow> False)
      else datagram_spec es)"
| "datagram_spec _ = False"

locale udp_callback = polite_receiver on_data
  for on_data :: "bytes \<Rightarrow> (('w, 'a) UdpSocket, unit outcome) state"
begin

definition udp_chunk :: "event list \<Rightarrow> bool" where
  "udp_chunk es \<longleftrightarrow> filter loud es = [] \<or>
     (\<exists>fd len n data. 0 \<le> sint n \<and> filter loud es = [EvRecv fd len n data, EvReceiveData data]) \<or>
     (\<exists>fd len n data. sint n < 0 \<and> filter loud es = [EvRecv fd len n data])"

lemma datagram_post:
  assumes "polite (s\<lparr>world := w, trace := trace s @ [EvSelect nfds asked x ready, EvRecv fd len n data,
      EvReceiveData (buf_read (unat n) (buf_write data junk))]\<rparr>) s'"
    and "posix_trace (trace s')" and "0 \<le> sint n"
  shows "\<exists>es. trace s' = trace s @ es \<and> udp_chunk es"
proof -
  let ?recv = "EvRecv fd len n data" and ?sel = "EvSelect nfds asked x ready"
  obtain qs where qs:
    "trace s' = trace s @ [?sel, ?recv, EvReceiveData (buf_read (unat n) (buf_write data junk))] @ qs"
    "filter loud qs = []"
    using polite_traces [OF assms(1)] by auto
  then have "posix_trace ((trace s @ [?sel]) @
      ?recv # EvReceiveData (buf_read (unat n) (buf_write data junk)) # qs)"
    using assms(2) by simp
  from posix_trace_mem [OF this] have "buf_read (unat n) (buf_write data junk) = data"
    using assms(3) by (auto simp: buf_read_write)
  with assms(3) qs show ?thesis
    unfolding udp_chunk_def by (intro exI [of _ "[?sel, ?recv, EvReceiveData data] @ qs"]) auto
qed

lemma receive_pass_post:
  "wp (UdpSocket_receive_pass core on_data junk)
     (\<lambda>r s'. posix_trace (trace s') \<longrightarrow> (\<exists>es. trace s' = trace s @ es \<and> udp_chunk es)) s"
  unfolding UdpSocket_receive_pass_def publishUdpMsg_def
  by (auto simp: wp_simps call_defs split: option.splits list.splits sum.splits intro!: wp_on_data)
    ((erule datagram_post; simp) | (simp add: udp_chunk_def; force))+

lemma receive_pass_stores:
  "wp (UdpSocket_receive_pass core on_data junk) (\<lambda>r t. r = Inr True \<longrightarrow>
     length (stop_stores t) \<le> length (stop_stores s) \<and>
     (True \<in> set (stop_stores s) \<longrightarrow> True \<in> set (stop_stores t))) s"
  unfolding UdpSocket_receive_pass_def publishUdpMsg_def
  by (auto simp: wp_simps call_defs polite_def split: option.splits list.splits sum.splits
      intro!: wp_on_data)

end

sublocale udp_callback \<subseteq> udp_loop: receive_loop
  "\<lambda>fuel. UdpSocket_ReceiveTask fuel core on_data junk" "UdpSocket_receive_pass core on_data junk"
  for core junk
  by unfold_locales (simp_all add: receive_pass_stores)

context udp_callback
begin

lemmas ReceiveTask_returns = udp_loop.task_returns

lemma datagram_spec_chunk: "udp_chunk es \<Longrightarrow> datagram_spec (filter loud fs) \<Longrightarrow> datagram_spec (filter loud (es @ fs))"
  by (auto simp: udp_chunk_def)

lemma ReceiveTask_promise:
  "wp (UdpSocket_ReceiveTask fuel core on_data junk) (\<lambda>r s'. posix_trace (trace s') \<longrightarrow>
     (\<exists>es. trace s' = trace s @ es \<and> datagram_spec (filter loud es))) s"
  by (rule udp_loop.task_promise [where chunk = "\<lambda>_. udp_chunk"])
    (use receive_pass_post datagram_spec_chunk in auto)

end

section \<open>Histories of a UDP socket\<close>

text \<open>The operations in any order; set-up only while no socket is held.\<close>

inductive udp_step ::
  "platform \<Rightarrow> 'w SocketImpl \<Rightarrow> (bytes \<Rightarrow> (('w, 'a) UdpSocket, unit outcome) state) \<Rightarrow> buffer \<Rightarrow>
   ('w, 'a) UdpSocket \<Rightarrow> ('w, 'a) UdpSocket \<Rightarrow> bool"
  for p core on_data junk where
  mcast: "m_sockfd s = INVALID_SOCKET \<Longrightarrow>
     run_state (startMcast p core mcastAddr port localIpAddr) s = (r, s') \<Longrightarrow> udp_step p core on_data junk s s'"
| unicast_local: "m_sockfd s = INVALID_SOCKET \<Longrightarrow>
     run_state (startUnicast_local p core localPort) s = (r, s') \<Longrightarrow> udp_step p core on_data junk s s'"
| unicast: "m_sockfd s = INVALID_SOCKET \<Longrightarrow>
     run_state (startUnicast p core remoteAddr localPort port) s = (r, s') \<Longrightarrow> udp_step p core on_data junk s s'"
| send: "run_state (UdpSocket_sendMsg p core msg sz) s = (ret, s') \<Longrightarrow> udp_step p core on_data junk s s'"
| receive: "run_state (UdpSocket_receive_pass core on_data junk) s = (ok, s') \<Longrightarrow> udp_step p core on_data junk s s'"
| finish: "run_state (UdpSocket_finish core on_thread) s = (u, s') \<Longrightarrow> udp_step p core on_data junk s s'"

definition udp_holds :: "('w, 'a) UdpSocket \<Rightarrow> int set" where
  "udp_holds s = {m_sockfd s} - {INVALID_SOCKET}"

text \<open>What a set-up operation does to the descriptors: at most one is opened, and the member holds it.\<close>

definition opens_one :: "('w, 'a) UdpSocket \<Rightarrow> ('w, 'a) UdpSocket \<Rightarrow> bool" where
  "opens_one s s' \<longleftrightarrow> prefix (trace s) (trace s') \<and>
     (m_sockfd s = INVALID_SOCKET \<longrightarrow> owned (trace s') = owned (trace s) \<union> udp_holds s' \<and>
       (posix_trace (trace s') \<longrightarrow> m_sockfd s' \<notin> owned (trace s)))"

lemma startMcast_opens: "wp (startMcast p core mcastAddr port localIpAddr) (\<lambda>_ s'. opens_one s s') s"
  unfolding startMcast_def
  by (auto simp: wp_simps call_defs Let_def opens_one_def udp_holds_def trace_simps split: option.split)

lemma startUnicast_local_opens: "wp (startUnicast_local p core localPort) (\<lambda>_ s'. opens_one s s') s"
  unfolding startUnicast_local_def
  by (auto simp: wp_simps call_defs Let_def opens_one_def udp_holds_def trace_simps)

lemma lookup_opens:
  assumes "opens_one t u" and "m_sockfd t = m_sockfd s" and "prefix (trace s) (trace t)"
    and "owned (trace t) = owned (trace s)"
  shows "opens_one s u"
  using assms by (auto simp: opens_one_def)

lemma startUnicast_opens: "wp (startUnicast p core remoteAddr localPort port) (\<lambda>_ s'. opens_one s s') s"
  unfolding startUnicast_def
  by (auto simp: wp_simps call_defs Let_def trace_simps intro!: wp_mono [OF startUnicast_local_opens] elim!: lookup_opens)
    (auto simp: opens_one_def udp_holds_def trace_simps)

lemma startMcast_holds:
  "wp (startMcast p core mcastAddr port localIpAddr) (\<lambda>r s'. succeeded r \<longrightarrow> m_sockfd s' \<noteq> INVALID_SOCKET) s"
  unfolding startMcast_def by (auto simp: wp_simps call_defs Let_def udp_init_failed_def split: option.split)

lemma startUnicast_local_holds:
  "wp (startUnicast_local p core localPort) (\<lambda>r s'. succeeded r \<longrightarrow> m_sockfd s' \<noteq> INVALID_SOCKET) s"
  unfolding startUnicast_local_def by (auto simp: wp_simps call_defs Let_def udp_init_failed_def)

lemma startUnicast_holds:
  "wp (startUnicast p core remoteAddr localPort port) (\<lambda>r s'. succeeded r \<longrightarrow> m_sockfd s' \<noteq> INVALID_SOCKET) s"
  unfolding startUnicast_def
  by (auto simp: wp_simps call_defs Let_def udp_init_failed_def intro!: wp_mono [OF startUnicast_local_holds])

lemma UdpSocket_sendMsg_event:
  "wp (UdpSocket_sendMsg p core msg sz) (\<lambda>ret s'.
     if sin_port (m_sockaddr s) = 0 then s' = s \<and> m_success ret
     else \<exists>n w. s' = s\<lparr>world := w, trace := trace s @ [EvSendTo (m_sockfd s) msg sz (m_sockaddr s) n]\<rparr> \<and>
       (m_success ret \<longleftrightarrow> \<not> sint n < 0 \<and> \<not> n < sz)) s"
  unfolding UdpSocket_sendMsg_def by (auto simp: wp_simps call_defs)

lemma wp_UdpSocket_finish [wp_simps]: "wp (UdpSocket_finish core on_thread) Q s =
   (let t = (if m_thread s \<and> \<not> on_thread then s\<lparr>m_stop := True, m_thread := False\<rparr> else s\<lparr>m_stop := True\<rparr>)
    in if m_sockfd s = INVALID_SOCKET then Q () (t\<lparr>m_sockfd := INVALID_SOCKET\<rparr>)
       else (\<forall>r w. core_Close core (m_sockfd s) (world s) = (r, w) \<longrightarrow>
          Q () (t\<lparr>world := w, trace := trace s @ [EvClose (m_sockfd s) r], m_sockfd := INVALID_SOCKET\<rparr>)))"
  by (auto simp: UdpSocket_finish_def wp_simps call_defs)

context udp_callback
begin

lemma receive_pass_owned:
  "wp (UdpSocket_receive_pass core on_data junk) (\<lambda>r s'. prefix (trace s) (trace s') \<and>
     owned (trace s') = owned (trace s) \<and> m_sockfd s' = m_sockfd s) s"
  unfolding UdpSocket_receive_pass_def publishUdpMsg_def
  by (auto simp: wp_simps call_defs trace_simps split: option.splits list.splits sum.splits
      intro!: wp_on_data dest!: polite_owned)

lemma udp_step_cases:
  assumes "udp_step p core on_data junk s s'"
  obtains (opens) "m_sockfd s = INVALID_SOCKET" "opens_one s s'"
  | (keeps) "prefix (trace s) (trace s')" "owned (trace s') = owned (trace s)" "udp_holds s' = udp_holds s"
  | (closes) "prefix (trace s) (trace s')" "owned (trace s') = owned (trace s) - udp_holds s" "udp_holds s' = {}"
  using assms
proof cases
  case (send msg sz ret)
  from wpD [OF UdpSocket_sendMsg_event this] show ?thesis
    by (intro keeps) (auto simp: udp_holds_def split: if_splits)
next
  case (receive ok)
  from wpD [OF receive_pass_owned this] show ?thesis
    by (intro keeps) (simp_all add: udp_holds_def)
next
  case (finish on_thread u)
  have "wp (UdpSocket_finish core on_thread) (\<lambda>_ s'. prefix (trace s) (trace s') \<and>
      owned (trace s') = owned (trace s) - udp_holds s \<and> udp_holds s' = {}) s"
    by (auto simp: wp_simps Let_def udp_holds_def)
  from wpD [OF this finish] show ?thesis by (intro closes) simp_all
qed (auto intro: opens dest: wpD [OF startMcast_opens] wpD [OF startUnicast_local_opens] wpD [OF startUnicast_opens])

end

sublocale udp_callback \<subseteq> udp_owner: descriptor_owner "udp_step p core on_data junk" udp_holds "\<lambda>_. True"
  for p core junk
proof unfold_locales
  fix s s' :: "('w, 'a) UdpSocket"
  assume "udp_step p core on_data junk s s'"
  then show "prefix (trace s) (trace s')"
    by (cases rule: udp_step_cases) (simp_all add: opens_one_def)
next
  fix s s' :: "('w, 'a) UdpSocket" and B
  assume "udp_step p core on_data junk s s'" and "posix_trace (trace s')"
    and "owned (trace s) = B \<union> udp_holds s" and "B \<inter> udp_holds s = {}"
  then show "True \<and> owned (trace s') = B \<union> udp_holds s' \<and> B \<inter> udp_holds s' = {}"
    by (cases rule: udp_step_cases) (auto simp: opens_one_def udp_holds_def)
qed

context udp_callback
begin

lemmas udp_no_leak = udp_owner.no_leak

end

section \<open>The unit tests' callback object\<close>

text \<open>\<open>UdpTestApp\<close> of \<open>test/test_UdpSocket.cpp\<close>: its only state is the last datagram.\<close>

definition UdpTestApp_onReceiveData :: "bytes \<Rightarrow> (('w, string) UdpSocket, unit outcome) state" where
  "UdpTestApp_onReceiveData data = do {
     State_Monad.update (\<lambda>s. s\<lparr>m_callback := data\<rparr>);
     State_Monad.return (Inr ())
   }"

interpretation udp_app: udp_callback "UdpTestApp_onReceiveData :: bytes \<Rightarrow> (('w, string) UdpSocket, unit outcome) state"
  by unfold_locales (auto simp: UdpTestApp_onReceiveData_def polite_def)

text \<open>
  A session: the set-up succeeds on socket 4; an empty datagram arrives, a \<open>recv\<close> fails, and
  another datagram arrives before the other thread stops the loop.
\<close>

definition udp_script :: mock where
  "udp_script = no_script\<lparr>q_Socket := [4], q_GetAddrInfo := [(0, [0x0100007F])],
     q_Select := [(1, 16), (1, 16), (1, 16)], q_Recv := [(0, []), (-1, []), (5, ''hello'')],
     q_SendTo := [5, 3]\<rparr>"

definition udp_test :: "bool list \<Rightarrow> (mock, string) UdpSocket" where
  "udp_test stores = new_UdpSocket None [] udp_script stores"

definition mcast_run :: "string option \<Rightarrow> SocketRet outcome \<times> (mock, string) UdpSocket" where
  "mcast_run localIpAddr = run_state (startMcast example_platform MockSocketCore (Some ''224.0.0.1'') 5000 localIpAddr)
     (udp_test [False, False, False, True])"

definition unicast_run :: "SocketRet outcome \<times> (mock, string) UdpSocket" where
  "unicast_run = run_state (startUnicast example_platform MockSocketCore (Some ''localhost'') 5000 5001)
     (udp_test [False, False, False, True])"

definition udp_session :: "unit outcome option \<times> (mock, string) UdpSocket" where
  "udp_session = run_state (UdpSocket_ReceiveTask 4 MockSocketCore UdpTestApp_onReceiveData (\<lambda>_. CHR ''?''))
     (snd unicast_run)"

section \<open>Properties\<close>

lemma setup_results:
  "wp (startMcast p core (Some mcast) port localIpAddr) (\<lambda>r s'.
     (r = Inl Terminate \<longrightarrow> m_thread s) \<and> (succeeded r \<longrightarrow> \<not> m_thread s)) s"
  "wp (startUnicast_local p core localPort) (\<lambda>r s'.
     (r = Inl Terminate \<longrightarrow> m_thread s) \<and> (succeeded r \<longrightarrow> \<not> m_thread s)) s"
  "wp (startUnicast p core remoteAddr localPort port) (\<lambda>r s'.
     (r = Inl Terminate \<longrightarrow> m_thread s) \<and> (succeeded r \<longrightarrow> \<not> m_thread s)) s"
  unfolding startMcast_def startUnicast_def startUnicast_local_def
  by (auto simp: wp_simps call_defs Let_def unresolved_host_def udp_init_failed_def split: option.split)

lemma startMcast_calls:
  assumes "run_state (startMcast p core (Some mcast) port localIpAddr) s = (r, s')" and "posix_trace (trace s')"
  shows "\<exists>es. trace s' = trace s @ es \<and> setup_calls [''Initialize'', ''Socket'', ''SO_REUSEADDR'', ''SO_RCVBUF'',
     ''SO_SNDBUF'', ''Bind'', ''IP_ADD_MEMBERSHIP'', ''IP_MULTICAST_IF'', ''thread''] (m_thread s) r es"
  using mcast_setup.thread_calls [OF assms start_thread_results wpD [OF setup_results(1) assms(1)]]
  by (simp add: mcast_planned_def unicast_planned_def)

lemma startUnicast_local_calls:
  assumes "run_state (startUnicast_local p core localPort) s = (r, s')" and "posix_trace (trace s')"
  shows "\<exists>es. trace s' = trace s @ es \<and> setup_calls [''Initialize'', ''Socket'', ''SO_REUSEADDR'', ''SO_RCVBUF'',
     ''SO_SNDBUF'', ''Bind'', ''thread''] (m_thread s) r es"
  using unicast_setup.thread_calls [OF assms start_thread_results wpD [OF setup_results(2) assms(1)]]
  by (simp add: unicast_planned_def)

lemma startUnicast_calls:
  assumes "run_state (startUnicast p core remoteAddr localPort port) s = (r, s')" and "posix_trace (trace s')"
  shows "\<exists>es. trace s' = trace s @ es \<and> setup_calls [''Initialize'', ''GetAddrInfo'', ''FreeAddrInfo'', ''Initialize'',
     ''Socket'', ''SO_REUSEADDR'', ''SO_RCVBUF'', ''SO_SNDBUF'', ''Bind'', ''thread''] (m_thread s) r es"
  using remote_setup.thread_calls [OF assms start_thread_results wpD [OF setup_results(3) assms(1)]]
  by (simp add: remote_planned_def unicast_planned_def)

lemma startUnicast_local_keeps_destination:
  assumes "run_state (startUnicast_local p core localPort) s = (r, s')"
  shows "m_sockaddr s' = m_sockaddr s"
proof -
  have "wp (startUnicast_local p core localPort) (\<lambda>_ s'. m_sockaddr s' = m_sockaddr s) s"
    unfolding startUnicast_local_def by (auto simp: wp_simps call_defs Let_def)
  from wpD [OF this assms] show ?thesis .
qed


definition local_run :: "SocketRet outcome \<times> (mock, string) UdpSocket" where
  "local_run = run_state (startUnicast_local example_platform MockSocketCore 5000) (udp_test [])"


text \<open>
  C31. A successful \<open>startMcast\<close> has bound the port on every interface, joined the given group on
  the given interface (any, when none is given), and made the group and port the destination of
  later \<open>sendMsg\<close> calls. The interface it sends from is the given one; when none is given, it passes
  an \<open>in_addr\<close> it never initialised to \<open>IP_MULTICAST_IF\<close>, because the branch meant to set it assigns
  \<open>mreq\<close> again instead.
\<close>

theorem startMcast_group:
  assumes "run_state (startMcast p core (Some mcast) port localIpAddr) s = (r, s')" and "succeeded r"
    and "posix_trace (trace s')"
  shows "EvBind (m_sockfd s') \<lparr>sin_family = AF_INET, sin_port = htons p port, sin_addr = INADDR_ANY\<rparr> 0
       \<in> set (trace s') \<and>
     EvSetSockOpt (m_sockfd s') IPPROTO_IP IP_ADD_MEMBERSHIP (OptMreq \<lparr>imr_multiaddr = pton_into p mcast 0,
       imr_interface = (case localIpAddr of None \<Rightarrow> INADDR_ANY | Some ip \<Rightarrow> pton_into p ip 0)\<rparr>) 0
       \<in> set (trace s') \<and>
     EvSetSockOpt (m_sockfd s') IPPROTO_IP IP_MULTICAST_IF
       (OptAddr (case localIpAddr of None \<Rightarrow> None | Some ip \<Rightarrow> inet_pton p ip)) 0 \<in> set (trace s') \<and>
     m_sockaddr s' = \<lparr>sin_family = AF_INET, sin_port = htons p port, sin_addr = pton_into p mcast 0\<rparr>"
  (is "?post s'")
proof -
  have "wp (startMcast p core (Some mcast) port localIpAddr) (\<lambda>r s'. succeeded r \<longrightarrow> posix_trace (trace s') \<longrightarrow> ?post s') s"
    unfolding startMcast_def
    by (auto simp: wp_simps call_defs Let_def posix_trace_append udp_init_failed_def split del: option.splits)
  from wpD [OF this assms(1)] assms(2,3) show ?thesis by blast
qed

theorem startMcast_group_witness:
  "m_sockaddr (snd (mcast_run None)) = \<lparr>sin_family = AF_INET, sin_port = htons example_platform 5000,
     sin_addr = 0x010000E0\<rparr> \<and>
   EvSetSockOpt (m_sockfd (snd (mcast_run None))) IPPROTO_IP IP_MULTICAST_IF (OptAddr None) 0
     \<in> set (trace (snd (mcast_run None)))"
proof -
  have "succeeded (fst (mcast_run None))" and "posix_trace (trace (snd (mcast_run None)))" by code_simp+
  from startMcast_group [OF prod.collapse [symmetric, of "mcast_run None", unfolded mcast_run_def]
      this [unfolded mcast_run_def]]
  show ?thesis by (simp add: mcast_run_def pton_into_def example_platform_def)
qed

text \<open>
  \<open>sendMsg\<close> with a destination port makes one \<open>sendto\<close> to the stored destination and reports
  success exactly when the kernel took the whole datagram; without one it sends nothing, makes no
  call at all, and still reports success.
\<close>

lemma UdpSocket_sendMsg_complete:
  assumes "run_state (UdpSocket_sendMsg p core msg sz) s = (ret, s')" and "posix_trace (trace s')"
    and "0 \<le> sint sz"
  shows "if sin_port (m_sockaddr s) = 0 then trace s' = trace s \<and> m_success ret
     else \<exists>n. trace s' = trace s @ [EvSendTo (m_sockfd s) msg sz (m_sockaddr s) n] \<and> (m_success ret \<longleftrightarrow> n = sz)"
proof (cases "sin_port (m_sockaddr s) = 0")
  case True
  with wpD [OF UdpSocket_sendMsg_event assms(1)] show ?thesis by simp
next
  case False
  with wpD [OF UdpSocket_sendMsg_event assms(1)] obtain n where
    n: "trace s' = trace s @ [EvSendTo (m_sockfd s) msg sz (m_sockaddr s) n]"
      "m_success ret \<longleftrightarrow> \<not> sint n < 0 \<and> \<not> n < sz"
    by auto
  with assms(2) have "n = -1 \<or> n \<le> sz" by simp
  with n False show ?thesis
    using complete_send_iff [OF assms(3)] by auto
qed

text \<open>
  C8. The UDP receive thread hands every datagram it receives to \<open>onReceiveData\<close>, in order and
  unchanged, empty ones included, and ignores failed \<open>recv\<close> calls, for any callback object that
  keeps its side of the contract.
\<close>

theorem UdpSocket_ReceiveTask_delivers:
  assumes "udp_callback on_data" and "run_state (UdpSocket_ReceiveTask fuel core on_data junk) s = (r, s')"
    and "posix_trace (trace s')"
  shows "\<exists>es. trace s' = trace s @ es \<and> datagram_spec (filter loud es)"
  using wpD [OF udp_callback.ReceiveTask_promise [OF assms(1)] assms(2)] assms(3) by blast

theorem UdpSocket_ReceiveTask_delivers_witness:
  "(\<exists>es. trace (snd udp_session) = trace (snd unicast_run) @ es \<and> datagram_spec (filter loud es)) \<and>
   [EvRecv 4 65507 0 [], EvReceiveData [], EvRecv 4 65507 (-1) [], EvRecv 4 65507 5 ''hello'',
    EvReceiveData ''hello''] = filter loud (trace (snd udp_session))"
proof
  have "posix_trace (trace (snd udp_session))" by code_simp
  from UdpSocket_ReceiveTask_delivers [OF udp_app.udp_callback_axioms
      prod.collapse [symmetric, of udp_session, unfolded udp_session_def] this [unfolded udp_session_def]]
  show "\<exists>es. trace (snd udp_session) = trace (snd unicast_run) @ es \<and> datagram_spec (filter loud es)"
    by (simp only: udp_session_def)
qed code_simp

text \<open>
  The UDP receive thread ends: once another thread has stored \<open>true\<close> in \<open>m_stop\<close>, the loop
  returns after at most as many passes as it makes loads of the flag until then.
\<close>

lemma UdpSocket_ReceiveTask_terminates:
  assumes "udp_callback on_data" and "True \<in> set (stop_stores s)" and "length (stop_stores s) \<le> fuel"
  shows "\<exists>ending. fst (run_state (UdpSocket_ReceiveTask fuel core on_data junk) s) = Some ending"
  using udp_callback.ReceiveTask_returns [OF assms] by (simp add: wp_run)

text \<open>
  C20. No descriptor leaks: after any history of a UDP socket in which it is only started while it
  holds no socket, the destructor returns normally when it runs outside the receive thread, and
  then every descriptor that was opened has been closed and no other descriptor has.
\<close>

theorem UdpSocket_no_leak:
  assumes "udp_callback on_data" and "(udp_step p core on_data junk)\<^sup>*\<^sup>* s s'" and "m_sockfd s = INVALID_SOCKET"
    and "run_state (UdpSocket_destroy core False) s' = (r, t)" and "posix_trace (trace t)"
  shows "r = Inr () \<and> owned (trace t) = owned (trace s)"
proof -
  obtain u f where f: "run_state (UdpSocket_finish core False) s' = (u, f)"
    by (cases "run_state (UdpSocket_finish core False) s'") simp
  have idle: "\<not> m_thread f \<and> m_sockfd f = INVALID_SOCKET"
    using wpD [OF _ f, of "\<lambda>_ f. \<not> m_thread f \<and> m_sockfd f = INVALID_SOCKET"] by (simp add: wp_UdpSocket_finish Let_def)
  then have t: "r = Inr () \<and> t = f"
    using assms(4) f by (simp add: UdpSocket_destroy_def destroy_thread_def)
  have "(udp_step p core on_data junk)\<^sup>*\<^sup>* s f"
    using assms(2) udp_step.finish [OF f] by (rule rtranclp.rtrancl_into_rtrancl)
  with udp_callback.udp_no_leak [OF assms(1) this] t idle assms(3,5) show ?thesis
    by (simp add: udp_holds_def)
qed

definition udp_destroyed :: "unit outcome \<times> (mock, string) UdpSocket" where
  "udp_destroyed = run_state (UdpSocket_destroy MockSocketCore False) (snd unicast_run)"

theorem UdpSocket_no_leak_witness:
  "owned (trace (snd unicast_run)) \<noteq> owned (trace (udp_test [False, False, False, True])) \<and> fst udp_destroyed = Inr () \<and>
   owned (trace (snd udp_destroyed)) = owned (trace (udp_test [False, False, False, True]))"
proof -
  let ?step = "udp_step example_platform MockSocketCore UdpTestApp_onReceiveData (\<lambda>_. CHR ''?'')"
  have "?step (udp_test [False, False, False, True]) (snd unicast_run)"
    unfolding unicast_run_def
    by (rule udp_step.unicast [OF _ prod.collapse [symmetric]]) (simp add: udp_test_def new_UdpSocket_def)
  then have "?step\<^sup>*\<^sup>* (udp_test [False, False, False, True]) (snd unicast_run)"
    by (rule r_into_rtranclp)
  moreover have "posix_trace (trace (snd udp_destroyed))"
    "owned (trace (snd unicast_run)) \<noteq> owned (trace (udp_test [False, False, False, True]))" by code_simp+
  ultimately show ?thesis
    using UdpSocket_no_leak [OF udp_app.udp_callback_axioms _ _
        prod.collapse [symmetric, of udp_destroyed, unfolded udp_destroyed_def], folded udp_destroyed_def]
    by (simp add: udp_test_def new_UdpSocket_def)
qed

end
