(* ===== verification/Getopt.thy ===== *)
theory Getopt
  imports Cxx_Std
begin

text \<open>
  The port of \<open>getopt\<close> and \<open>getopt_long\<close> in \<open>examples/getopt.cpp\<close> and
  \<open>examples/getopt.h\<close> that the example applications parse their command lines with. The
  global variables are a record, a pointer into an element of \<open>argv\<close> is the text from there to
  the terminator, and the integers behind the caller's pointers are a store. The scanner is then
  shown to implement a specification of option syntax by words.
\<close>

section \<open>C strings\<close>

text \<open>
  A \<open>char *\<close> is read as the list of characters before the terminator, which is itself read as
  \<open>'\0'\<close>. A plain \<open>char\<close> is signed, so that a character from 128 on is a negative
  \<open>int\<close>.
\<close>

abbreviation NUL :: char where
  "NUL \<equiv> CHR 0x00"

definition c_string :: "string \<Rightarrow> bool" where
  "c_string s \<longleftrightarrow> NUL \<notin> set s"

definition char_at :: "string \<Rightarrow> nat \<Rightarrow> char" where
  "char_at s i = (if i < length s then s ! i else NUL)"

definition char_int :: "char \<Rightarrow> int" where
  "char_int c = (if (of_char c :: nat) < 128 then int (of_char c) else int (of_char c) - 256)"

text \<open>\<open>strchr\<close> also finds the terminator.\<close>

definition strchr :: "string \<Rightarrow> char \<Rightarrow> string option" where
  "strchr s c = (if c \<in> set s then Some (dropWhile (\<lambda>x. x \<noteq> c) s)
                 else if c = NUL then Some [] else None)"

definition strcspn :: "string \<Rightarrow> char \<Rightarrow> nat" where
  "strcspn s c = length (takeWhile (\<lambda>x. x \<noteq> c) s)"

text \<open>\<open>strncmp(s, t, n) == 0\<close>: the strings agree on their first \<open>n\<close> characters, or up to a
  common terminator before that.\<close>

fun strncmp_eq :: "string \<Rightarrow> string \<Rightarrow> nat \<Rightarrow> bool" where
  "strncmp_eq s t 0 = True"
| "strncmp_eq [] [] (Suc n) = True"
| "strncmp_eq (c # s) (d # t) (Suc n) = (c = d \<and> strncmp_eq s t n)"
| "strncmp_eq _ _ (Suc n) = False"

section \<open>State\<close>

text \<open>
  The globals of \<open>getopt.cpp\<close>. \<open>mem\<close> holds the integers the caller points to with
  \<open>longindex\<close> and \<open>option::flag\<close>.
\<close>

record getopt_state =
  optarg :: "string option"
  optopt :: int
  optind :: int
  opterr :: int
  optcursor :: "string option"
  mem :: "nat \<Rightarrow> int"

definition getopt_init :: getopt_state where
  "getopt_init = \<lparr>optarg = None, optopt = 0, optind = 1, opterr = 0, optcursor = None, mem = (\<lambda>_. 0)\<rparr>"

definition no_argument :: int where
  "no_argument = 1"

definition required_argument :: int where
  "required_argument = 2"

definition optional_argument :: int where
  "optional_argument = 3"

record option_s =
  name :: "string option"
  has_arg :: int
  flag :: "nat option"
  val :: int

text \<open>Reading \<open>argv[i]\<close>, which may be a null pointer.\<close>

definition argv_at :: "string option list \<Rightarrow> int \<Rightarrow> string option outcome" where
  "argv_at argv i = (if 0 \<le> i \<and> i < int (length argv) then Inr (argv ! nat i)
                     else Inl (UB ''argv read out of bounds''))"

section \<open>getopt\<close>

definition no_more_optchars :: "getopt_state \<Rightarrow> int \<times> getopt_state" where
  "no_more_optchars s = (-1, s\<lparr>optcursor := None\<rparr>)"

text \<open>The tail both branches of the option lookup reach.\<close>

definition finish_optchar :: "int \<Rightarrow> getopt_state \<Rightarrow> int \<times> getopt_state" where
  "finish_optchar optchar s =
     (case optcursor s of
        None \<Rightarrow> (optchar, s\<lparr>optind := optind s + 1\<rparr>)
      | Some cur \<Rightarrow>
          let s = s\<lparr>optcursor := Some (tl cur)\<rparr> in
          (optchar, if tl cur = [] then s\<lparr>optind := optind s + 1\<rparr> else s))"

text \<open>The argument of an option that is followed by a colon in \<open>optstring\<close>.\<close>

definition option_argument ::
  "int \<Rightarrow> string option list \<Rightarrow> string \<Rightarrow> string \<Rightarrow> string \<Rightarrow> getopt_state \<Rightarrow> (int \<times> getopt_state) outcome" where
  "option_argument argc argv optstring optdecl cur s =
     (let optchar = char_int (char_at cur 0);
          s = s\<lparr>optarg := Some (tl cur), optcursor := None\<rparr> in
      if tl cur \<noteq> [] then Inr (optchar, s)
      else if char_at optdecl 2 \<noteq> CHR '':'' then
        (let s = s\<lparr>optind := optind s + 1\<rparr> in
         if optind s < argc then
           (case argv_at argv (optind s) of
              Inl a \<Rightarrow> Inl a
            | Inr v \<Rightarrow> Inr (optchar, s\<lparr>optarg := v\<rparr>))
         else
           Inr (if char_at optstring 0 = CHR '':'' then char_int (CHR '':'') else char_int (CHR ''?''),
                s\<lparr>optarg := None\<rparr>))
      else Inr (optchar, s\<lparr>optarg := None\<rparr>))"

definition scan_optchar ::
  "int \<Rightarrow> string option list \<Rightarrow> string \<Rightarrow> string \<Rightarrow> getopt_state \<Rightarrow> (int \<times> getopt_state) outcome" where
  "scan_optchar argc argv optstring cur s =
     (let optchar = char_at cur 0;
          s = s\<lparr>optcursor := Some cur, optopt := char_int optchar\<rparr> in
      case strchr optstring optchar of
        None \<Rightarrow> Inr (finish_optchar (char_int (CHR ''?'')) s)
      | Some optdecl \<Rightarrow>
          if char_at optdecl 1 = CHR '':'' then
            (case option_argument argc argv optstring optdecl cur s of
               Inl a \<Rightarrow> Inl a
             | Inr (r, s) \<Rightarrow> Inr (finish_optchar r s))
          else Inr (finish_optchar (char_int optchar) s))"

definition getopt :: "int \<Rightarrow> string option list \<Rightarrow> string \<Rightarrow> getopt_state \<Rightarrow> (int \<times> getopt_state) outcome" where
  "getopt argc argv optstring s =
     (let s = s\<lparr>optarg := None, opterr := 0, optopt := 0\<rparr> in
      if argc \<le> optind s then Inr (no_more_optchars s)
      else case argv_at argv (optind s) of
        Inl a \<Rightarrow> Inl a
      | Inr None \<Rightarrow> Inr (no_more_optchars s)
      | Inr (Some arg) \<Rightarrow>
          if char_at arg 0 \<noteq> CHR ''-'' then Inr (no_more_optchars s)
          else if arg = ''-'' then Inr (no_more_optchars s)
          else if arg = ''--'' then Inr (no_more_optchars (s\<lparr>optind := optind s + 1\<rparr>))
          else
            (case optcursor s of
               Some (c # cur) \<Rightarrow> scan_optchar argc argv optstring (c # cur) s
             | _ \<Rightarrow> scan_optchar argc argv optstring (tl arg) s))"

section \<open>getopt_long\<close>

text \<open>
  The search for a long option: the last match and the number of matches. The array ends with an
  entry whose name is null; running past the last entry is undefined.
\<close>

fun find_matches ::
  "option_s list \<Rightarrow> string \<Rightarrow> nat \<Rightarrow> nat \<Rightarrow> (nat \<times> option_s) option \<times> nat \<Rightarrow>
     ((nat \<times> option_s) option \<times> nat) outcome" where
  "find_matches [] cur len i acc = Inl (UB ''longopts read past its end'')"
| "find_matches (op # ops) cur len i (match, num) =
     (case name op of
        None \<Rightarrow> Inr (match, num)
      | Some nm \<Rightarrow>
          find_matches ops cur len (Suc i)
            (if strncmp_eq nm cur len then (Some (i, op), Suc num) else (match, num)))"

text \<open>What a unique match does: the stores, the result and the argument.\<close>

definition take_match ::
  "int \<Rightarrow> string option list \<Rightarrow> string \<Rightarrow> nat option \<Rightarrow> nat \<Rightarrow> option_s \<Rightarrow> getopt_state \<Rightarrow> (int \<times> getopt_state) outcome" where
  "take_match argc argv arg longindex i match s =
     (let s = (case longindex of None \<Rightarrow> s | Some a \<Rightarrow> s\<lparr>mem := (mem s)(a := int i)\<rparr>);
          s = (case flag match of None \<Rightarrow> s | Some a \<Rightarrow> s\<lparr>mem := (mem s)(a := val match)\<rparr>);
          retval = (case flag match of None \<Rightarrow> val match | Some _ \<Rightarrow> 0) in
      if has_arg match \<noteq> no_argument then
        (let s = s\<lparr>optarg := map_option tl (strchr arg (CHR ''=''))\<rparr> in
         if has_arg match = required_argument then
           (if optarg s = None then
              (let s = s\<lparr>optind := optind s + 1\<rparr> in
               if optind s < argc then
                 (case argv_at argv (optind s) of
                    Inl a \<Rightarrow> Inl a
                  | Inr v \<Rightarrow> Inr (if v = None then char_int (CHR '':'') else retval, s\<lparr>optarg := v\<rparr>))
               else Inr (char_int (CHR '':''), s))
            else Inr (retval, s))
         else Inr (retval, s))
      else if strchr arg (CHR ''='') \<noteq> None then Inr (char_int (CHR ''?''), s)
      else Inr (retval, s))"

definition getopt_long ::
  "int \<Rightarrow> string option list \<Rightarrow> string \<Rightarrow> option_s list \<Rightarrow> nat option \<Rightarrow> getopt_state \<Rightarrow> (int \<times> getopt_state) outcome" where
  "getopt_long argc argv optstring longopts longindex s =
     (let s = s\<lparr>optarg := None, optopt := 0\<rparr> in
      if argc \<le> optind s then Inr (-1, s)
      else case argv_at argv (optind s) of
        Inl a \<Rightarrow> Inl a
      | Inr None \<Rightarrow> Inl (UB ''strlen of a null pointer'')
      | Inr (Some arg) \<Rightarrow>
          if length arg < 3 \<or> \<not> strncmp_eq arg ''--'' 2 then getopt argc argv optstring s
          else
            (case find_matches longopts (drop 2 arg) (strcspn (drop 2 arg) (CHR ''='')) 0 (None, 0) of
               Inl a \<Rightarrow> Inl a
             | Inr (match, num_matches) \<Rightarrow>
                 (case (if num_matches = 1 then match else None) of
                    None \<Rightarrow> Inr (char_int (CHR ''?''), s\<lparr>optind := optind s + 1\<rparr>)
                  | Some (i, m) \<Rightarrow>
                      (case take_match argc argv arg longindex i m s of
                         Inl a \<Rightarrow> Inl a
                       | Inr (r, s) \<Rightarrow> Inr (r, s\<lparr>optind := optind s + 1\<rparr>)))))"

section \<open>The loop over the options\<close>

text \<open>
  \<open>while ((arg = getopt(argc, argv, optstring)) != EOF)\<close>, the loop every \<open>main\<close> has, with the
  body as a function of the result and \<open>optarg\<close> on the program's variables. \<open>None\<close> is a
  loop that does not end.
\<close>

type_synonym 'c option_body = "int \<Rightarrow> string option \<Rightarrow> 'c \<Rightarrow> 'c outcome"

partial_function (option) getopt_loop ::
  "'c option_body \<Rightarrow> int \<Rightarrow> string option list \<Rightarrow> string \<Rightarrow> getopt_state \<Rightarrow> 'c \<Rightarrow>
     ('c \<times> getopt_state) outcome option" where
  "getopt_loop body argc argv optstring s c =
     (case getopt argc argv optstring s of
        Inl a \<Rightarrow> Some (Inl a)
      | Inr (r, s') \<Rightarrow>
          if r = -1 then Some (Inr (c, s'))
          else case body r (optarg s') c of
            Inl a \<Rightarrow> Some (Inl a)
          | Inr c' \<Rightarrow> getopt_loop body argc argv optstring s' c')"

declare getopt_loop.simps [code]

section \<open>Option syntax\<close>

text \<open>
  What \<open>optstring\<close> says of a letter: unknown, or taking no argument, an argument, or an
  argument in the same word only.
\<close>

datatype arg_kind = NoArg | ArgRequired | ArgOptional

definition option_kind :: "string \<Rightarrow> char \<Rightarrow> arg_kind option" where
  "option_kind optstring c =
     (case dropWhile (\<lambda>x. x \<noteq> c) optstring of
        [] \<Rightarrow> None
      | _ # t \<Rightarrow> Some (if take 2 t = ''::'' then ArgOptional
                       else if take 1 t = '':'' then ArgRequired else NoArg))"

definition missing_argument :: "string \<Rightarrow> int" where
  "missing_argument optstring = (if take 1 optstring = '':'' then char_int (CHR '':'') else char_int (CHR ''?''))"

text \<open>
  The options a command line holds, as pairs of the letter and the argument, and the operands that
  are left. The second argument is the part of a word of options that is still to be read.
\<close>

function options :: "string \<Rightarrow> string \<Rightarrow> string list \<Rightarrow> (int \<times> string option) list \<times> string list" where
  "options opts (c # cs) ws =
     (case option_kind opts c of
        None \<Rightarrow> apfst (Cons (char_int (CHR ''?''), None)) (options opts cs ws)
      | Some NoArg \<Rightarrow> apfst (Cons (char_int c, None)) (options opts cs ws)
      | Some ArgOptional \<Rightarrow>
          apfst (Cons (char_int c, if cs = [] then None else Some cs)) (options opts [] ws)
      | Some ArgRequired \<Rightarrow>
          if cs \<noteq> [] then apfst (Cons (char_int c, Some cs)) (options opts [] ws)
          else (case ws of
                  [] \<Rightarrow> ([(missing_argument opts, None)], [])
                | w # ws' \<Rightarrow> apfst (Cons (char_int c, Some w)) (options opts [] ws')))"
| "options opts [] [] = ([], [])"
| "options opts [] (w # ws) =
     (if take 1 w \<noteq> ''-'' \<or> w = ''-'' then ([], w # ws)
      else if w = ''--'' then ([], ws)
      else options opts (tl w) ws)"
  by pat_completeness auto

termination
  by (relation "measure (\<lambda>(opts, cs, ws). length cs + (\<Sum>w\<leftarrow>ws. Suc (length w)))")
     (auto simp: neq_Nil_conv)

text \<open>Running the body of the loop over a list of options.\<close>

fun run_options ::
  "'c option_body \<Rightarrow> (int \<times> string option) list \<Rightarrow> 'c \<Rightarrow> 'c outcome" where
  "run_options body [] c = Inr c"
| "run_options body ((r, a) # items) c =
     (case body r a c of Inl e \<Rightarrow> Inl e | Inr c' \<Rightarrow> run_options body items c')"

text \<open>A colon of \<open>optstring\<close> is itself found as a letter.\<close>

lemma colon_is_an_option: "option_kind ''p:L:?'' (CHR '':'') = Some NoArg"
  by (simp add: option_kind_def)

section \<open>The scanner implements the syntax\<close>

text \<open>
  How the globals stand for a position of the specification: \<open>cs\<close> is what is left of the current
  word of options and \<open>ws\<close> the words after it. Between words \<open>optcursor\<close> is null or at a
  terminator.
\<close>

definition option_word :: "string \<Rightarrow> bool" where
  "option_word w \<longleftrightarrow> take 1 w = ''-'' \<and> w \<noteq> ''-'' \<and> w \<noteq> ''--''"

definition scanning :: "string list \<Rightarrow> getopt_state \<Rightarrow> string \<Rightarrow> string list \<Rightarrow> bool" where
  "scanning args s cs ws \<longleftrightarrow>
     1 \<le> optind s \<and> optind s \<le> int (length args) + 1 \<and>
     (if optcursor s = None \<or> optcursor s = Some []
      then cs = [] \<and> ws = drop (nat (optind s)) args
      else optcursor s = Some cs \<and> optind s < int (length args) \<and> c_string cs \<and>
           option_word (args ! nat (optind s)) \<and> ws = drop (Suc (nat (optind s))) args)"

text \<open>What one call must return, given what the specification finds from there on.\<close>

fun next_ok ::
  "string list \<Rightarrow> string \<Rightarrow> int \<Rightarrow> getopt_state \<Rightarrow> (int \<times> string option) list \<times> string list \<Rightarrow> bool" where
  "next_ok args opts r s ([], rest) \<longleftrightarrow>
     r = -1 \<and> scanning args s [] rest"
| "next_ok args opts r s ((r', a) # items, rest) \<longleftrightarrow>
     r = r' \<and> r \<noteq> -1 \<and> optarg s = a \<and>
     (\<exists>cs ws. scanning args s cs ws \<and> options opts cs ws = (items, rest))"

abbreviation argv_of :: "string list \<Rightarrow> string option list" where
  "argv_of args \<equiv> map Some args @ [None]"

lemma argv_at_argv_of:
  assumes "0 \<le> i" "i < int (length args)"
  shows "argv_at (argv_of args) i = Inr (Some (args ! nat i))"
  using assms by (auto simp: argv_at_def nth_append nat_less_iff)

lemma char_at_Cons [simp]: "char_at (c # s) 0 = c" "char_at (c # s) (Suc i) = char_at s i"
  by (simp_all add: char_at_def)

lemma take_1_char_at: "c \<noteq> NUL \<Longrightarrow> take 1 t = [c] \<longleftrightarrow> char_at t 0 = c"
  by (cases t) (auto simp: char_at_def)

lemma take_2_char_at:
  assumes "c \<noteq> NUL" "d \<noteq> NUL"
  shows "take 2 t = [c, d] \<longleftrightarrow> char_at t 0 = c \<and> char_at t 1 = d"
  using assms by (cases t; cases "tl t") (auto simp: char_at_def)

lemma strchr_option_kind:
  assumes "c \<noteq> NUL"
  shows "option_kind opts c =
    (case strchr opts c of
       None \<Rightarrow> None
     | Some d \<Rightarrow> Some (if char_at d 1 = CHR '':'' then if char_at d 2 = CHR '':'' then ArgOptional else ArgRequired
                       else NoArg))"
proof (cases "c \<in> set opts")
  case True
  then have "dropWhile (\<lambda>x. x \<noteq> c) opts \<noteq> []"
    by auto
  then obtain d t where "dropWhile (\<lambda>x. x \<noteq> c) opts = d # t"
    by (cases "dropWhile (\<lambda>x. x \<noteq> c) opts") auto
  with True show ?thesis
    by (auto simp: option_kind_def strchr_def take_1_char_at [simplified]
        take_2_char_at [unfolded numeral_2_eq_2] numeral_2_eq_2)
next
  case False
  then have d: "dropWhile (\<lambda>x. x \<noteq> c) opts = []"
    by auto
  show ?thesis
    using False assms by (simp add: option_kind_def strchr_def d)
qed

lemma char_int_minus_one: "char_int c = -1 \<longleftrightarrow> c = CHR 0xFF"
proof
  assume "char_int c = -1"
  then have "(of_char c :: nat) = 255"
    by (auto simp: char_int_def split: if_splits)
  then have "of_char c = (of_char (CHR 0xFF) :: nat)"
    by simp
  then show "c = CHR 0xFF"
    by (simp only: of_char_eq_iff)
qed (simp add: char_int_def)

lemma next_okI:
  assumes "r \<noteq> -1" "optarg s = a" "scanning args s cs ws"
  shows "next_ok args opts r s (apfst (Cons (r, a)) (options opts cs ws))"
  using assms by (cases "options opts cs ws") auto

lemma finish_after_argument [simp]:
  "optcursor s = None \<Longrightarrow> finish_optchar r s = (r, s\<lparr>optind := optind s + 1\<rparr>)"
  by (simp add: finish_optchar_def)

lemma finish_in_word:
  assumes "optcursor s = Some (c # cs)" "1 \<le> optind s" "optind s < int (length args)" "c_string cs"
    "option_word (args ! nat (optind s))" "optarg s = None" "r \<noteq> -1"
  shows "\<exists>s'. finish_optchar r s = (r, s') \<and>
    next_ok args opts r s' (apfst (Cons (r, None)) (options opts cs (drop (Suc (nat (optind s))) args)))"
proof -
  have "scanning args (snd (finish_optchar r s)) cs (drop (Suc (nat (optind s))) args)"
    using assms by (auto simp: finish_optchar_def scanning_def Let_def nat_add_distrib)
  moreover have "optarg (snd (finish_optchar r s)) = None" "fst (finish_optchar r s) = r"
    using assms by (auto simp: finish_optchar_def Let_def)
  ultimately show ?thesis
    using \<open>r \<noteq> -1\<close> by (intro exI [of _ "snd (finish_optchar r s)"] conjI next_okI) (simp_all add: prod_eq_iff)
qed

lemma scanning_after_word:
  assumes "optcursor s = None" "0 \<le> i" "i \<le> int (length args)" "optind s = i + 1"
  shows "scanning args s [] (drop (Suc (nat i)) args)"
  using assms by (auto simp: scanning_def nat_add_distrib)

lemma argument_step:
  assumes i: "1 \<le> optind s" "optind s < int (length args)" and c: "char_int c \<noteq> -1"
    and kind: "option_kind opts c = Some (if char_at d 2 = CHR '':'' then ArgOptional else ArgRequired)"
  shows "\<exists>r s'. option_argument (int (length args)) (argv_of args) opts d (c # cs) s = Inr (r, s') \<and>
    optcursor s' = None \<and>
    next_ok args opts r (s'\<lparr>optind := optind s' + 1\<rparr>) (options opts (c # cs) (drop (Suc (nat (optind s))) args))"
proof -
  have here: "optind s < int (length args) \<Longrightarrow> optcursor t = None \<Longrightarrow> optind t = optind s + 1 \<Longrightarrow>
      scanning args t [] (drop (Suc (nat (optind s))) args)" for t
    using i by (intro scanning_after_word) auto
  consider "cs \<noteq> []" | "cs = []" "char_at d 2 = CHR '':''"
    | w ws where "cs = []" "char_at d 2 \<noteq> CHR '':''" "drop (Suc (nat (optind s))) args = w # ws"
    | "cs = []" "char_at d 2 \<noteq> CHR '':''" "drop (Suc (nat (optind s))) args = []"
    by (cases "drop (Suc (nat (optind s))) args") blast+
  then show ?thesis
  proof cases
    case 1
    with kind c here i show ?thesis
      by (auto simp: option_argument_def Let_def intro!: next_okI)
  next
    case 2
    with kind c here i show ?thesis
      by (auto simp: option_argument_def Let_def intro!: next_okI)
  next
    case (3 w ws)
    then have j: "Suc (nat (optind s)) < length args" "args ! Suc (nat (optind s)) = w"
      by (metis drop_eq_Nil list.distinct(1) not_le) (metis "3"(3) nth_via_drop)
    then have "argv_at (argv_of args) (optind s + 1) = Inr (Some w)"
      using i argv_at_argv_of [of "optind s + 1" args] by (simp add: nat_add_distrib)
    moreover have "ws = drop (Suc (nat (optind s + 1))) args"
      using "3"(3) i by (simp add: nat_add_distrib) (metis drop_Suc list.sel(3) tl_drop)
    ultimately show ?thesis
      using 3 j kind c i scanning_after_word [of _ "optind s + 1" args]
      by (auto simp: option_argument_def Let_def intro!: next_okI)
  next
    case 4
    with i have "optind s + 1 = int (length args)"
      by auto
    with 4 kind c i show ?thesis
      by (auto simp: option_argument_def Let_def missing_argument_def scanning_def take_1_char_at [simplified]
          char_int_minus_one)
  qed
qed

lemma scan_step:
  assumes cs: "c_string (c # cs)" and i: "1 \<le> optind s" "optind s < int (length args)"
    and w: "option_word (args ! nat (optind s))" and eof: "CHR 0xFF \<notin> set opts" and none: "optarg s = None"
  shows "\<exists>r s'. scan_optchar (int (length args)) (argv_of args) opts (c # cs) s = Inr (r, s') \<and>
    next_ok args opts r s' (options opts (c # cs) (drop (Suc (nat (optind s))) args))"
proof -
  define t where "t = s\<lparr>optcursor := Some (c # cs), optopt := char_int c\<rparr>"
  define ws where "ws = drop (Suc (nat (optind s))) args"
  have c: "c \<noteq> NUL" "c_string cs"
    using cs by (auto simp: c_string_def)
  note kind = strchr_option_kind [OF c(1), of opts]
  have known: "char_int c \<noteq> -1" if "strchr opts c = Some d" for d
    using that eof c by (auto simp: char_int_minus_one strchr_def split: if_splits)
  have in_word: "\<exists>s'. finish_optchar r t = (r, s') \<and> next_ok args opts r s' (apfst (Cons (r, None)) (options opts cs ws))"
    if "r \<noteq> -1" for r
    unfolding ws_def using finish_in_word [of t c cs args r opts] that i c w none by (simp add: t_def)
  have scan: "scan_optchar (int (length args)) (argv_of args) opts (c # cs) s =
      (case strchr opts c of
        None \<Rightarrow> Inr (finish_optchar (char_int (CHR ''?'')) t)
      | Some optdecl \<Rightarrow>
          if char_at optdecl 1 = CHR '':'' then
            (case option_argument (int (length args)) (argv_of args) opts optdecl (c # cs) t of
               Inl a \<Rightarrow> Inl a
             | Inr (r, s) \<Rightarrow> Inr (finish_optchar r s))
          else Inr (finish_optchar (char_int c) t))"
    unfolding scan_optchar_def t_def Let_def char_at_Cons by (rule refl)
  show ?thesis
    unfolding ws_def [symmetric]
  proof (cases "strchr opts c")
    case None
    with in_word [of "char_int (CHR ''?'')"] kind show "\<exists>r s'. scan_optchar (int (length args)) (argv_of args) opts (c # cs) s = Inr (r, s') \<and>
       next_ok args opts r s' (options opts (c # cs) ws)"
      by (auto simp: scan char_int_minus_one)
  next
    case (Some d)
    show "\<exists>r s'. scan_optchar (int (length args)) (argv_of args) opts (c # cs) s = Inr (r, s') \<and>
       next_ok args opts r s' (options opts (c # cs) ws)"
    proof (cases "char_at d 1 = CHR '':''")
      case False
      with Some in_word [of "char_int c"] kind known show ?thesis
        by (auto simp: scan)
    next
      case True
      with Some kind have "option_kind opts c = Some (if char_at d 2 = CHR '':'' then ArgOptional else ArgRequired)"
        by simp
      then obtain r s' where "option_argument (int (length args)) (argv_of args) opts d (c # cs) t = Inr (r, s')"
        "optcursor s' = None" "next_ok args opts r (s'\<lparr>optind := optind s' + 1\<rparr>) (options opts (c # cs) ws)"
        using argument_step [of t args c opts d cs] known [OF Some] i by (auto simp: t_def ws_def)
      with Some True show ?thesis
        by (simp add: scan)
    qed
  qed
qed

lemma getopt_in_word:
  assumes s: "scanning args s (c # cs) ws" and eof: "CHR 0xFF \<notin> set opts"
  shows "\<exists>r s'. getopt (int (length args)) (argv_of args) opts s = Inr (r, s') \<and>
    next_ok args opts r s' (options opts (c # cs) ws)"
proof -
  let ?t = "s\<lparr>optarg := None, opterr := 0, optopt := 0\<rparr>"
  have word: "optcursor s = Some (c # cs)" "1 \<le> optind s" "c_string (c # cs)" "optind s < int (length args)"
    "option_word (args ! nat (optind s))" "ws = drop (Suc (nat (optind s))) args"
    using s by (auto simp: scanning_def split: if_splits)
  then have "getopt (int (length args)) (argv_of args) opts s =
      scan_optchar (int (length args)) (argv_of args) opts (c # cs) ?t"
    using argv_at_argv_of [of "optind s" args]
    by (auto simp: getopt_def Let_def option_word_def take_1_char_at [simplified])
  with scan_step [of c cs ?t args opts] word eof show ?thesis
    by simp
qed

lemma getopt_between_words:
  assumes s: "scanning args s [] (w # ws)" and w: "c_string w" and eof: "CHR 0xFF \<notin> set opts"
  shows "\<exists>r s'. getopt (int (length args)) (argv_of args) opts s = Inr (r, s') \<and>
    next_ok args opts r s' (options opts [] (w # ws))"
proof -
  let ?t = "s\<lparr>optarg := None, opterr := 0, optopt := 0\<rparr>"
  have cur: "optcursor s = None \<or> optcursor s = Some []" and drop: "drop (nat (optind s)) args = w # ws"
    and ind: "1 \<le> optind s"
    using s by (auto simp: scanning_def split: if_splits)
  have "nat (optind s) < length args"
    using drop by (metis drop_eq_Nil leI list.distinct(1))
  then have "optind s < int (length args)" "args ! nat (optind s) = w" "ws = drop (Suc (nat (optind s))) args"
    using ind drop by (simp_all add: nth_via_drop) (metis drop_Suc list.sel(3) tl_drop)
  note here = this
  have call: "getopt (int (length args)) (argv_of args) opts s =
     (if char_at w 0 \<noteq> CHR ''-'' then Inr (no_more_optchars ?t)
      else if w = ''-'' then Inr (no_more_optchars ?t)
      else if w = ''--'' then Inr (no_more_optchars (?t\<lparr>optind := optind ?t + 1\<rparr>))
      else scan_optchar (int (length args)) (argv_of args) opts (tl w) ?t)"
    using here ind cur argv_at_argv_of [of "optind s" args] by (auto simp: getopt_def Let_def)
  show ?thesis
  proof (cases "option_word w")
    case False
    with here drop ind show ?thesis
      by (auto simp: call option_word_def take_1_char_at [simplified] no_more_optchars_def scanning_def
          nat_add_distrib char_at_def)
  next
    case word: True
    then obtain c cs where "tl w = c # cs" "c_string (c # cs)"
      using w by (cases w; cases "tl w") (auto simp: option_word_def c_string_def)
    with word scan_step [of c cs ?t args opts] here ind eof show ?thesis
      by (auto simp: call option_word_def take_1_char_at [simplified])
  qed
qed

text \<open>One call of \<open>getopt\<close> finds what the specification finds next.\<close>

lemma getopt_step:
  assumes args: "list_all c_string args" and eof: "CHR 0xFF \<notin> set opts" and s: "scanning args s cs ws"
  shows "\<exists>r s'. getopt (int (length args)) (argv_of args) opts s = Inr (r, s') \<and>
    next_ok args opts r s' (options opts cs ws)"
proof (cases cs)
  case (Cons c cs')
  with getopt_in_word s eof show ?thesis
    by simp
next
  case Nil
  show ?thesis
  proof (cases ws)
    case (Cons w ws')
    then have "c_string w"
      using s \<open>cs = []\<close> args
      by (auto simp: scanning_def list_all_iff c_string_def split: if_splits dest!: arg_cong [where f = set] in_set_dropD)
    with getopt_between_words s eof Cons \<open>cs = []\<close> show ?thesis
      by simp
  next
    case Nil
    with \<open>cs = []\<close> s have "int (length args) \<le> optind s" "1 \<le> optind s" "optind s \<le> int (length args) + 1"
      by (auto simp: scanning_def c_string_def option_word_def split: if_splits)
    with Nil \<open>cs = []\<close> show ?thesis
      by (auto simp: getopt_def no_more_optchars_def scanning_def Let_def)
  qed
qed

lemma getopt_loop_options:
  assumes "list_all c_string args" "CHR 0xFF \<notin> set opts" "scanning args s cs ws"
    "options opts cs ws = (items, rest)"
  shows "case run_options body items c of
      Inl e \<Rightarrow> getopt_loop body (int (length args)) (argv_of args) opts s c = Some (Inl e)
    | Inr c' \<Rightarrow> \<exists>s'. getopt_loop body (int (length args)) (argv_of args) opts s c = Some (Inr (c', s')) \<and>
        scanning args s' [] rest"
  using assms(3,4)
proof (induction items arbitrary: s cs ws c)
  case Nil
  from getopt_step [OF assms(1,2) Nil(1)] Nil(2) show ?case
    by (subst getopt_loop.simps) auto
next
  case (Cons item items)
  obtain r a where item: "item = (r, a)"
    by fastforce
  from getopt_step [OF assms(1,2) Cons.prems(1)] Cons.prems(2) item obtain s' cs' ws' where
    step: "getopt (int (length args)) (argv_of args) opts s = Inr (r, s')" "r \<noteq> -1" "optarg s' = a" and
    rest: "scanning args s' cs' ws'" "options opts cs' ws' = (items, rest)"
    by auto
  from step have loop: "getopt_loop body (int (length args)) (argv_of args) opts s c =
      (case body r a c of
         Inl e \<Rightarrow> Some (Inl e)
       | Inr c' \<Rightarrow> getopt_loop body (int (length args)) (argv_of args) opts s' c')"
    by (subst getopt_loop.simps) simp
  show ?case
    unfolding item loop using Cons.IH [OF rest] by (cases "body r a c") (simp_all cong: sum.case_cong)
qed

section \<open>The interface for programs\<close>

text \<open>
  What a \<open>main\<close> relies on: the loop over the options of a command line runs its body on the
  options of the syntax. The example applications are written against this interface; on Windows
  it is provided by the functions of this theory, elsewhere by the C library.
\<close>

locale option_loop =
  fixes loop :: "'c option_body \<Rightarrow> string list \<Rightarrow> string \<Rightarrow> 'c \<Rightarrow> 'c outcome option"
  assumes loop_options: "list_all c_string args \<Longrightarrow> CHR 0xFF \<notin> set opts \<Longrightarrow>
    loop body args opts c = Some (run_options body (fst (options opts [] (tl args))) c)"
begin

text \<open>The usual command line: every word is an option letter or its argument.\<close>

lemma loop_arguments:
  assumes "list_all c_string args" "CHR 0xFF \<notin> set opts"
    "tl args = concat (map (\<lambda>(l, a). [[CHR ''-'', l], a]) items)"
    "list_all (\<lambda>(l, a). option_kind opts l = Some ArgRequired \<and> l \<noteq> CHR ''-'') items"
  shows "loop body args opts c = Some (run_options body (map (\<lambda>(l, a). (char_int l, Some a)) items) c)"
proof -
  have "options opts [] (concat (map (\<lambda>(l, a). [[CHR ''-'', l], a]) items)) =
      (map (\<lambda>(l, a). (char_int l, Some a)) items, [])"
    using assms(4) by (induction items) auto
  with loop_options [OF assms(1,2)] assms(3) show ?thesis
    by simp
qed

end

definition parse_args :: "'c option_body \<Rightarrow> string list \<Rightarrow> string \<Rightarrow> 'c \<Rightarrow> 'c outcome option" where
  "parse_args body args optstring c =
     map_option (map_sum id fst) (getopt_loop body (int (length args)) (argv_of args) optstring getopt_init c)"

lemma scanning_init: "scanning args getopt_init [] (tl args)"
  by (simp add: scanning_def getopt_init_def drop_Suc)

interpretation args: option_loop parse_args
proof
  fix args opts and body :: "'c option_body" and c
  assume asms: "list_all c_string args" "CHR 0xFF \<notin> set opts"
  obtain items rest where "options opts [] (tl args) = (items, rest)"
    by fastforce
  with getopt_loop_options [OF asms scanning_init, of items rest body c]
  show "parse_args body args opts c = Some (run_options body (fst (options opts [] (tl args))) c)"
    by (auto simp: parse_args_def split: sum.splits)
qed

section \<open>Long options\<close>

text \<open>
  What \<open>--name\<close> and \<open>--name=value\<close> mean for the option they select: the result, the
  argument and the number of words consumed, given the next word if there is one.
\<close>

definition long_word :: "string \<Rightarrow> string option \<Rightarrow> string" where
  "long_word nm given = ''--'' @ nm @ (case given of None \<Rightarrow> [] | Some v \<Rightarrow> CHR ''='' # v)"

fun long_outcome :: "option_s \<Rightarrow> string option \<Rightarrow> string option \<Rightarrow> int \<times> string option \<times> int" where
  "long_outcome op given following =
     (let ret = (if flag op = None then val op else 0) in
      if has_arg op = no_argument then
        (if given = None then ret else char_int (CHR ''?''), None, 1)
      else if has_arg op = required_argument \<and> given = None then
        (if following = None then char_int (CHR '':'') else ret, following, 2)
      else (ret, given, 1))"

text \<open>The entries an abbreviation selects, with their indices.\<close>

definition long_hits :: "option_s list \<Rightarrow> string \<Rightarrow> (nat \<times> option_s) list" where
  "long_hits ops nm = filter (\<lambda>(i, op). prefix nm (the (name op))) (enumerate 0 ops)"

definition word_after :: "string list \<Rightarrow> int \<Rightarrow> string option" where
  "word_after args i = (if i + 1 < int (length args) then Some (args ! nat (i + 1)) else None)"

definition store :: "nat option \<Rightarrow> int \<Rightarrow> (nat \<Rightarrow> int) \<Rightarrow> nat \<Rightarrow> int" where
  "store ptr v m = (case ptr of None \<Rightarrow> m | Some a \<Rightarrow> m(a := v))"

lemma strncmp_eq_prefix: "strncmp_eq s (nm @ rest) (length nm) = prefix nm s"
proof (induction nm arbitrary: s)
  case (Cons c nm)
  then show ?case
    by (cases s) auto
qed simp

lemma find_matches_hits:
  assumes "list_all (\<lambda>op. name op \<noteq> None) ops" "name stop = None"
  shows "find_matches (ops @ stop # rest) (nm @ given) (length nm) i (m, n) =
    Inr (let hits = filter (\<lambda>(i, op). prefix nm (the (name op))) (enumerate i ops)
         in (if hits = [] then m else Some (last hits), n + length hits))"
  using assms
proof (induction ops arbitrary: i m n)
  case (Cons op ops)
  then obtain x where "name op = Some x"
    by auto
  with Cons show ?case
    by (simp add: strncmp_eq_prefix Let_def)
qed simp

lemma strcspn_word [simp]: "CHR ''='' \<notin> set nm \<Longrightarrow>
    strcspn (nm @ (case given of None \<Rightarrow> [] | Some v \<Rightarrow> CHR ''='' # v)) (CHR ''='') = length nm"
  by (auto simp: strcspn_def takeWhile_append split: option.split)

lemma strchr_word [simp]: "CHR ''='' \<notin> set nm \<Longrightarrow>
    strchr (long_word nm given) (CHR ''='') = map_option (Cons (CHR ''='')) given"
  by (auto simp: strchr_def long_word_def dropWhile_append split: option.split)

lemma take_match_outcome:
  assumes "0 \<le> optind s" "CHR ''='' \<notin> set nm" "optarg s = None"
    "long_outcome op given (word_after args (optind s)) = (r, a, k)"
  shows "take_match (int (length args)) (argv_of args) (long_word nm given) longindex i op s =
    Inr (r, s\<lparr>optarg := a, optind := optind s + k - 1,
      mem := store (flag op) (val op) (store longindex (int i) (mem s))\<rparr>)"
  using assms argv_at_argv_of [of "optind s + 1" args]
  by (cases given; cases longindex; cases "flag op")
     (auto simp: take_match_def Let_def store_def word_after_def split: if_splits)

section \<open>Properties\<close>

text \<open>
  C10. The loop \<open>while (getopt(...) != EOF)\<close> over any command line ends, reads no element outside
  \<open>argv\<close>, and runs its body on exactly the options the syntax of \<open>optstring\<close> gives the words
  of the command line: clustered flags, arguments in the same word or the next, optional arguments,
  \<open>?\<close> for an unknown letter or a missing argument (\<open>:\<close> when \<open>optstring\<close> starts with a
  colon), up to the first word that is no option or past a \<open>--\<close>. Afterwards \<open>optind\<close> is the
  index of the first operand. A body that exits or throws stops the loop. The letter 0xFF must not
  be declared, since as a signed \<open>char\<close> it is \<open>EOF\<close>.
\<close>

theorem getopt_loop_parses:
  assumes "list_all c_string args" "CHR 0xFF \<notin> set opts" "options opts [] (tl args) = (items, operands)"
  shows "case run_options body items c of
      Inl e \<Rightarrow> getopt_loop body (int (length args)) (argv_of args) opts getopt_init c = Some (Inl e)
    | Inr c' \<Rightarrow> \<exists>s'. getopt_loop body (int (length args)) (argv_of args) opts getopt_init c = Some (Inr (c', s')) \<and>
        drop (nat (optind s')) args = operands \<and> 1 \<le> optind s' \<and> optind s' \<le> int (length args) + 1"
  using getopt_loop_options [OF assms(1,2) scanning_init assms(3), of body c]
  by (auto simp: scanning_def split: sum.splits if_splits)

definition collect :: "int \<Rightarrow> string option \<Rightarrow> (int \<times> string option) list \<Rightarrow> (int \<times> string option) list outcome" where
  "collect r a c = Inr (c @ [(r, a)])"

definition sample_line :: "string list" where
  "sample_line = [''prog'', ''-vq'', ''-p80'', ''-L'', ''::1'', ''-x'', ''-o'', ''-k7'', ''--'', ''-p'']"

theorem getopt_loop_parses_witness:
  "\<exists>s'. getopt_loop collect 10 (argv_of sample_line) ''p:L:vqo::k::'' getopt_init [] =
      Some (Inr ([(118, None), (113, None), (112, Some ''80''), (76, Some ''::1''), (63, None), (111, None), (107, Some ''7'')], s')) \<and>
    drop (nat (optind s')) sample_line = [''-p''] \<and> 1 \<le> optind s' \<and> optind s' \<le> 11"
proof -
  have "list_all c_string sample_line" "CHR 0xFF \<notin> set ''p:L:vqo::k::''"
    by (code_simp, simp)
  moreover have "options ''p:L:vqo::k::'' [] (tl sample_line) =
      ([(118, None), (113, None), (112, Some ''80''), (76, Some ''::1''), (63, None), (111, None), (107, Some ''7'')], [''-p''])"
    by code_simp
  ultimately show ?thesis
    using getopt_loop_parses [of sample_line "''p:L:vqo::k::''" _ _ collect "[]"]
    by (simp add: collect_def sample_line_def)
qed

text \<open>
  C27. On a word \<open>--name\<close> or \<open>--name=value\<close> \<open>getopt_long\<close> selects the entries whose name
  starts with \<open>name\<close>. If there is exactly one, it stores its index and, where the entry has a
  \<open>flag\<close>, its value through the caller's pointers, and returns result and argument as the kind of
  the entry says: no argument allowed, one required here or in the next word, or one optional here;
  \<open>optind\<close> moves past what was used. Otherwise it returns \<open>?\<close> and skips the word; that
  includes a complete name which another entry extends.
\<close>

theorem getopt_long_option:
  assumes "0 \<le> optind s" "optind s < int (length args)" "args ! nat (optind s) = long_word nm given"
    "CHR ''='' \<notin> set nm" "nm \<noteq> [] \<or> given \<noteq> None"
    "list_all (\<lambda>op. name op \<noteq> None) ops" "name stop = None"
  shows "\<exists>r s'. getopt_long (int (length args)) (argv_of args) optstring (ops @ [stop]) longindex s = Inr (r, s') \<and>
    (case long_hits ops nm of
       [(i, op)] \<Rightarrow>
         (r, optarg s', optind s' - optind s) = long_outcome op given (word_after args (optind s)) \<and>
         mem s' = store (flag op) (val op) (store longindex (int i) (mem s))
     | _ \<Rightarrow> r = char_int (CHR ''?'') \<and> optarg s' = None \<and> optind s' = optind s + 1 \<and> mem s' = mem s)"
proof -
  let ?s = "s\<lparr>optarg := None, optopt := 0\<rparr>"
  have drop: "drop 2 (long_word nm given) = nm @ (case given of None \<Rightarrow> [] | Some v \<Rightarrow> CHR ''='' # v)"
    and long: "\<not> length (long_word nm given) < 3" "strncmp_eq (long_word nm given) ''--'' 2"
    using assms(5) by (auto simp: long_word_def numeral_2_eq_2 Suc_le_eq not_less split: option.split)
  note call = find_matches_hits [OF assms(6,7), of "[]" nm _ 0 None 0, unfolded long_hits_def [symmetric]]
  have "getopt_long (int (length args)) (argv_of args) optstring (ops @ [stop]) longindex s =
     (case long_hits ops nm of
        [(i, op)] \<Rightarrow>
          (case take_match (int (length args)) (argv_of args) (long_word nm given) longindex i op ?s of
             Inl a \<Rightarrow> Inl a
           | Inr (r, s) \<Rightarrow> Inr (r, s\<lparr>optind := optind s + 1\<rparr>))
      | _ \<Rightarrow> Inr (char_int (CHR ''?''), ?s\<lparr>optind := optind ?s + 1\<rparr>))"
    using assms(1-4) long argv_at_argv_of [of "optind s" args]
    by (simp add: getopt_long_def Let_def drop call split: list.split)
  moreover have "take_match (int (length args)) (argv_of args) (long_word nm given) longindex i op ?s =
      (case long_outcome op given (word_after args (optind s)) of (r, a, k) \<Rightarrow>
         Inr (r, s\<lparr>optopt := 0, optarg := a, optind := optind s + k - 1,
           mem := store (flag op) (val op) (store longindex (int i) (mem s))\<rparr>))" for i op
    using take_match_outcome [of ?s nm op given args] assms(1,4) by (auto split: prod.split)
  ultimately show ?thesis
    by (auto split: list.splits prod.splits simp del: long_outcome.simps)
qed

definition sample_options :: "option_s list" where
  "sample_options =
     [\<lparr>name = Some ''port'', has_arg = required_argument, flag = None, val = 112\<rparr>,
      \<lparr>name = Some ''verb'', has_arg = no_argument, flag = Some 7, val = 1\<rparr>,
      \<lparr>name = Some ''verbose'', has_arg = no_argument, flag = Some 7, val = 2\<rparr>]"

definition sample_stop :: option_s where
  "sample_stop = \<lparr>name = None, has_arg = 0, flag = None, val = 0\<rparr>"

theorem getopt_long_option_witness:
  "(\<exists>r s'. getopt_long 3 (argv_of [''prog'', ''--po'', ''80'']) ''p:'' (sample_options @ [sample_stop]) (Some 3) getopt_init = Inr (r, s') \<and>
      (r, optarg s', optind s' - 1) = (112, Some ''80'', 2) \<and> mem s' = (\<lambda>_. 0)(3 := 0)) \<and>
   (\<exists>r s'. getopt_long 2 (argv_of [''prog'', ''--verb'']) ''p:'' (sample_options @ [sample_stop]) None getopt_init = Inr (r, s') \<and>
      r = 63 \<and> optarg s' = None \<and> optind s' = 2 \<and> mem s' = (\<lambda>_. 0))"
proof -
  have "long_hits sample_options ''po'' = [(0, sample_options ! 0)]"
    "long_hits sample_options ''verb'' = [(1, sample_options ! 1), (2, sample_options ! 2)]"
    by (simp_all add: long_hits_def sample_options_def)
  then show ?thesis
    using getopt_long_option [of getopt_init "[''prog'', ''--po'', ''80'']" "''po''" None sample_options sample_stop "''p:''" "Some 3"]
      getopt_long_option [of getopt_init "[''prog'', ''--verb'']" "''verb''" None sample_options sample_stop "''p:''" None]
    by (simp add: getopt_init_def long_word_def word_after_def sample_options_def sample_stop_def store_def
        no_argument_def required_argument_def char_int_def)
qed

end
