(* ===== verification/Example_Apps.thy ===== *)
theory Example_Apps
  imports TcpClient UdpSocket Getopt
begin

text \<open>
  \<open>examples/clientApp.cpp\<close>, \<open>examples/mcastApp.cpp\<close> and \<open>examples/unicastApp.cpp\<close>: each parses
  its command line, starts one socket object and sends the lines it reads from the standard input
  until the line \<open>quit\<close>, while the receive thread prints what arrives. The state of each callback
  object is the text it has written to \<open>std::cout\<close>.
\<close>

section \<open>The console\<close>

text \<open>
  The loop of every \<open>main\<close>: prompt, read a line, stop at \<open>quit\<close>, and hand every other line to the
  body. At the end of the input \<open>std::getline\<close> fails and leaves the fresh string empty. \<open>None\<close> is
  a loop still running when the fuel is used up.
\<close>

definition getline :: "string list \<Rightarrow> string \<times> string list" where
  "getline input = (case input of [] \<Rightarrow> ([], []) | l # ls \<Rightarrow> (l, ls))"

fun console ::
  "nat \<Rightarrow> (string \<Rightarrow> ('s, unit) state) \<Rightarrow> (string \<Rightarrow> ('s, unit outcome) state) \<Rightarrow> string list \<Rightarrow>
     ('s, unit outcome option) state" where
  "console 0 out body input = State_Monad.return None"
| "console (Suc fuel) out body input = do {
     out ''Data >'';
     let (data, rest) = getline input;
     if data = ''quit'' then State_Monad.return (Some (Inr ()))
     else do {
       r \<leftarrow> body data;
       (case r of
          Inl a \<Rightarrow> State_Monad.return (Some (Inl a))
        | Inr _ \<Rightarrow> console fuel out body rest)
     }
   }"

text \<open>\<open>std::cout\<close> of an application whose callback object keeps nothing else.\<close>

definition cout :: "string \<Rightarrow> (('w, string, 'z) sock_scheme, unit) state" where
  "cout text = State_Monad.update (\<lambda>s. s\<lparr>m_callback := m_callback s @ text\<rparr>)"

definition newline :: string where
  "newline = [CHR 0x0A]"

text \<open>\<open>static_cast<uint16_t>(std::stoul(optarg))\<close>\<close>

definition read_port :: "string option \<Rightarrow> uint16_t outcome" where
  "read_port arg =
     (case arg of
        None \<Rightarrow> Inl (UB ''std::string from a null pointer'')
      | Some text \<Rightarrow> (case stoul text of Inl e \<Rightarrow> Inl e | Inr v \<Rightarrow> Inr (ucast v)))"

text \<open>Streaming a \<open>const char*\<close>, which must not be null.\<close>

definition c_text :: "string option \<Rightarrow> string outcome" where
  "c_text ptr = (case ptr of None \<Rightarrow> Inl (UB ''null pointer streamed'') | Some text \<Rightarrow> Inr text)"

text \<open>
  What a \<open>main\<close> does with the result of its option loop: the only \<open>exit\<close> in the loop is that of
  \<open>case '?'\<close>, which calls \<open>usage()\<close> first, and an exception ends the program; otherwise construct,
  run the console, destroy.
\<close>

definition run_main ::
  "('s, unit) state \<Rightarrow> 'c outcome option \<Rightarrow> ('c \<Rightarrow> ('s, unit outcome) state) \<Rightarrow>
     ('s, unit outcome option) state \<Rightarrow> ('s, unit outcome) state \<Rightarrow> ('s, unit outcome option) state" where
  "run_main usage parsed start commands destroy =
     (case parsed of
        None \<Rightarrow> State_Monad.return None
      | Some (Inl (Exit code)) \<Rightarrow> do { usage; State_Monad.return (Some (Inl (Exit code))) }
      | Some (Inl a) \<Rightarrow> State_Monad.return (Some (Inl a))
      | Some (Inr c) \<Rightarrow> do {
          r \<leftarrow> start c;
          (case r of
             Inl a \<Rightarrow> State_Monad.return (Some (Inl a))
           | Inr _ \<Rightarrow> do {
               e \<leftarrow> commands;
               (case e of
                  Some (Inr _) \<Rightarrow> do { d \<leftarrow> destroy; State_Monad.return (Some d) }
                | _ \<Rightarrow> State_Monad.return e)
             })
        })"

section \<open>clientApp\<close>

definition ClientApp_ctor ::
  "platform \<Rightarrow> 'w SocketImpl \<Rightarrow> string option \<Rightarrow> uint16_t \<Rightarrow> (('w, string) TcpClient, unit outcome) state" where
  "ClientApp_ctor p core remoteIp port =
     obind (connectTo p core remoteIp port) (\<lambda>ret.
       if m_success ret then
         (case c_text remoteIp of
            Inl a \<Rightarrow> State_Monad.return (Inl a)
          | Inr ip \<Rightarrow> do {
              cout (''Connected to '' @ ip @ '':'' @ dec_nat (unat port) @ newline);
              State_Monad.return (Inr ())
            })
       else do {
         cout (m_msg ret @ newline);
         State_Monad.return (Inl (Exit 1))
       })"

definition ClientApp_sendMsg ::
  "platform \<Rightarrow> 'w SocketImpl \<Rightarrow> bytes \<Rightarrow> size_t \<Rightarrow> (('w, string) TcpClient, unit) state" where
  "ClientApp_sendMsg p core data len = do {
     ret \<leftarrow> TcpClient_sendMsg p core data len;
     if \<not> m_success ret then cout (''Send Error: '' @ m_msg ret @ newline) else State_Monad.return ()
   }"

definition ClientApp_callback :: "('w, string) TcpClient client_callback" where
  "ClientApp_callback =
     \<lparr>onReceiveData = (\<lambda>data. do {
        cout (''Received: '' @ data @ newline);
        State_Monad.return (Inr ()) }),
      onDisconnect = (\<lambda>ret. do {
        cout (''Disconnect: '' @ m_msg ret @ newline);
        State_Monad.return (Inl (Exit 0)) })\<rparr>"

text \<open>The \<open>switch\<close> over the options, on the variables \<open>addr\<close> and \<open>port\<close> of \<open>main\<close>.\<close>

definition clientApp_option :: "(string option \<times> uint16_t) option_body" where
  "clientApp_option arg oarg v =
     (case v of (addr, port) \<Rightarrow>
        if arg = char_int (CHR ''a'') then Inr (oarg, port)
        else if arg = char_int (CHR ''p'') then map_sum id (\<lambda>n. (addr, n)) (read_port oarg)
        else if arg = char_int (CHR ''?'') then Inl (Exit 1)
        else Inr v)"

definition clientApp_line :: "platform \<Rightarrow> 'w SocketImpl \<Rightarrow> string \<Rightarrow> (('w, string) TcpClient, unit outcome) state" where
  "clientApp_line p core data = do {
     ClientApp_sendMsg p core data (of_nat (length data));
     State_Monad.return (Inr ())
   }"

definition clientApp_usage :: "(('w, string) TcpClient, unit) state" where
  "clientApp_usage = cout (''ClientApp [-a <addr>][-p <port>]'' @ newline)"

definition clientApp_main ::
  "((string option \<times> uint16_t) option_body \<Rightarrow> string list \<Rightarrow> string \<Rightarrow> string option \<times> uint16_t \<Rightarrow>
      (string option \<times> uint16_t) outcome option) \<Rightarrow>
   platform \<Rightarrow> 'w SocketImpl \<Rightarrow> nat \<Rightarrow> string list \<Rightarrow> string list \<Rightarrow>
   (('w, string) TcpClient, unit outcome option) state" where
  "clientApp_main loop p core fuel args input =
     run_main clientApp_usage (loop clientApp_option args ''a:p:?'' (None, 0))
       (\<lambda>(addr, port). ClientApp_ctor p core addr port)
       (console fuel cout (clientApp_line p core) input)
       (TcpClient_destroy core False)"

section \<open>mcastApp\<close>

definition McastApp_ctor ::
  "platform \<Rightarrow> 'w SocketImpl \<Rightarrow> string option \<Rightarrow> uint16_t \<Rightarrow> string option \<Rightarrow>
   (('w, string) UdpSocket, unit outcome) state" where
  "McastApp_ctor p core multicastAddr port localIface =
     obind (startMcast p core multicastAddr port localIface) (\<lambda>ret.
       if m_success ret then
         (case c_text multicastAddr of
            Inl a \<Rightarrow> State_Monad.return (Inl a)
          | Inr ip \<Rightarrow> do {
              cout (''Connected to mcast group '' @ ip @ '':'' @ dec_nat (unat port) @ newline);
              State_Monad.return (Inr ())
            })
       else do {
         cout (''Error: '' @ m_msg ret @ newline);
         State_Monad.return (Inl (Exit 1))
       })"

definition McastApp_sendMsg ::
  "platform \<Rightarrow> 'w SocketImpl \<Rightarrow> bytes \<Rightarrow> size_t \<Rightarrow> (('w, string) UdpSocket, unit) state" where
  "McastApp_sendMsg p core data len = do {
     ret \<leftarrow> UdpSocket_sendMsg p core data len;
     if \<not> m_success ret then cout (''Send Error: '' @ m_msg ret @ newline) else State_Monad.return ()
   }"

definition McastApp_onReceiveData :: "bytes \<Rightarrow> (('w, string) UdpSocket, unit outcome) state" where
  "McastApp_onReceiveData data = do {
     cout (''Received: '' @ data @ newline);
     State_Monad.return (Inr ())
   }"

definition mcastApp_option :: "(string option \<times> string option \<times> uint16_t) option_body" where
  "mcastApp_option arg oarg v =
     (case v of (addr, local, port) \<Rightarrow>
        if arg = char_int (CHR ''m'') then Inr (oarg, local, port)
        else if arg = char_int (CHR ''p'') then map_sum id (\<lambda>n. (addr, local, n)) (read_port oarg)
        else if arg = char_int (CHR ''l'') then Inr (addr, oarg, port)
        else if arg = char_int (CHR ''?'') then Inl (Exit 1)
        else Inr v)"

definition mcastApp_line :: "platform \<Rightarrow> 'w SocketImpl \<Rightarrow> string \<Rightarrow> (('w, string) UdpSocket, unit outcome) state" where
  "mcastApp_line p core data = do {
     McastApp_sendMsg p core data (of_nat (length data));
     State_Monad.return (Inr ())
   }"

definition mcastApp_usage :: "(('w, string) UdpSocket, unit) state" where
  "mcastApp_usage = cout (''McastApp -m <mcastAddr> -p <port> -[-l <localAddr>]'' @ newline)"

definition mcastApp_main ::
  "((string option \<times> string option \<times> uint16_t) option_body \<Rightarrow> string list \<Rightarrow> string \<Rightarrow>
      string option \<times> string option \<times> uint16_t \<Rightarrow> (string option \<times> string option \<times> uint16_t) outcome option) \<Rightarrow>
   platform \<Rightarrow> 'w SocketImpl \<Rightarrow> nat \<Rightarrow> string list \<Rightarrow> string list \<Rightarrow>
   (('w, string) UdpSocket, unit outcome option) state" where
  "mcastApp_main loop p core fuel args input =
     run_main mcastApp_usage (loop mcastApp_option args ''m:p:l:?'' (None, None, 0))
       (\<lambda>(addr, local, port). McastApp_ctor p core addr port local)
       (console fuel cout (mcastApp_line p core) input)
       (UdpSocket_destroy core False)"

section \<open>unicastApp\<close>

text \<open>The constructor's options are set before the socket is started.\<close>

definition UnicastApp_ctor ::
  "platform \<Rightarrow> 'w SocketImpl \<Rightarrow> string option \<Rightarrow> string option \<Rightarrow> uint16_t \<Rightarrow> uint16_t \<Rightarrow>
   (('w, string) UdpSocket, unit outcome) state" where
  "UnicastApp_ctor p core remoteAddr listenAddr localPort port =
     (case listenAddr of
        None \<Rightarrow> State_Monad.return (Inl (UB ''std::string from a null pointer''))
      | Some listen \<Rightarrow> do {
          State_Monad.update (\<lambda>s. s\<lparr>m_sockOptions := choose_options
            (Some \<lparr>m_txBufSize = TX_BUFFER_SIZE, m_rxBufSize = RX_BUFFER_SIZE, m_listenAddr = listen\<rparr>)\<rparr>);
          obind (startUnicast p core remoteAddr localPort port) (\<lambda>ret.
            if m_success ret then
              (case c_text remoteAddr of
                 Inl a \<Rightarrow> State_Monad.return (Inl a)
               | Inr ip \<Rightarrow> do {
                   cout (''Listening on UDP '' @ listen @ '':'' @ dec_nat (unat localPort) @ '' sending to '' @
                     ip @ '':'' @ dec_nat (unat port) @ newline);
                   State_Monad.return (Inr ())
                 })
            else do {
              cout (''Error: '' @ m_msg ret @ newline);
              State_Monad.return (Inl (Exit 1))
            })
        })"

definition UnicastApp_sendMsg ::
  "platform \<Rightarrow> 'w SocketImpl \<Rightarrow> bytes \<Rightarrow> size_t \<Rightarrow> (('w, string) UdpSocket, unit) state" where
  "UnicastApp_sendMsg p core data len = do {
     ret \<leftarrow> UdpSocket_sendMsg p core data len;
     if \<not> m_success ret then cout (''Send Error: '' @ m_msg ret @ newline) else State_Monad.return ()
   }"

definition UnicastApp_onReceiveData :: "bytes \<Rightarrow> (('w, string) UdpSocket, unit outcome) state" where
  "UnicastApp_onReceiveData data = do {
     cout (''Received: '' @ data @ newline);
     State_Monad.return (Inr ())
   }"

text \<open>The variables are \<open>addr\<close>, \<open>listenAddr\<close>, \<open>localPort\<close> and \<open>port\<close>.\<close>

type_synonym unicast_vars = "string option \<times> string option \<times> uint16_t \<times> uint16_t"

definition unicastApp_option :: "unicast_vars option_body" where
  "unicastApp_option arg oarg v =
     (case v of (addr, listenAddr, localPort, port) \<Rightarrow>
        if arg = char_int (CHR ''a'') then Inr (oarg, listenAddr, localPort, port)
        else if arg = char_int (CHR ''l'') then map_sum id (\<lambda>n. (addr, listenAddr, n, port)) (read_port oarg)
        else if arg = char_int (CHR ''p'') then map_sum id (\<lambda>n. (addr, listenAddr, localPort, n)) (read_port oarg)
        else if arg = char_int (CHR ''L'') then Inr (addr, oarg, localPort, port)
        else if arg = char_int (CHR ''?'') then Inl (Exit 1)
        else Inr v)"

definition unicastApp_line :: "platform \<Rightarrow> 'w SocketImpl \<Rightarrow> string \<Rightarrow> (('w, string) UdpSocket, unit outcome) state" where
  "unicastApp_line p core data = do {
     UnicastApp_sendMsg p core data (of_nat (length data));
     State_Monad.return (Inr ())
   }"

definition unicastApp_usage :: "(('w, string) UdpSocket, unit) state" where
  "unicastApp_usage = cout (''UnicastApp -a <remoteAddr> -l <localPort> -p <port> -L <listenAddr>'' @ newline)"

definition unicastApp_main ::
  "(unicast_vars option_body \<Rightarrow> string list \<Rightarrow> string \<Rightarrow> unicast_vars \<Rightarrow> unicast_vars outcome option) \<Rightarrow>
   platform \<Rightarrow> 'w SocketImpl \<Rightarrow> nat \<Rightarrow> string list \<Rightarrow> string list \<Rightarrow>
   (('w, string) UdpSocket, unit outcome option) state" where
  "unicastApp_main loop p core fuel args input =
     run_main unicastApp_usage (loop unicastApp_option args ''a:l:p:L:?'' (None, Some ''0.0.0.0'', 0, 0))
       (\<lambda>(addr, listenAddr, localPort, port). UnicastApp_ctor p core addr listenAddr localPort port)
       (console fuel cout (unicastApp_line p core) input)
       (UdpSocket_destroy core False)"

lemma run_main_started:
  assumes "run_state (start c) s = (Inr (), u)"
  shows "wp (run_main usage (Some (Inr c)) start commands destroy) Q s =
    wp commands (\<lambda>e. case e of Some (Inr _) \<Rightarrow> wp destroy (\<lambda>d. Q (Some d)) | _ \<Rightarrow> Q e) u"
  using assms by (auto simp: run_main_def wp_def split: prod.splits option.splits sum.splits)

section \<open>Sending lines\<close>

text \<open>
  The interface between the console and an application: handling a line never aborts and has
  exactly the events \<open>sends\<close> allows for the line; printing has none.
\<close>

locale line_sender =
  fixes out :: "string \<Rightarrow> (('w, 'z) env_scheme, unit) state"
    and body :: "string \<Rightarrow> (('w, 'z) env_scheme, unit outcome) state"
    and sends :: "('w, 'z) env_scheme \<Rightarrow> string \<Rightarrow> event list \<Rightarrow> bool"
    and keeps :: "('w, 'z) env_scheme \<Rightarrow> ('w, 'z) env_scheme \<Rightarrow> bool"
  assumes out_silent: "wp (out text) (\<lambda>_ t. trace t = trace s \<and> keeps s t) s"
    and body_sends: "wp (body line) (\<lambda>r t. r = Inr () \<and> (\<exists>es. trace t = trace s @ es \<and> sends s line es) \<and> keeps s t) s"
    and keeps_sends: "keeps s t \<Longrightarrow> sends t = sends s"
    and keeps_refl: "keeps s s"
    and keeps_trans: "keeps s t \<Longrightarrow> keeps t u \<Longrightarrow> keeps s u"
begin

definition sent :: "('w, 'z) env_scheme \<Rightarrow> string list \<Rightarrow> ('w, 'z) env_scheme \<Rightarrow> bool" where
  "sent s ls t \<longleftrightarrow> (\<exists>ess. trace t = trace s @ concat ess \<and> list_all2 (sends s) ls ess) \<and> keeps s t"

lemma sent_Nil: "trace t = trace s \<Longrightarrow> keeps s t \<Longrightarrow> sent s [] t"
  by (auto simp: sent_def)

lemma sent_Cons:
  assumes "trace t = trace s" "keeps s t" "trace u = trace t @ es" "sends t l es" "keeps t u" "sent u ls v"
  shows "sent s (l # ls) v"
proof -
  obtain ess where "trace v = trace u @ concat ess" "list_all2 (sends u) ls ess"
    using assms(6) by (auto simp: sent_def)
  then have "trace v = trace s @ concat (es # ess)" "list_all2 (sends s) (l # ls) (es # ess)"
    using assms keeps_sends [OF assms(2)] keeps_sends [OF assms(5)] by simp_all
  moreover have "keeps s v"
    using assms(2,5,6) keeps_trans unfolding sent_def by blast
  ultimately show ?thesis
    unfolding sent_def by blast
qed

lemma console_line:
  assumes "fst (getline input) \<noteq> ''quit''"
    and "\<And>t. wp (console fuel out body (snd (getline input))) (\<lambda>r u. P r \<and> sent t ls u) t"
  shows "wp (console (Suc fuel) out body input) (\<lambda>r t. P r \<and> sent s (fst (getline input) # ls) t) s"
proof -
  have "wp (body (fst (getline input))) (\<lambda>r. wp (case r of Inl a \<Rightarrow> State_Monad.return (Some (Inl a))
        | Inr _ \<Rightarrow> console fuel out body (snd (getline input))) (\<lambda>r t. P r \<and> sent s (fst (getline input) # ls) t)) t"
    if "trace t = trace s" "keeps s t" for t
    by (rule wp_mono [OF body_sends]) (use that in \<open>auto intro!: wp_mono [OF assms(2)] intro: sent_Cons\<close>)
  then show ?thesis
    using assms(1) by (simp add: case_prod_beta Let_def) (rule wp_mono [OF out_silent], simp)
qed

text \<open>The lines before \<open>quit\<close> are sent in order, and the loop ends.\<close>

lemma console_quits:
  assumes "''quit'' \<notin> set ls" "length ls < fuel"
  shows "wp (console fuel out body (ls @ ''quit'' # rest)) (\<lambda>r t. r = Some (Inr ()) \<and> sent s ls t) s"
  using assms
proof (induction ls arbitrary: fuel s)
  case Nil
  then obtain f where "fuel = Suc f"
    by (cases fuel) auto
  then show ?case
    by (simp add: getline_def) (rule wp_mono [OF out_silent], simp add: sent_Nil)
next
  case (Cons l ls)
  then obtain f where f: "fuel = Suc f" "length ls < f"
    by (cases fuel) auto
  then show ?case
    using console_line [of "l # ls @ ''quit'' # rest" f "\<lambda>r. r = Some (Inr ())" ls s] Cons
    by (auto simp: getline_def simp del: console.simps)
qed

text \<open>Without \<open>quit\<close> it never ends: from the end of the input on, it sends empty lines.\<close>

lemma console_runs_on:
  assumes "''quit'' \<notin> set input"
  shows "wp (console fuel out body input) (\<lambda>r t. r = None \<and> sent s (take fuel input @ replicate (fuel - length input) []) t) s"
  using assms
proof (induction fuel arbitrary: input s)
  case (Suc fuel)
  show ?case
    using console_line [of input fuel "\<lambda>r. r = None" "take fuel (snd (getline input)) @ replicate (fuel - length (snd (getline input))) []" s]
      Suc.IH [of "snd (getline input)"] Suc.prems
    by (cases input) (auto simp: getline_def simp del: console.simps)
qed (simp add: sent_Nil keeps_refl)

text \<open>A \<open>main\<close> whose constructor succeeds sends the lines before \<open>quit\<close> and destroys its object.\<close>

lemma main_session:
  assumes "run_state (start c) s = (Inr (), u)" "''quit'' \<notin> set ls" "length ls < fuel"
    and "\<And>t. sent u ls t \<Longrightarrow> wp destroy (\<lambda>d v. d = Inr () \<and> Q v) t"
  shows "wp (run_main usage (Some (Inr c)) start (console fuel out body (ls @ ''quit'' # rest)) destroy)
      (\<lambda>r t. r = Some (Inr ()) \<and> Q t) s"
  unfolding run_main_started [of start c, OF assms(1)]
  by (rule wp_mono [OF console_quits [OF assms(2,3)]]) (auto intro!: wp_mono [OF assms(4)])

end

section \<open>The applications provide the interfaces\<close>

lemma wp_cout [wp_simps]: "wp (cout text) Q s = Q () (s\<lparr>m_callback := m_callback s @ text\<rparr>)"
  by (simp add: cout_def)

text \<open>A line is one \<open>send\<close>, or one \<open>sendto\<close> when there is a destination.\<close>

definition client_sends :: "('w, 'a) TcpClient \<Rightarrow> string \<Rightarrow> event list \<Rightarrow> bool" where
  "client_sends s line es \<longleftrightarrow> (\<exists>n. es = [EvSend (m_sockfd s) line (of_nat (length line)) n])"

definition client_keeps :: "('w, 'a) TcpClient \<Rightarrow> ('w, 'a) TcpClient \<Rightarrow> bool" where
  "client_keeps s t \<longleftrightarrow> m_sockfd t = m_sockfd s \<and> m_thread t = m_thread s \<and> m_stop t = m_stop s"

definition udp_sends :: "('w, 'a) UdpSocket \<Rightarrow> string \<Rightarrow> event list \<Rightarrow> bool" where
  "udp_sends s line es \<longleftrightarrow>
     (if sin_port (m_sockaddr s) = 0 then es = []
      else \<exists>n. es = [EvSendTo (m_sockfd s) line (of_nat (length line)) (m_sockaddr s) n])"

definition udp_keeps :: "('w, 'a) UdpSocket \<Rightarrow> ('w, 'a) UdpSocket \<Rightarrow> bool" where
  "udp_keeps s t \<longleftrightarrow> m_sockfd t = m_sockfd s \<and> m_sockaddr t = m_sockaddr s \<and> m_thread t = m_thread s \<and> m_stop t = m_stop s"

lemma client_sends_frame [simp]: "client_sends (s\<lparr>m_callback := a\<rparr>) = client_sends s"
  by (simp add: client_sends_def fun_eq_iff)

interpretation client_console: line_sender cout "clientApp_line p core" client_sends client_keeps
  for p core
  by unfold_locales
    (auto simp: clientApp_line_def ClientApp_sendMsg_def client_sends_def client_keeps_def fun_eq_iff wp_simps
      intro!: wp_mono [OF sendMsg_event])

interpretation mcast_console: line_sender cout "mcastApp_line p core" udp_sends udp_keeps
  for p core
  by unfold_locales
    (auto simp: mcastApp_line_def McastApp_sendMsg_def udp_sends_def udp_keeps_def fun_eq_iff wp_simps
      UdpSocket_sendMsg_def call_defs)

interpretation unicast_console: line_sender cout "unicastApp_line p core" udp_sends udp_keeps
  for p core
  by unfold_locales
    (auto simp: unicastApp_line_def UnicastApp_sendMsg_def udp_sends_def udp_keeps_def fun_eq_iff wp_simps
      UdpSocket_sendMsg_def call_defs)

interpretation client_app: polite_callback "ClientApp_callback :: ('w, string) TcpClient client_callback"
  by unfold_locales (auto simp: ClientApp_callback_def cout_def polite_def)

interpretation mcast_app: udp_callback "McastApp_onReceiveData :: bytes \<Rightarrow> (('w, string) UdpSocket, unit outcome) state"
  by unfold_locales (auto simp: McastApp_onReceiveData_def cout_def polite_def)

interpretation unicast_app: udp_callback "UnicastApp_onReceiveData :: bytes \<Rightarrow> (('w, string) UdpSocket, unit outcome) state"
  by unfold_locales (auto simp: UnicastApp_onReceiveData_def cout_def polite_def)

section \<open>What the receive thread prints\<close>

fun printed :: "event \<Rightarrow> string" where
  "printed (EvReceiveData data) = ''Received: '' @ data @ newline"
| "printed (EvDisconnect ret) = ''Disconnect: '' @ m_msg ret @ newline"
| "printed _ = []"

fun ends_session :: "event \<Rightarrow> bool" where
  "ends_session (EvDisconnect _) = True"
| "ends_session _ = False"

definition prints :: "('w, string) TcpClient \<Rightarrow> event list \<Rightarrow> ('w, string) TcpClient \<Rightarrow> bool" where
  "prints s es t \<longleftrightarrow> trace t = trace s @ es \<and> m_callback t = m_callback s @ concat (map printed es)"

lemma client_pass_prints:
  "wp (TcpClient_receive_pass p core ClientApp_callback junk)
     (\<lambda>r t. \<exists>es. prints s es t \<and> (r = Inl (Exit 0) \<longleftrightarrow> (\<exists>e \<in> set es. ends_session e)) \<and>
       (r = Inr True \<or> r = Inr False \<longrightarrow> \<not> (\<exists>e \<in> set es. ends_session e))) s"
  unfolding TcpClient_receive_pass_def publishServerMsg_def TcpClient_publishDisconnected_def ClientApp_callback_def
  by (auto simp: wp_simps call_defs prints_def split: option.splits list.splits)

lemma printed_loud: "concat (map printed (filter loud es)) = concat (map printed es)"
proof (induction es)
  case (Cons e es)
  then show ?case by (cases e) simp_all
qed simp

lemma client_task_prints:
  "wp (TcpClient_ReceiveTask fuel p core ClientApp_callback junk)
     (\<lambda>r t. \<exists>es. prints s es t \<and> (r = Some (Inl (Exit 0)) \<longleftrightarrow> (\<exists>e \<in> set es. ends_session e))) s"
proof (rule client_app.client_loop.task_result
    [where R = "\<lambda>s t. \<exists>es. prints s es t \<and> \<not> (\<exists>e \<in> set es. ends_session e)"])
  fix s :: "('a, string) TcpClient"
  show "wp (TcpClient_receive_pass p core ClientApp_callback junk) (\<lambda>r t. case r of
        Inl a \<Rightarrow> \<exists>es. prints s es t \<and> (Some (Inl a) = Some (Inl (Exit 0)) \<longleftrightarrow> (\<exists>e \<in> set es. ends_session e))
      | Inr goes_on \<Rightarrow> if goes_on then \<exists>es. prints s es t \<and> \<not> (\<exists>e \<in> set es. ends_session e)
          else \<exists>es. prints s es t \<and> (Some (Inr ()) = Some (Inl (Exit 0)) \<longleftrightarrow> (\<exists>e \<in> set es. ends_session e))) s"
    by (rule wp_mono [OF client_pass_prints]) (auto split: sum.split)
next
  fix r :: "unit outcome option" and s t u :: "('a, string) TcpClient"
  assume "\<exists>es. prints s es t \<and> \<not> (\<exists>e \<in> set es. ends_session e)"
    and "\<exists>es. prints t es u \<and> (r = Some (Inl (Exit 0)) \<longleftrightarrow> (\<exists>e \<in> set es. ends_session e))"
  then obtain es fs where "prints s es t" "\<not> (\<exists>e \<in> set es. ends_session e)"
    "prints t fs u" "r = Some (Inl (Exit 0)) \<longleftrightarrow> (\<exists>e \<in> set fs. ends_session e)"
    by blast
  then show "\<exists>es. prints s es u \<and> (r = Some (Inl (Exit 0)) \<longleftrightarrow> (\<exists>e \<in> set es. ends_session e))"
    by (intro exI [of _ "es @ fs"]) (auto simp: prints_def)
qed (auto simp: prints_def)

section \<open>Command lines\<close>

lemma c_string_simps [simp]: "c_string []" "c_string (c # s) \<longleftrightarrow> c \<noteq> NUL \<and> c_string s"
  by (auto simp: c_string_def)

lemma c_string_dec_nat [simp]: "c_string (dec_nat n)"
  using dec_nat_digits [of NUL n] by (auto simp: c_string_def is_digit_def)

lemma read_port_dec_nat:
  assumes "n < 2 ^ 64"
  shows "read_port (Some (dec_nat n)) = Inr (of_nat n)"
proof -
  have "(ucast (of_nat n :: 64 word) :: 16 word) = of_nat n"
    by (rule bit_word_eqI) (auto simp: bit_simps)
  with assms show ?thesis
    by (simp add: read_port_def stoul_def)
qed

lemma clientApp_arguments:
  assumes "list_all c_string [prog, addr]" "n < 2 ^ 64"
  shows "parse_args clientApp_option [prog, ''-a'', addr, ''-p'', dec_nat n] ''a:p:?'' (None, 0) = Some (Inr (Some addr, of_nat n))"
proof -
  have "list_all (\<lambda>(l, a). option_kind ''a:p:?'' l = Some ArgRequired \<and> l \<noteq> CHR ''-'') [(CHR ''a'', addr), (CHR ''p'', dec_nat n)]"
    by (simp add: option_kind_def)
  from args.loop_arguments [OF _ _ _ this, of "[prog, ''-a'', addr, ''-p'', dec_nat n]" clientApp_option "(None, 0)"] assms
  show ?thesis
    by (simp add: clientApp_option_def char_int_def read_port_dec_nat)
qed

lemma mcastApp_arguments:
  assumes "list_all c_string [prog, addr, iface]" "n < 2 ^ 64"
  shows "parse_args mcastApp_option [prog, ''-m'', addr, ''-p'', dec_nat n, ''-l'', iface] ''m:p:l:?'' (None, None, 0) =
    Some (Inr (Some addr, Some iface, of_nat n))"
proof -
  have "list_all (\<lambda>(l, a). option_kind ''m:p:l:?'' l = Some ArgRequired \<and> l \<noteq> CHR ''-'')
      [(CHR ''m'', addr), (CHR ''p'', dec_nat n), (CHR ''l'', iface)]"
    by (simp add: option_kind_def)
  from args.loop_arguments [OF _ _ _ this, of "[prog, ''-m'', addr, ''-p'', dec_nat n, ''-l'', iface]" mcastApp_option
      "(None, None, 0)"] assms
  show ?thesis
    by (simp add: mcastApp_option_def char_int_def read_port_dec_nat)
qed

lemma unicastApp_arguments:
  assumes "list_all c_string [prog, addr, listen]" "n < 2 ^ 64" "k < 2 ^ 64"
  shows "parse_args unicastApp_option [prog, ''-a'', addr, ''-l'', dec_nat k, ''-p'', dec_nat n, ''-L'', listen]
      ''a:l:p:L:?'' (None, Some ''0.0.0.0'', 0, 0) =
    Some (Inr (Some addr, Some listen, of_nat k, of_nat n))"
proof -
  have "list_all (\<lambda>(l, a). option_kind ''a:l:p:L:?'' l = Some ArgRequired \<and> l \<noteq> CHR ''-'')
      [(CHR ''a'', addr), (CHR ''l'', dec_nat k), (CHR ''p'', dec_nat n), (CHR ''L'', listen)]"
    by (simp add: option_kind_def)
  from args.loop_arguments [OF _ _ _ this, of "[prog, ''-a'', addr, ''-l'', dec_nat k, ''-p'', dec_nat n, ''-L'', listen]"
      unicastApp_option "(None, Some ''0.0.0.0'', 0, 0)"] assms
  show ?thesis
    by (simp add: unicastApp_option_def char_int_def read_port_dec_nat)
qed

section \<open>Command lines that are refused\<close>

text \<open>
  \<open>getopt\<close> returns \<open>?\<close> for a letter it does not know and for \<open>-?\<close> itself; the loop of a \<open>main\<close>
  then calls \<open>usage()\<close> and exits. An option that needs an argument and has none does the same.
\<close>

lemma unknown_option_kind:
  assumes "c \<notin> set opts"
  shows "option_kind opts c = None"
proof -
  from assms have "dropWhile (\<lambda>x. x \<noteq> c) opts = []" by (auto simp: dropWhile_eq_Nil_conv)
  then show ?thesis by (simp only: option_kind_def list.case)
qed

lemma refused_option:
  assumes "list_all c_string (prog # (CHR ''-'' # c # cs) # ws)" and "CHR 0xFF \<notin> set opts"
    and "option_kind opts c = None \<or> c = CHR ''?'' \<and> option_kind opts c = Some NoArg" and "c \<noteq> CHR ''-'' \<or> cs \<noteq> []"
    and "body (char_int (CHR ''?'')) None v = Inl (Exit 1)"
  shows "parse_args body (prog # (CHR ''-'' # c # cs) # ws) opts v = Some (Inl (Exit 1))"
  using args.loop_options [OF assms(1,2), of body v] assms(3-5) by auto

lemma missing_option_argument:
  assumes "c_string prog" and "c \<noteq> NUL" and "CHR 0xFF \<notin> set opts" and "option_kind opts c = Some ArgRequired"
    and "c \<noteq> CHR ''-''" and "take 1 opts \<noteq> '':''" and "body (char_int (CHR ''?'')) None v = Inl (Exit 1)"
  shows "parse_args body [prog, [CHR ''-'', c]] opts v = Some (Inl (Exit 1))"
  using args.loop_options [of "[prog, [CHR ''-'', c]]" opts body v] assms
  by (auto simp: c_string_def missing_argument_def)

lemma run_main_refused: "run_state (run_main usage (Some (Inl (Exit 1))) start commands destroy) s =
   (Some (Inl (Exit 1)), snd (run_state usage s))"
  by (simp add: run_main_def State_Monad.bind_def split: prod.split)

text \<open>The first word of such a command line, for any of the applications.\<close>

definition refused :: "string list \<Rightarrow> bool" where
  "refused args \<longleftrightarrow> list_all c_string args \<and>
     (case args of
        prog # (d # c # cs) # ws \<Rightarrow> d = CHR ''-'' \<and>
          (c \<notin> set ''aplmL:'' \<and> (c \<noteq> CHR ''-'' \<or> cs \<noteq> []) \<or> c = CHR ''p'' \<and> cs = [] \<and> ws = [])
      | _ \<Rightarrow> False)"

lemma refused_parse:
  assumes "refused args" and "CHR 0xFF \<notin> set opts" and "option_kind opts (CHR ''p'') = Some ArgRequired"
    and "take 1 opts \<noteq> '':''" and "set opts \<subseteq> insert (CHR ''?'') (set ''aplmL:'')" and "option_kind opts (CHR ''?'') = Some NoArg"
    and "body (char_int (CHR ''?'')) None v = Inl (Exit 1)"
  shows "parse_args body args opts v = Some (Inl (Exit 1))"
proof -
  obtain prog c cs ws where args: "args = prog # (CHR ''-'' # c # cs) # ws" "list_all c_string args"
    and c: "c \<notin> set ''aplmL:'' \<and> (c \<noteq> CHR ''-'' \<or> cs \<noteq> []) \<or> c = CHR ''p'' \<and> cs = [] \<and> ws = []"
    using assms(1) by (auto simp: refused_def split: list.splits)
  from c consider "c \<notin> set ''aplmL:''" "c \<noteq> CHR ''-'' \<or> cs \<noteq> []" | "c = CHR ''p''" "cs = []" "ws = []"
    by blast
  then show ?thesis
  proof cases
    case 1
    with assms(5) have "c \<notin> set opts \<or> c = CHR ''?''" by blast
    then have "option_kind opts c = None \<or> c = CHR ''?'' \<and> option_kind opts c = Some NoArg"
      using assms(6) unknown_option_kind by blast
    from refused_option [where body = body and v = v, OF _ assms(2) this 1(2) assms(7)] args show ?thesis by simp
  next
    case 2
    with missing_option_argument [where body = body and v = v, OF _ _ assms(2,3) _ assms(4,7), of prog] args show ?thesis by simp
  qed
qed

lemma clientApp_refuses:
  assumes "refused args"
  shows "run_state (clientApp_main parse_args p core fuel args input) s =
    (Some (Inl (Exit 1)), s\<lparr>m_callback := m_callback s @ ''ClientApp [-a <addr>][-p <port>]'' @ newline\<rparr>)"
proof -
  have "parse_args clientApp_option args ''a:p:?'' (None, 0) = Some (Inl (Exit 1))"
    by (rule refused_parse [OF assms]) (simp_all add: clientApp_option_def char_int_def option_kind_def)
  then show ?thesis
    by (simp add: clientApp_main_def run_main_refused clientApp_usage_def cout_def)
qed

lemma mcastApp_refuses:
  assumes "refused args"
  shows "run_state (mcastApp_main parse_args p core fuel args input) s =
    (Some (Inl (Exit 1)), s\<lparr>m_callback := m_callback s @ ''McastApp -m <mcastAddr> -p <port> -[-l <localAddr>]'' @ newline\<rparr>)"
proof -
  have "parse_args mcastApp_option args ''m:p:l:?'' (None, None, 0) = Some (Inl (Exit 1))"
    by (rule refused_parse [OF assms]) (simp_all add: mcastApp_option_def char_int_def option_kind_def)
  then show ?thesis
    by (simp add: mcastApp_main_def run_main_refused mcastApp_usage_def cout_def)
qed

lemma unicastApp_refuses:
  assumes "refused args"
  shows "run_state (unicastApp_main parse_args p core fuel args input) s =
    (Some (Inl (Exit 1)), s\<lparr>m_callback := m_callback s @
      ''UnicastApp -a <remoteAddr> -l <localPort> -p <port> -L <listenAddr>'' @ newline\<rparr>)"
proof -
  have "parse_args unicastApp_option args ''a:l:p:L:?'' (None, Some ''0.0.0.0'', 0, 0) = Some (Inl (Exit 1))"
    by (rule refused_parse [OF assms]) (simp_all add: unicastApp_option_def char_int_def option_kind_def)
  then show ?thesis
    by (simp add: unicastApp_main_def run_main_refused unicastApp_usage_def cout_def)
qed

section \<open>Properties\<close>


text \<open>A run of \<open>clientApp -a localhost -p 5000\<close> on the mocked sockets, with the input \<open>hi\<close>, \<open>quit\<close>.\<close>

definition app_client :: "(mock, string) TcpClient" where
  "app_client = new_TcpClient None [] (session_script\<lparr>q_Send := [2]\<rparr>) [False, False, False] sockaddr_zero"

definition app_connected :: "(mock, string) TcpClient" where
  "app_connected = snd (run_state (connectTo example_platform MockSocketCore (Some ''localhost'') 5000) app_client)"

lemma app_connects: "run_state (connectTo example_platform MockSocketCore (Some ''localhost'') 5000) app_client =
    (Inr ok_ret, app_connected)"
  unfolding app_connected_def prod_eq_iff by code_simp


text \<open>Both UDP programs: what the destructor leaves after the lines are sent.\<close>

definition udp_session_over ::
  "('w, string) UdpSocket \<Rightarrow> string list \<Rightarrow> unit outcome option \<times> ('w, string) UdpSocket \<Rightarrow> bool" where
  "udp_session_over started ls result \<longleftrightarrow> fst result = Some (Inr ()) \<and>
     (\<exists>ess rc. trace (snd result) = trace started @ concat ess @ [EvClose (m_sockfd started) rc] \<and>
        list_all2 (udp_sends started) ls ess) \<and>
     m_sockfd (snd result) = INVALID_SOCKET \<and> m_stop (snd result) \<and> \<not> m_thread (snd result)"

lemma udp_destroy_over:
  assumes "m_sockfd u \<noteq> INVALID_SOCKET" "m_sockfd u = m_sockfd started" "m_sockaddr u = m_sockaddr started"
    "trace u = trace started" "trace t = trace u @ concat ess" "list_all2 (udp_sends u) ls ess" "udp_keeps u t"
  shows "wp (UdpSocket_destroy core False) (\<lambda>d v. d = Inr () \<and> udp_session_over started ls (Some (Inr ()), v)) t"
proof -
  have "udp_sends u = udp_sends started"
    using assms(2,3) by (simp add: udp_sends_def fun_eq_iff)
  with assms show ?thesis
    by (auto simp: UdpSocket_destroy_def destroy_thread_def udp_session_over_def udp_keeps_def wp_simps Let_def)
qed

lemma mcastApp_session:
  assumes "list_all c_string [prog, addr, iface]" "n < 2 ^ 64" "''quit'' \<notin> set ls" "length ls < fuel"
    and "run_state (startMcast p core (Some addr) (of_nat n) (Some iface)) s = (Inr ret, started)" "m_success ret"
  shows "udp_session_over started ls (run_state (mcastApp_main parse_args p core fuel
      [prog, ''-m'', addr, ''-p'', dec_nat n, ''-l'', iface] (ls @ ''quit'' # rest)) s)"
proof -
  have held: "m_sockfd started \<noteq> INVALID_SOCKET"
    using wpD [OF startMcast_holds assms(5)] assms(6) by simp
  let ?u = "started\<lparr>m_callback := m_callback started @ ''Connected to mcast group '' @ addr @ '':'' @
      dec_nat (unat (of_nat n :: uint16_t)) @ newline\<rparr>"
  have "run_state (McastApp_ctor p core (Some addr) (of_nat n) (Some iface)) s = (Inr (), ?u)"
    using assms(5,6) by (simp add: McastApp_ctor_def obind_def c_text_def cout_def)
  then have "wp (mcastApp_main parse_args p core fuel [prog, ''-m'', addr, ''-p'', dec_nat n, ''-l'', iface] (ls @ ''quit'' # rest))
      (\<lambda>r t. r = Some (Inr ()) \<and> udp_session_over started ls (Some (Inr ()), t)) s"
    unfolding mcastApp_main_def mcastApp_arguments [OF assms(1,2)]
    by (intro mcast_console.main_session [OF _ assms(3,4)])
      (auto simp: held mcast_console.sent_def intro!: udp_destroy_over [of ?u])
  then show ?thesis
    by (auto simp: wp_run udp_session_over_def)
qed

lemma unicastApp_session:
  assumes "list_all c_string [prog, addr, listen]" "n < 2 ^ 64" "k < 2 ^ 64" "''quit'' \<notin> set ls" "length ls < fuel"
    and "run_state (startUnicast p core (Some addr) (of_nat k) (of_nat n)) (s\<lparr>m_sockOptions := choose_options
      (Some \<lparr>m_txBufSize = TX_BUFFER_SIZE, m_rxBufSize = RX_BUFFER_SIZE, m_listenAddr = listen\<rparr>)\<rparr>) = (Inr ret, started)"
    and "m_success ret"
  shows "udp_session_over started ls (run_state (unicastApp_main parse_args p core fuel
      [prog, ''-a'', addr, ''-l'', dec_nat k, ''-p'', dec_nat n, ''-L'', listen] (ls @ ''quit'' # rest)) s)"
proof -
  have held: "m_sockfd started \<noteq> INVALID_SOCKET"
    using wpD [OF startUnicast_holds assms(6)] assms(7) by simp
  let ?u = "started\<lparr>m_callback := m_callback started @ ''Listening on UDP '' @ listen @ '':'' @
      dec_nat (unat (of_nat k :: uint16_t)) @ '' sending to '' @ addr @ '':'' @ dec_nat (unat (of_nat n :: uint16_t)) @ newline\<rparr>"
  have "run_state (UnicastApp_ctor p core (Some addr) (Some listen) (of_nat k) (of_nat n)) s = (Inr (), ?u)"
    using assms(6,7) by (simp add: UnicastApp_ctor_def obind_def c_text_def cout_def)
  then have "wp (unicastApp_main parse_args p core fuel [prog, ''-a'', addr, ''-l'', dec_nat k, ''-p'', dec_nat n, ''-L'', listen]
      (ls @ ''quit'' # rest)) (\<lambda>r t. r = Some (Inr ()) \<and> udp_session_over started ls (Some (Inr ()), t)) s"
    unfolding unicastApp_main_def unicastApp_arguments [OF assms(1-3)]
    by (intro unicast_console.main_session [OF _ assms(4,5)])
      (auto simp: held unicast_console.sent_def intro!: udp_destroy_over [of ?u])
  then show ?thesis
    by (auto simp: wp_run udp_session_over_def)
qed

text \<open>
  C13. The UDP programs do what their usage says: \<open>mcastApp -m addr -p port -l local\<close> and
  \<open>unicastApp -a addr -l localPort -p port -L local\<close>, when the socket can be started, send each line
  of their input up to \<open>quit\<close> as one datagram of exactly its characters to the destination, in
  order (and nothing when the destination port is 0), then close the socket and end.
\<close>

theorem udp_apps_session:
  assumes "list_all c_string [prog, addr, local]" "n < 2 ^ 64" "k < 2 ^ 64" "''quit'' \<notin> set ls" "length ls < fuel"
    and "run_state (startMcast p core (Some addr) (of_nat n) (Some local)) s = (Inr ret, mcast)" "m_success ret"
    and "run_state (startUnicast p core (Some addr) (of_nat k) (of_nat n)) (u\<lparr>m_sockOptions := choose_options
      (Some \<lparr>m_txBufSize = TX_BUFFER_SIZE, m_rxBufSize = RX_BUFFER_SIZE, m_listenAddr = local\<rparr>)\<rparr>) = (Inr ret', unicast)"
    and "m_success ret'"
  shows "udp_session_over mcast ls (run_state (mcastApp_main parse_args p core fuel
      [prog, ''-m'', addr, ''-p'', dec_nat n, ''-l'', local] (ls @ ''quit'' # rest)) s) \<and>
    udp_session_over unicast ls (run_state (unicastApp_main parse_args p core fuel
      [prog, ''-a'', addr, ''-l'', dec_nat k, ''-p'', dec_nat n, ''-L'', local] (ls @ ''quit'' # rest)) u)"
  using mcastApp_session [OF assms(1,2,4-7)] unicastApp_session [OF assms(1-5,8,9)] by simp

definition mcast_started :: "(mock, string) UdpSocket" where
  "mcast_started = snd (run_state (startMcast example_platform MockSocketCore (Some ''224.0.0.1'') 5000 (Some ''127.0.0.1''))
     (udp_test []))"

definition unicast_fresh :: "(mock, string) UdpSocket" where
  "unicast_fresh = (udp_test [])\<lparr>m_sockOptions := choose_options
     (Some \<lparr>m_txBufSize = TX_BUFFER_SIZE, m_rxBufSize = RX_BUFFER_SIZE, m_listenAddr = ''127.0.0.1''\<rparr>)\<rparr>"

definition unicast_started :: "(mock, string) UdpSocket" where
  "unicast_started = snd (run_state (startUnicast example_platform MockSocketCore (Some ''224.0.0.1'') 5001 5000) unicast_fresh)"

lemma udp_apps_start:
  "run_state (startMcast example_platform MockSocketCore (Some ''224.0.0.1'') 5000 (Some ''127.0.0.1'')) (udp_test []) =
    (Inr ok_ret, mcast_started)"
  "run_state (startUnicast example_platform MockSocketCore (Some ''224.0.0.1'') 5001 5000) unicast_fresh =
    (Inr ok_ret, unicast_started)"
  unfolding mcast_started_def unicast_started_def prod_eq_iff by code_simp+

theorem udp_apps_session_witness:
  "udp_session_over mcast_started [''hi''] (run_state (mcastApp_main parse_args example_platform MockSocketCore 2
      [''app'', ''-m'', ''224.0.0.1'', ''-p'', dec_nat 5000, ''-l'', ''127.0.0.1''] ([''hi''] @ ''quit'' # [])) (udp_test [])) \<and>
   udp_session_over unicast_started [''hi''] (run_state (unicastApp_main parse_args example_platform MockSocketCore 2
      [''app'', ''-a'', ''224.0.0.1'', ''-l'', dec_nat 5001, ''-p'', dec_nat 5000, ''-L'', ''127.0.0.1'']
      ([''hi''] @ ''quit'' # [])) (udp_test []))"
  by (rule udp_apps_session [where ret = ok_ret and ret' = ok_ret])
    (use udp_apps_start in \<open>simp_all add: unicast_fresh_def\<close>)

text \<open>
  C39. Without a line \<open>quit\<close> the input loops of \<open>clientApp\<close>, \<open>mcastApp\<close> and \<open>unicastApp\<close> never end:
  \<open>std::getline\<close> is not tested, so that after the last line every further pass sends an empty
  message.
\<close>

theorem apps_spin_at_eof:
  assumes "''quit'' \<notin> set input"
    and "run_state (console fuel cout (clientApp_line p core) input) s = (r, t)"
    and "run_state (console fuel cout (mcastApp_line p core) input) u = (r1, u1)"
    and "run_state (console fuel cout (unicastApp_line p core) input) u = (r2, u2)"
  shows "r = None \<and> r1 = None \<and> r2 = None \<and>
     (\<exists>ess. trace t = trace s @ concat ess \<and>
        list_all2 (client_sends s) (take fuel input @ replicate (fuel - length input) []) ess) \<and>
     (\<forall>v \<in> {u1, u2}. \<exists>ess. trace v = trace u @ concat ess \<and>
        list_all2 (udp_sends u) (take fuel input @ replicate (fuel - length input) []) ess)"
  using wpD [OF client_console.console_runs_on [OF assms(1)] assms(2)]
    wpD [OF mcast_console.console_runs_on [OF assms(1)] assms(3)]
    wpD [OF unicast_console.console_runs_on [OF assms(1)] assms(4)]
  by (auto simp: client_console.sent_def mcast_console.sent_def unicast_console.sent_def)

definition eof_run :: "unit outcome option \<times> (mock, string) TcpClient" where
  "eof_run = run_state (console 3 cout (clientApp_line example_platform MockSocketCore) [''hi'']) app_connected"

definition mcast_eof_run :: "unit outcome option \<times> (mock, string) UdpSocket" where
  "mcast_eof_run = run_state (console 3 cout (mcastApp_line example_platform MockSocketCore) [''hi'']) (udp_test [])"

definition unicast_eof_run :: "unit outcome option \<times> (mock, string) UdpSocket" where
  "unicast_eof_run = run_state (console 3 cout (unicastApp_line example_platform MockSocketCore) [''hi'']) (udp_test [])"

theorem apps_spin_at_eof_witness:
  "fst eof_run = None \<and> fst mcast_eof_run = None \<and> fst unicast_eof_run = None \<and>
   (\<exists>ess. trace (snd eof_run) = trace app_connected @ concat ess \<and>
     list_all2 (client_sends app_connected) [''hi'', [], []] ess)"
  using apps_spin_at_eof [OF _ prod.collapse [symmetric, of eof_run, unfolded eof_run_def]
      prod.collapse [symmetric, of mcast_eof_run, unfolded mcast_eof_run_def]
      prod.collapse [symmetric, of unicast_eof_run, unfolded unicast_eof_run_def]]
  by (simp add: eof_run_def mcast_eof_run_def unicast_eof_run_def numeral_2_eq_2)

text \<open>
  C26. The receive thread of \<open>clientApp\<close> prints exactly what \<open>recv\<close> returned, in order, each piece
  after \<open>Received:\<close> on a line of its own; when the connection ends it prints why and ends the
  program with status 0, and it ends the program in no other case.
\<close>

theorem clientApp_prints:
  assumes "run_state (TcpClient_ReceiveTask fuel p core ClientApp_callback junk) s = (r, t)" "posix_trace (trace t)"
  shows "\<exists>es. trace t = trace s @ es \<and> deliver_spec (filter loud es) \<and>
     m_callback t = m_callback s @ concat (map printed (filter loud es)) \<and>
     (r = Some (Inl (Exit 0)) \<longleftrightarrow> (\<exists>ret. EvDisconnect ret \<in> set es))"
proof -
  obtain es where es: "prints s es t" "r = Some (Inl (Exit 0)) \<longleftrightarrow> (\<exists>e \<in> set es. ends_session e)"
    using wpD [OF client_task_prints assms(1)] by blast
  moreover from wpD [OF client_app.ReceiveTask_promise assms(1)] assms(2) obtain fs where
    "trace t = trace s @ fs" "deliver_spec (filter loud fs)"
    by blast
  moreover have "(\<exists>e \<in> set es. ends_session e) \<longleftrightarrow> (\<exists>ret. EvDisconnect ret \<in> set es)"
    by (auto elim: ends_session.elims intro!: bexI)
  ultimately show ?thesis
    by (auto simp: prints_def printed_loud)
qed

definition app_session :: "unit outcome option \<times> (mock, string) TcpClient" where
  "app_session = run_state (TcpClient_ReceiveTask 3 example_platform MockSocketCore ClientApp_callback (\<lambda>_. CHR ''?'')) app_connected"

theorem clientApp_prints_witness:
  "fst app_session = Some (Inl (Exit 0)) \<and>
   m_callback (snd app_session) = ''Received: hello'' @ newline @ ''Disconnect: Server closed connection'' @ newline \<and>
   (\<exists>es. trace (snd app_session) = trace app_connected @ es \<and> deliver_spec (filter loud es) \<and>
     m_callback (snd app_session) = m_callback app_connected @ concat (map printed (filter loud es)))"
proof -
  have "posix_trace (trace (snd app_session))" "fst app_session = Some (Inl (Exit 0))"
    "m_callback (snd app_session) = ''Received: hello'' @ newline @ ''Disconnect: Server closed connection'' @ newline"
    by code_simp+
  with clientApp_prints [OF prod.collapse [symmetric, of app_session, unfolded app_session_def]] show ?thesis
    unfolding app_session_def by blast
qed

end
