(* ===== verification/Server_App.thy ===== *)
theory Server_App
  imports Server_Limits Example_Apps
begin

text \<open>
  \<open>examples/serverApp.cpp\<close>: the application object that keeps the set of connected clients, its
  callbacks, and \<open>main\<close> with its command loop. The contract of a callback object that keeps track of
  the clients is a locale, which this object and that of the unit tests satisfy.
\<close>

section \<open>ServerApp\<close>

text \<open>The members of the object, and the text written to \<open>std::cout\<close>. The mutex \<open>m_mutex\<close> makes every
  access to the set one step.\<close>

record ServerApp =
  app_out :: string
  m_clientIdx :: int
  known_clients :: "int set"

definition new_ServerApp :: ServerApp where
  "new_ServerApp = \<lparr>app_out = [], m_clientIdx = 0, known_clients = {}\<rparr>"

definition app_cout :: "string \<Rightarrow> (('w, ServerApp, 'z) sock_scheme, unit) state" where
  "app_cout text = State_Monad.update (\<lambda>s. s\<lparr>m_callback := (m_callback s)\<lparr>app_out := app_out (m_callback s) @ text\<rparr>\<rparr>)"

definition update_clients :: "(int set \<Rightarrow> int set) \<Rightarrow> (('w, ServerApp, 'z) sock_scheme, unit) state" where
  "update_clients f = State_Monad.update (\<lambda>s. s\<lparr>m_callback := (m_callback s)\<lparr>known_clients := f (known_clients (m_callback s))\<rparr>\<rparr>)"

definition ServerApp_ctor ::
  "platform \<Rightarrow> 'w SocketImpl \<Rightarrow> string option \<Rightarrow> uint16_t \<Rightarrow> (('w, ServerApp) TcpServer, unit outcome) state" where
  "ServerApp_ctor p core listenAddr port =
     (case listenAddr of
        None \<Rightarrow> State_Monad.return (Inl (UB ''std::string from a null pointer''))
      | Some listen \<Rightarrow> do {
          State_Monad.update (\<lambda>s. s\<lparr>m_sockOptions := choose_options
            (Some \<lparr>m_txBufSize = TX_BUFFER_SIZE, m_rxBufSize = RX_BUFFER_SIZE, m_listenAddr = listen\<rparr>)\<rparr>);
          obind (TcpServer_start p core port) (\<lambda>ret. do {
            (if m_success ret then app_cout (''Server started on port '' @ dec_nat (unat port) @ newline)
             else app_cout (''Error: '' @ m_msg ret @ newline));
            State_Monad.return (Inr ())
          })
        })"

text \<open>\<open>~ServerApp\<close> empties the set, and then the member \<open>m_server\<close> is destroyed.\<close>

definition ServerApp_dtor :: "platform \<Rightarrow> 'w SocketImpl \<Rightarrow> (('w, ServerApp) TcpServer, unit outcome) state" where
  "ServerApp_dtor p core = do {
     update_clients (\<lambda>_. {});
     TcpServer_destroy p core False
   }"

definition ServerApp_sendMsg ::
  "platform \<Rightarrow> 'w SocketImpl \<Rightarrow> int \<Rightarrow> bytes \<Rightarrow> size_t \<Rightarrow> (('w, ServerApp) TcpServer, unit outcome) state" where
  "ServerApp_sendMsg p core idx data len = do {
     s \<leftarrow> State_Monad.get;
     if idx = 0 then do {
       ret \<leftarrow> sendBcast p core data len;
       (if \<not> m_success ret then app_cout (''Broadcast send Error: '' @ m_msg ret @ newline) else State_Monad.return ());
       State_Monad.return (Inr ())
     }
     else if idx \<in> known_clients (m_callback s) then
       obind (sendClientMessage p core idx data len) (\<lambda>ret. do {
         (if \<not> m_success ret then app_cout (''Send Error: '' @ m_msg ret @ newline) else State_Monad.return ());
         State_Monad.return (Inr ())
       })
     else do {
       app_cout (''Client '' @ dec_int idx @ '' doesn't exist'' @ newline);
       State_Monad.return (Inr ())
     }
   }"

text \<open>The locals \<open>port\<close> and \<open>connected\<close> are uninitialised, but read only when \<open>getClientInfo\<close> has set them.\<close>

definition ServerApp_callback :: "('w, ServerApp) TcpServer server_callback" where
  "ServerApp_callback =
     \<lparr>onClientConnect = (\<lambda>client. do {
        (found, ipAddr, port, connected) \<leftarrow> getClientInfo client ([], 0, False);
        (if found then do {
           app_cout (''Client '' @ dec_int client @ '' connection from '' @ ipAddr @ '':'' @ dec_nat (unat port) @ newline);
           update_clients (insert client)
         } else State_Monad.return ());
        State_Monad.return (Inr ()) }),
      onReceiveClientData = (\<lambda>client data. do {
        app_cout (''Client '' @ dec_int client @ '' Rcvd: '' @ data @ newline);
        State_Monad.return (Inr ()) }),
      onClientDisconnect = (\<lambda>client ret. do {
        app_cout (''Client '' @ dec_int client @ '' Disconnect: '' @ m_msg ret @ newline);
        update_clients (\<lambda>cs. cs - {client});
        State_Monad.return (Inr ()) })\<rparr>"

section \<open>main\<close>

text \<open>The \<open>switch\<close> over the options, on the variables \<open>port\<close> and \<open>listenAddr\<close>.\<close>

definition serverApp_option :: "(uint16_t \<times> string option) option_body" where
  "serverApp_option arg oarg v =
     (case v of (port, listenAddr) \<Rightarrow>
        if arg = char_int (CHR ''p'') then map_sum id (\<lambda>n. (n, listenAddr)) (read_port oarg)
        else if arg = char_int (CHR ''L'') then Inr (port, oarg)
        else if arg = char_int (CHR ''?'') then Inl (Exit 1)
        else Inr v)"

text \<open>
  One line of input: \<open>B\<close> or a client handle, and from the third character on the message.
  \<open>data.substr(2, ...)\<close> throws when the line is shorter than that; only the exceptions of
  \<open>std::stoi\<close> are caught.
\<close>

definition serverApp_line ::
  "platform \<Rightarrow> 'w SocketImpl \<Rightarrow> string \<Rightarrow> (('w, ServerApp) TcpServer, unit outcome) state" where
  "serverApp_line p core data =
     (let send = (\<lambda>idx.
        if length data < 2 then State_Monad.return (Inl (Throw ''std::out_of_range''))
        else ServerApp_sendMsg p core idx (drop 2 data) (of_nat (length data) - 2)) in
      if char_at data 0 \<noteq> CHR ''B'' \<and> char_at data 0 \<noteq> CHR ''b'' then
        (case stoi data of
           Inl _ \<Rightarrow> State_Monad.return (Inr ())
         | Inr idx \<Rightarrow> send idx)
      else send 0)"

definition serverApp_usage :: "(('w, ServerApp) TcpServer, unit) state" where
  "serverApp_usage = app_cout (''ServerApp -p <port> -L <listenAddr>'' @ newline)"

definition serverApp_main ::
  "((uint16_t \<times> string option) option_body \<Rightarrow> string list \<Rightarrow> string \<Rightarrow> uint16_t \<times> string option \<Rightarrow>
      (uint16_t \<times> string option) outcome option) \<Rightarrow>
   platform \<Rightarrow> 'w SocketImpl \<Rightarrow> nat \<Rightarrow> string list \<Rightarrow> string list \<Rightarrow>
   (('w, ServerApp) TcpServer, unit outcome option) state" where
  "serverApp_main loop p core fuel args input =
     run_main serverApp_usage (loop serverApp_option args ''p:L:?'' (0, Some ''0.0.0.0''))
       (\<lambda>(port, listenAddr). ServerApp_ctor p core listenAddr port)
       (console fuel app_cout (serverApp_line p core) input)
       (ServerApp_dtor p core)"

section \<open>Keeping track of the clients\<close>

text \<open>
  A callback object that adds a client it is told has connected and removes one it is told has
  gone, and leaves the server alone otherwise.
\<close>

locale tracking_app = server_app p core cb
  for p :: platform and core :: "'w SocketImpl" and cb :: "('w, 'a) TcpServer server_callback" +
  fixes view :: "'a \<Rightarrow> int set"
  assumes connect_view: "k \<in> client_keys s \<Longrightarrow> run_state (onClientConnect cb k) s = (r, t) \<Longrightarrow>
      m_clients t = m_clients s \<and> others t = others s \<and> view (m_callback t) = insert k (view (m_callback s))"
    and data_view: "run_state (onReceiveClientData cb k data) s = (r, t) \<Longrightarrow>
      m_clients t = m_clients s \<and> others t = others s \<and> view (m_callback t) = view (m_callback s)"
    and disconnect_view: "run_state (onClientDisconnect cb k ret) s = (r, t) \<Longrightarrow>
      m_clients t = m_clients s \<and> others t = others s \<and> view (m_callback t) = view (m_callback s) - {k}"
begin

definition knows :: "('w, 'a) TcpServer \<Rightarrow> bool" where
  "knows s \<longleftrightarrow> harmless s \<and> view (m_callback s) = client_keys s"

lemma wp_connect:
  assumes "harmless s" "k \<in> client_keys s" "insert k (view (m_callback s)) = client_keys s"
  shows "wp (onClientConnect cb k) (\<lambda>r t. r = Inr () \<longrightarrow> knows t) s"
  by (rule wpI) (use connect_view [OF assms(2)] assms in \<open>fastforce simp: knows_def harmless_def\<close>)

lemma wp_data: "knows s \<Longrightarrow> wp (onReceiveClientData cb k data) (\<lambda>r t. r = Inr () \<longrightarrow> knows t) s"
  by (rule wpI) (use data_view in \<open>fastforce simp: knows_def harmless_def\<close>)

lemma wp_disconnect:
  assumes "harmless s" "view (m_callback s) - {k} = client_keys s"
  shows "wp (onClientDisconnect cb k ret) (\<lambda>r t. r = Inr () \<longrightarrow> knows t) s"
  by (rule wpI) (use disconnect_view assms in \<open>fastforce simp: knows_def harmless_def\<close>)

lemma knows_update [simp]:
  "knows (s\<lparr>world := w\<rparr>) = knows s" "knows (s\<lparr>trace := tr\<rparr>) = knows s" "knows (s\<lparr>m_fds := fds\<rparr>) = knows s"
  "knows (s\<lparr>task_msg := buf\<rparr>) = knows s" "knows (s\<lparr>m_clientAddress := addr\<rparr>) = knows s"
  "knows (s\<lparr>m_stop := b\<rparr>) = knows s" "knows (s\<lparr>stop_stores := bs\<rparr>) = knows s"
  by (simp_all add: knows_def harmless_def)

lemma wp_calm_view:
  assumes "harmless s"
    and "\<And>t. harmless t \<Longrightarrow> m_clients t = m_clients s \<Longrightarrow> m_callback t = m_callback s \<Longrightarrow> Q (Inr ()) t"
  shows "wp (interleave p core) Q s"
proof (rule wp_interleave [OF assms(1)])
  fix t
  assume "calm s t"
  then show "Q (Inr ()) t"
    by (intro assms(2)) (auto simp: calm_def)
qed

lemma wp_calm_knows:
  assumes "knows s" "\<And>t. knows t \<Longrightarrow> Q (Inr ()) t"
  shows "wp (interleave p core) Q s"
  using assms by (auto simp: knows_def intro!: wp_calm_view)

lemma publishDisconnected_knows:
  assumes "harmless s" "view (m_callback s) - {fd} = client_keys s"
  shows "wp (publishDisconnected p cb fd) (\<lambda>r t. r = Inr () \<longrightarrow> knows t) s"
  using assms by (simp add: publishDisconnected_def Let_def wp_log_event wp_disconnect harmless_def)

lemma delete_knows:
  assumes "knows s"
  shows "wp (obind (deleteClient core fd) (\<lambda>_. publishDisconnected p cb fd)) (\<lambda>r t. r = Inr () \<longrightarrow> knows t) s"
proof (cases "um_find (m_clients s) fd")
  case None
  then have "client_keys s - {fd} = client_keys s"
    using um_find_None [of "m_clients s" fd] by simp
  with None assms show ?thesis
    by (simp add: wp_deleteClient publishDisconnected_knows knows_def [of s])
next
  case (Some c)
  have "client_keys s - {fd} = set (um_keys (um_erase fd (m_clients s)))"
    by (auto simp: um_keys_erase)
  with Some assms show ?thesis
    by (simp add: wp_deleteClient Let_def publishDisconnected_knows harmless_def knows_def [of s] split: option.split)
qed

lemma client_gone_knows:
  assumes "knows s"
  shows "wp (client_gone p core cb fd n) (\<lambda>r t. r = Inr () \<longrightarrow> knows t) s"
proof (cases "um_find (m_clients s) fd")
  case None
  then show ?thesis
    by (simp add: client_gone_def)
next
  case (Some c)
  let ?s = "s\<lparr>m_clients := um_assign fd (c\<lparr>m_isConnected := False\<rparr>) (m_clients s)\<rparr>"
  have knows: "knows ?s"
    using assms by (simp add: knows_def harmless_def)
  then have "wp (obind (interleave p core) (\<lambda>_. obind (deleteClient core fd) (\<lambda>_. publishDisconnected p cb fd)))
      (\<lambda>r t. r = Inr () \<longrightarrow> knows t) ?s"
    unfolding wp_obind [of "interleave p core"]
    by (rule wp_calm_knows) (simp add: delete_knows del: wp_obind)
  with Some knows show ?thesis
    by (simp add: client_gone_def del: wp_obind)
qed

lemma serve_client_knows:
  assumes "knows s"
  shows "wp (serve_client p core cb fd) (\<lambda>r t. r = Inr () \<longrightarrow> knows t) s"
proof -
  have gone: "wp (obind (interleave p core) (\<lambda>_. client_gone p core cb fd n)) (\<lambda>r t. r = Inr () \<longrightarrow> knows t) u"
    if "knows u" for u n
    unfolding wp_obind using that
    by (intro wp_calm_knows) (simp_all add: client_gone_knows)
  have "wp (publishClientMsg cb fd d) (\<lambda>r t. r = Inr () \<longrightarrow> knows t) u" if "knows u" for u d
    using that by (simp add: publishClientMsg_def wp_simps wp_data)
  with gone assms show ?thesis
    unfolding serve_client_def by (simp add: wp_simps Recv_def del: wp_obind)
qed

lemma serve_accept_knows:
  assumes "knows s"
  shows "wp (serve_accept p core cb fd) (\<lambda>r t. r = Inr () \<longrightarrow> knows t) s"
proof -
  have "wp (add_client p core cb clientfd) (\<lambda>r t. r = Inr () \<longrightarrow> knows t) u" if "knows u" for u clientfd
    using that unfolding add_client_def publishClientConnect_def knows_def
    by (auto simp: wp_simps harmless_def um_keys_emplace intro!: wp_calm_view wp_connect [unfolded knows_def harmless_def]
        split: option.split)
  then have "wp (obind (interleave p core) (\<lambda>_. add_client p core cb clientfd)) (\<lambda>r t. r = Inr () \<longrightarrow> knows t) u"
    if "knows u" for u clientfd
    unfolding wp_obind using that by (intro wp_calm_knows) simp_all
  with assms show ?thesis
    unfolding serve_accept_def by (simp add: wp_simps Accept_def del: wp_obind)
qed

lemma serve_fd_knows:
  assumes "knows s"
  shows "wp (serve_fd p core cb read_set fd) (\<lambda>r t. r = Inr () \<longrightarrow> knows t) s"
proof -
  have "wp (obind (interleave p core) (\<lambda>_. serve_client p core cb fd)) (\<lambda>r t. r = Inr () \<longrightarrow> knows t) u"
    if "knows u" for u
    unfolding wp_obind using that by (intro wp_calm_knows) (simp_all add: serve_client_knows)
  then have "wp (do {
      s \<leftarrow> State_Monad.get;
      if um_find (m_clients s) fd \<noteq> None then obind (interleave p core) (\<lambda>_. serve_client p core cb fd)
      else serve_accept p core cb fd }) (\<lambda>r t. r = Inr () \<longrightarrow> knows t) u" if "knows u" for u
    using that by (simp add: serve_accept_knows del: wp_obind)
  then have "wp (obind (interleave p core) (\<lambda>_. do {
      s \<leftarrow> State_Monad.get;
      if um_find (m_clients s) fd \<noteq> None then obind (interleave p core) (\<lambda>_. serve_client p core cb fd)
      else serve_accept p core cb fd })) (\<lambda>r t. r = Inr () \<longrightarrow> knows t) s"
    unfolding wp_obind [of "interleave p core" "\<lambda>_. State_Monad.bind _ _"] using assms
    by (intro wp_calm_knows) (simp_all del: wp_bind)
  with assms show ?thesis
    by (auto simp: serve_fd_def FD_ISSET_def simp del: wp_obind)
qed

lemma serve_fds_knows:
  "knows s \<Longrightarrow> wp (serve_fds p core cb read_set fds) (\<lambda>r t. r = Inr () \<longrightarrow> knows t) s"
  by (induction fds arbitrary: s)
    (auto intro!: wp_mono [OF serve_fd_knows] split: sum.split)

lemma pass_knows:
  assumes "knows s"
  shows "wp (serverTask_pass p core cb) (\<lambda>r t. (\<forall>a. r \<noteq> Inl a) \<longrightarrow> knows t) s"
proof -
  have "wp (select_and_serve p core cb) (\<lambda>r t. (\<forall>a. r \<noteq> Inl a) \<longrightarrow> knows t) u" if "knows u" for u
    using that by (auto simp: select_and_serve_def wp_simps Select_def Let_def
        intro!: wp_mono [OF serve_fds_knows] split: sum.split)
  then show ?thesis
    unfolding serverTask_pass_def wp_obind using assms by (intro wp_calm_knows) simp_all
qed

lemma serverTask_knows:
  "wp (serverTask fuel p core cb) (\<lambda>r t. (\<forall>a. r \<noteq> Some (Inl a)) \<longrightarrow> knows s \<longrightarrow> knows t) s"
proof (rule server_loop.task_relates [where R = "\<lambda>s t. knows s \<longrightarrow> knows t"])
  show "wp (serverTask_pass p core cb) (\<lambda>r t. (\<forall>a. r \<noteq> Inl a) \<longrightarrow> knows s \<longrightarrow> knows t) s" for s
    by (cases "knows s") (auto intro: wp_mono [OF pass_knows] wpI)
qed simp_all

end

lemma wp_app_cout [wp_simps]:
  "wp (app_cout text) Q s = Q () (s\<lparr>m_callback := (m_callback s)\<lparr>app_out := app_out (m_callback s) @ text\<rparr>\<rparr>)"
  by (simp add: app_cout_def)

lemmas ServerApp_defs = ServerApp_callback_def getClientInfo_def app_cout_def update_clients_def

interpretation serverapp: server_app p core ServerApp_callback
  for p core
  by unfold_locales
    (auto simp: ServerApp_defs intro!: r_into_rtranclp app_own split: option.splits if_splits)

interpretation serverapp_gentle: gentle_app p core ServerApp_callback
  for p core
  by unfold_locales (auto simp: ServerApp_defs gentle_def split: option.splits if_splits)

interpretation serverapp_tracks: tracking_app p core ServerApp_callback known_clients
  for p core
  by unfold_locales (auto simp: ServerApp_defs um_find_None split: option.splits if_splits)

interpretation test_tracks: tracking_app p core TcpServerTestApp_callback app_clients
  for p core
  by unfold_locales (auto simp: TcpServerTestApp_callback_def)

section \<open>The command line\<close>

lemma serverApp_arguments:
  assumes "list_all c_string [prog, listen]" "n < 2 ^ 64"
  shows "parse_args serverApp_option [prog, ''-p'', dec_nat n, ''-L'', listen] ''p:L:?'' (0, Some ''0.0.0.0'') =
    Some (Inr (of_nat n, Some listen))"
proof -
  have "list_all (\<lambda>(l, a). option_kind ''p:L:?'' l = Some ArgRequired \<and> l \<noteq> CHR ''-'')
      [(CHR ''p'', dec_nat n), (CHR ''L'', listen)]"
    by (simp add: option_kind_def)
  from args.loop_arguments [OF _ _ _ this, of "[prog, ''-p'', dec_nat n, ''-L'', listen]" serverApp_option
      "(0, Some ''0.0.0.0'')"] assms
  show ?thesis
    by (simp add: serverApp_option_def char_int_def read_port_dec_nat)
qed

lemma serverApp_refuses:
  assumes "refused args"
  shows "run_state (serverApp_main parse_args p core fuel args input) s = (Some (Inl (Exit 1)),
    s\<lparr>m_callback := (m_callback s)\<lparr>app_out := app_out (m_callback s) @ ''ServerApp -p <port> -L <listenAddr>'' @ newline\<rparr>\<rparr>)"
proof -
  have "parse_args serverApp_option args ''p:L:?'' (0, Some ''0.0.0.0'') = Some (Inl (Exit 1))"
    by (rule refused_parse [OF assms]) (simp_all add: serverApp_option_def char_int_def option_kind_def)
  then show ?thesis
    by (simp add: serverApp_main_def run_main_refused serverApp_usage_def app_cout_def)
qed

section \<open>Lines of input\<close>

lemma dec_nat_small: "k < 10 \<Longrightarrow> dec_nat k = [digit_char k]"
  by (subst dec_nat.simps) simp

lemma length_dec_nat_large: "10 \<le> k \<Longrightarrow> 2 \<le> length (dec_nat k)"
  using dec_nat_nonempty [of "k div 10"] by (subst dec_nat.simps) (auto simp: Suc_le_eq)

text \<open>What a line that starts with a handle and a space has as its message.\<close>

definition line_payload :: "nat \<Rightarrow> string \<Rightarrow> string" where
  "line_payload k msg = (if k < 10 then msg else drop 2 (dec_nat k) @ '' '' @ msg)"

lemma drop_handle: "drop 2 (dec_nat k @ '' '' @ msg) = line_payload k msg"
  using length_dec_nat_large [of k] by (auto simp: line_payload_def dec_nat_small numeral_2_eq_2 not_less)

lemma handle_line:
  assumes "k < 2 ^ 31"
  shows "serverApp_line p core (dec_nat k @ '' '' @ msg) =
    ServerApp_sendMsg p core (int k) (line_payload k msg) (of_nat (length (line_payload k msg)))"
proof -
  let ?line = "dec_nat k @ '' '' @ msg"
  obtain c cs where c: "dec_nat k = c # cs" "is_digit c"
    using dec_nat_nonempty [of k] dec_nat_digits [of _ k] by (cases "dec_nat k") auto
  have "takeWhile is_digit ?line = dec_nat k"
    using dec_nat_digits [of _ k] by (subst takeWhile_append2) (auto simp: is_digit_def)
  then have "stoi ?line = Inr (int k)"
    using assms scan_number_dec_nat [of k "'' '' @ msg"] by (simp add: stoi_def digits_val_dec_nat Let_def)
  moreover have "char_at ?line 0 \<noteq> CHR ''B''" "char_at ?line 0 \<noteq> CHR ''b''"
    using c by (auto simp: char_at_def is_digit_def)
  moreover have "2 \<le> length ?line"
    using c by simp
  moreover have "of_nat (length ?line) - 2 = (of_nat (length (line_payload k msg)) :: size_t)"
    using \<open>2 \<le> length ?line\<close> unfolding drop_handle [symmetric] by (simp only: length_drop of_nat_diff) simp
  ultimately show ?thesis
    unfolding serverApp_line_def Let_def drop_handle by simp
qed

text \<open>The lines that end the program by an exception nobody catches.\<close>

lemma short_line_throws:
  "serverApp_line p core ''B'' = State_Monad.return (Inl (Throw ''std::out_of_range''))"
  "serverApp_line p core ''b'' = State_Monad.return (Inl (Throw ''std::out_of_range''))"
  by (simp_all add: serverApp_line_def char_at_def)

lemma short_handle_throws:
  assumes "d < 10"
  shows "serverApp_line p core (dec_nat d) = State_Monad.return (Inl (Throw ''std::out_of_range''))"
proof -
  have "stoi (dec_nat d) = Inr (int d)"
    using assms by (simp add: stoi_def)
  moreover have "length (dec_nat d) = 1"
    using assms by (simp add: dec_nat_small)
  ultimately show ?thesis
    by (simp add: serverApp_line_def)
qed

text \<open>A handle the application knows is one the server can send to.\<close>

lemma ServerApp_sendMsg_known:
  assumes "table_ok s" "known_clients (m_callback s) = client_keys s" "idx \<noteq> 0"
  shows "wp (ServerApp_sendMsg p core idx data len) (\<lambda>r t. r = Inr () \<and> m_clients t = m_clients s \<and>
      known_clients (m_callback t) = known_clients (m_callback s) \<and>
      (if idx \<in> client_keys s then \<exists>n. trace t = trace s @ [EvSend idx data len n] else trace t = trace s)) s"
proof (cases "idx \<in> client_keys s")
  case True
  with assms show ?thesis
    by (simp add: ServerApp_sendMsg_def del: split_paired_Ex)
      (rule wp_mono [OF sendClientMessage_event [OF assms(1) True]], auto simp: wp_simps)
next
  case False
  with assms show ?thesis
    by (simp add: ServerApp_sendMsg_def wp_simps)
qed

section \<open>The life of the application\<close>

text \<open>
  What happens between the start of \<open>serverApp\<close> and \<open>delete app\<close>: the constructor runs while the server
  holds nothing, then passes of the server thread and lines typed into the main thread follow each
  other in any order. (During a pass the main thread may send, but it never deletes a client.)
\<close>

inductive serverApp_step ::
  "platform \<Rightarrow> 'w SocketImpl \<Rightarrow> ('w, ServerApp) TcpServer \<Rightarrow> ('w, ServerApp) TcpServer \<Rightarrow> bool"
  for p core where
  construct: "server_holds s = {} \<Longrightarrow> run_state (ServerApp_ctor p core listenAddr port) s = (r, s') \<Longrightarrow> serverApp_step p core s s'"
| serve: "m_thread s \<Longrightarrow> harmless s \<Longrightarrow> run_state (serverTask_pass p core ServerApp_callback) s = (Inr ok, s') \<Longrightarrow>
     serverApp_step p core s s'"
| command: "run_state (serverApp_line p core line) s = (r, s') \<Longrightarrow> serverApp_step p core s s'"

text \<open>A change that matters to no descriptor: sends, and changes of the application's own members.\<close>

definition app_sends :: "('w, ServerApp) TcpServer \<Rightarrow> ('w, ServerApp) TcpServer \<Rightarrow> bool" where
  "app_sends s t \<longleftrightarrow> (\<exists>w es a. t = s\<lparr>world := w, trace := trace s @ es, m_callback := a\<rparr> \<and> list_all quiet es)"

lemma app_sends_refl: "app_sends s (s\<lparr>m_callback := a\<rparr>)"
  unfolding app_sends_def by (intro exI [of _ "world s"] exI [of _ "[]"] exI [of _ a]) simp

lemma app_sends_of_sends:
  assumes "only_sends s t"
  shows "app_sends s t" "app_sends s (t\<lparr>m_callback := a\<rparr>)"
proof -
  obtain w es where t: "t = s\<lparr>world := w, trace := trace s @ es\<rparr>" "list_all quiet es"
    using assms by (auto simp: only_sends_def)
  then have "t\<lparr>m_callback := b\<rparr> = s\<lparr>world := w, trace := trace s @ es, m_callback := b\<rparr>" for b
    by simp
  from this [of a] this [of "m_callback s"] t show "app_sends s (t\<lparr>m_callback := a\<rparr>)" "app_sends s t"
    unfolding app_sends_def by (blast, metis (no_types, lifting) TcpServer.surjective sock.update_convs(5))
qed

lemma ServerApp_sendMsg_sends: "wp (ServerApp_sendMsg p core idx data len) (\<lambda>_ t. app_sends s t) s"
  unfolding ServerApp_sendMsg_def
  by (auto simp: wp_simps app_sends_of_sends app_sends_refl split: sum.split
      intro!: wp_mono [OF sendBcast_sends] wp_mono [OF sendClientMessage_sends])


lemma serverApp_line_sends_only: "wp (serverApp_line p core line) (\<lambda>_ t. app_sends s t) s"
  using app_sends_refl [of s "m_callback s"]
  by (auto simp: serverApp_line_def Let_def ServerApp_sendMsg_sends split: sum.split)

lemma app_sends_keeps:
  assumes "app_sends s t"
  shows "prefix (trace s) (trace t)" "server_good p t = server_good p s" "server_holds t = server_holds s"
    "owned (trace t) = owned (trace s)"
  using assms quiet_owned
  by (auto simp: app_sends_def server_good_def server_holds_def server_inv_def table_ok_def harmless_def)

text \<open>The constructor is \<open>start\<close>, up to the options and the application's own members.\<close>

definition members_differ :: "('w, ServerApp) TcpServer \<Rightarrow> ('w, ServerApp) TcpServer \<Rightarrow> bool" where
  "members_differ s t \<longleftrightarrow> (\<exists>opts a. t = s\<lparr>m_sockOptions := opts, m_callback := a\<rparr>)"

lemma members_differ_keeps:
  assumes "members_differ s t"
  shows "trace t = trace s" "server_good p t = server_good p s" "server_holds t = server_holds s"
  using assms by (auto simp: members_differ_def server_good_def server_holds_def server_inv_def table_ok_def harmless_def)

lemma members_differ_refl [simp]: "members_differ s s"
  unfolding members_differ_def by (intro exI [of _ "m_sockOptions s"] exI [of _ "m_callback s"]) simp

lemma members_differ_update [simp]:
  "members_differ s (s\<lparr>m_sockOptions := opts\<rparr>)" "members_differ s (s\<lparr>m_callback := a\<rparr>)"
  unfolding members_differ_def
  by (rule exI [of _ opts], rule exI [of _ "m_callback s"], simp)
    (rule exI [of _ "m_sockOptions s"], rule exI [of _ a], simp)

lemma ServerApp_ctor_start:
  assumes "run_state (ServerApp_ctor p core listenAddr port) s = (r, t)"
  shows "members_differ s t \<or> (\<exists>u r' u'. members_differ s u \<and> run_state (TcpServer_start p core port) u = (r', u') \<and>
     members_differ u' t)"
proof (cases listenAddr)
  case None
  with assms show ?thesis by (auto simp: ServerApp_ctor_def)
next
  case (Some listen)
  let ?u = "s\<lparr>m_sockOptions := choose_options
    (Some \<lparr>m_txBufSize = TX_BUFFER_SIZE, m_rxBufSize = RX_BUFFER_SIZE, m_listenAddr = listen\<rparr>)\<rparr>"
  obtain r' u' where u': "run_state (TcpServer_start p core port) ?u = (r', u')"
    by (rule prod.exhaust)
  then have "members_differ u' t"
    using assms Some by (auto simp: ServerApp_ctor_def app_cout_def obind_def split: sum.splits if_splits)
  with u' show ?thesis
    using members_differ_update(1) by blast
qed

lemma ctor_balance:
  assumes "run_state (ServerApp_ctor p core listenAddr port) s = (r, t)" and "server_holds s = {}"
  shows "prefix (trace s) (trace t)"
    and "posix_trace (trace t) \<Longrightarrow> server_good p s \<Longrightarrow>
      server_good p t \<and> owned (trace t) = owned (trace s) \<union> server_holds t \<and> owned (trace s) \<inter> server_holds t = {}"
proof -
  consider "members_differ s t"
    | u r' u' where "members_differ s u" "run_state (TcpServer_start p core port) u = (r', u')" "members_differ u' t"
    using ServerApp_ctor_start [OF assms(1)] by blast
  then have "prefix (trace s) (trace t) \<and> (posix_trace (trace t) \<longrightarrow> server_good p s \<longrightarrow>
      server_good p t \<and> owned (trace t) = owned (trace s) \<union> server_holds t \<and> owned (trace s) \<inter> server_holds t = {})"
  proof cases
    case 1
    with assms(2) show ?thesis by (simp add: members_differ_keeps)
  next
    case 2
    with wpD [OF start_frame 2(2)] start_good [OF 2(2)] assms(2) show ?thesis
      by (simp add: members_differ_keeps)
  qed
  then show "prefix (trace s) (trace t)"
    and "posix_trace (trace t) \<Longrightarrow> server_good p s \<Longrightarrow>
      server_good p t \<and> owned (trace t) = owned (trace s) \<union> server_holds t \<and> owned (trace s) \<inter> server_holds t = {}"
    by blast+
qed

lemma serverApp_step_prefix: "serverApp_step p core s s' \<Longrightarrow> prefix (trace s) (trace s')"
proof (induction rule: serverApp_step.induct)
  case (construct s listenAddr port r s')
  from ctor_balance(1) [OF construct(2,1)] show ?case .
next
  case (serve s ok s')
  from serverapp.server_step_prefix [OF server_step.pass [OF serve]] show ?case .
next
  case (command line s r s')
  from app_sends_keeps(1) [OF wpD [OF serverApp_line_sends_only command]] show ?case .
qed

lemma serverApp_step_balance:
  assumes "serverApp_step p core s s'" and "posix_trace (trace s')" and "server_good p s"
    and "owned (trace s) = B \<union> server_holds s" and "B \<inter> server_holds s = {}"
  shows "server_good p s' \<and> owned (trace s') = B \<union> server_holds s' \<and> B \<inter> server_holds s' = {}"
  using assms(1)
proof cases
  case (construct listenAddr port r)
  with ctor_balance(2) [OF construct(2,1) assms(2,3)] assms(4) show ?thesis by simp
next
  case (serve ok)
  from serverapp.server_step_balance [OF server_step.pass [OF serve] assms(2-5)] show ?thesis .
next
  case (command line r)
  from app_sends_keeps [OF wpD [OF serverApp_line_sends_only command]] assms show ?thesis by simp
qed

interpretation serverapp_owner: descriptor_owner "serverApp_step p core" server_holds "server_good p"
  for p core
  by unfold_locales (use serverApp_step_prefix serverApp_step_balance in blast)+

section \<open>Properties\<close>

text \<open>
  C11. \<open>ServerApp\<close> and the server agree on who is connected: if the application's set of clients is
  the server's table before the server thread runs, it is afterwards, whatever connects, sends and
  disconnects, and whatever the main thread sends in between. In particular every client the
  application would send to is in the table.
\<close>

theorem serverApp_knows_clients:
  assumes "run_state (serverTask fuel p core ServerApp_callback) s = (r, t)" "\<forall>a. r \<noteq> Some (Inl a)" "harmless s"
    and "known_clients (m_callback s) = client_keys s"
  shows "known_clients (m_callback t) = client_keys t"
  using wpD [OF serverapp_tracks.serverTask_knows assms(1)] assms(2-4)
  by (simp add: serverapp_tracks.knows_def)

text \<open>\<open>ServerApp\<close> on the mocked sockets: a client connects on 5 and sends \<open>hello\<close>.\<close>

definition app_start :: "(mock, ServerApp) TcpServer" where
  "app_start = new_TcpServer None new_ServerApp
     (no_script\<lparr>q_Socket := [3], q_Select := [(1, 8), (1, 0x20)],
        q_Accept := [(5, \<lparr>sin_family = AF_INET, sin_port = 0x0700, sin_addr = 0x0100007F\<rparr>)],
        q_Recv := [(5, ''hello'')], q_Send := [2]\<rparr>)
     [False, False, True] [] (\<lambda>_. CHR ''?'')"

definition app_server :: "(mock, ServerApp) TcpServer" where
  "app_server = snd (run_state (ServerApp_ctor example_platform MockSocketCore (Some ''0.0.0.0'') 80) app_start)"

definition app_served :: "unit outcome option \<times> (mock, ServerApp) TcpServer" where
  "app_served = run_state (serverTask 3 example_platform MockSocketCore ServerApp_callback) app_server"

theorem serverApp_knows_clients_witness:
  "fst app_served = Some (Inr ()) \<and> known_clients (m_callback (snd app_served)) = client_keys (snd app_served) \<and>
   client_keys (snd app_served) = {5}"
proof -
  have "fst app_served = Some (Inr ())" "harmless app_server" "client_keys (snd app_served) = {5}"
    "known_clients (m_callback app_server) = client_keys app_server"
    by code_simp+
  with serverApp_knows_clients [OF prod.collapse [symmetric, of app_served, unfolded app_served_def]] show ?thesis
    unfolding app_served_def by simp
qed

text \<open>
  C30. A line \<open>k msg\<close> typed into \<open>serverApp\<close> sends to client \<open>k\<close> when it is connected, in one
  \<open>send\<close>, and otherwise makes no call. The message is \<open>msg\<close> for the handles 1 to 9 only: the code
  skips two characters, so that from 10 on the rest of the handle and the space are sent too.
\<close>

theorem serverApp_line_sends:
  assumes "run_state (serverApp_line p core (dec_nat k @ '' '' @ msg)) s = (r, t)" "0 < k" "k < 2 ^ 31"
    and "table_ok s" "known_clients (m_callback s) = client_keys s"
  shows "r = Inr () \<and>
     (if int k \<in> client_keys s
      then \<exists>n. trace t = trace s @ [EvSend (int k) (line_payload k msg) (of_nat (length (line_payload k msg))) n]
      else trace t = trace s) \<and>
     (line_payload k msg = msg \<longleftrightarrow> k < 10)"
proof -
  have "line_payload k msg \<noteq> msg" if "\<not> k < 10"
    using that append_eq_conv_conj by (auto simp: line_payload_def dest: arg_cong [where f = length])
  then have "line_payload k msg = msg \<longleftrightarrow> k < 10"
    by (auto simp: line_payload_def)
  with wpD [OF ServerApp_sendMsg_known [OF assms(4,5)] assms(1) [unfolded handle_line [OF assms(3)]]] assms(2)
  show ?thesis by simp
qed

definition typed_line :: "unit outcome \<times> (mock, ServerApp) TcpServer" where
  "typed_line = run_state (serverApp_line example_platform MockSocketCore (dec_nat 5 @ '' '' @ ''hi'')) (snd app_served)"

theorem serverApp_line_sends_witness:
  "fst typed_line = Inr () \<and> (\<exists>n. trace (snd typed_line) = trace (snd app_served) @ [EvSend 5 ''hi'' 2 n])"
proof -
  have keys: "client_keys (snd app_served) = {5}" "known_clients (m_callback (snd app_served)) = {5}"
    by code_simp+
  have "m_clients (snd app_served) = [(5, new_Client ''127.0.0.1'' 5 7)]" "m_sockfd (snd app_served) = 3"
    by code_simp+
  then have "table_ok (snd app_served)"
    by (simp add: table_ok_def um_inv_def um_keys_def ct.all_entries_def um_find_def new_Client_def INVALID_SOCKET_def)
  from serverApp_line_sends [OF prod.collapse [symmetric, of typed_line, unfolded typed_line_def] _ _ this] keys
  show ?thesis
    by (simp add: typed_line_def line_payload_def)
qed


text \<open>The constructor, a pass that accepts a client, a line to it, and the destructor.\<close>

definition app_pass :: "bool outcome \<times> (mock, ServerApp) TcpServer" where
  "app_pass = run_state (serverTask_pass example_platform MockSocketCore ServerApp_callback) app_server"

definition app_line :: "unit outcome \<times> (mock, ServerApp) TcpServer" where
  "app_line = run_state (serverApp_line example_platform MockSocketCore ''5 hi'') (snd app_pass)"

definition app_gone :: "unit outcome \<times> (mock, ServerApp) TcpServer" where
  "app_gone = run_state (ServerApp_dtor example_platform MockSocketCore) (snd app_line)"

lemma app_start_good: "server_good example_platform app_start" "server_holds app_start = {}"
  by (simp_all add: server_good_def example_iterates table_ok_def harmless_def app_start_def new_TcpServer_def
      um_inv_def um_keys_def ct.all_entries_def um_find_def server_holds_def)

lemma app_history: "(serverApp_step example_platform MockSocketCore)\<^sup>*\<^sup>* app_start (snd app_line)"
  (is "?step\<^sup>*\<^sup>* _ _")
proof -
  have "?step app_start app_server"
    unfolding app_server_def by (rule serverApp_step.construct [OF app_start_good(2) prod.collapse [symmetric]])
  moreover have "?step app_server (snd app_pass)"
  proof (rule serverApp_step.serve)
    have "fst app_pass = Inr True" by code_simp
    then show "run_state (serverTask_pass example_platform MockSocketCore ServerApp_callback) app_server = (Inr True, snd app_pass)"
      by (simp add: app_pass_def prod_eq_iff)
  qed code_simp+
  moreover have "?step (snd app_pass) (snd app_line)"
    unfolding app_line_def by (rule serverApp_step.command [OF prod.collapse [symmetric]])
  ultimately show ?thesis
    by (metis rtranclp.simps)
qed


end
