(* ===== verification/Build_Variants.thy ===== *)
theory Build_Variants
  imports TcpClient UdpSocket TcpServer
begin

text \<open>
  The CMake option \<open>FMT_SUPPORT\<close> selects one of two ways to build every message, \<open>fmt::format\<close> or
  \<open>snprintf\<close> into an array of \<open>MSG_SIZE\<close> characters. The two builds of each public operation are
  compared here: a relation between programs of the state monad that is closed under the way
  programs are put together, so that two operations are related because their parts are.
\<close>

section \<open>Programs that differ in their results only\<close>

definition related :: "('a \<Rightarrow> 'b \<Rightarrow> bool) \<Rightarrow> ('s, 'a) state \<Rightarrow> ('s, 'b) state \<Rightarrow> bool" where
  "related R m m' \<longleftrightarrow> (\<forall>s. R (fst (run_state m s)) (fst (run_state m' s)) \<and>
     snd (run_state m s) = snd (run_state m' s))"

named_theorems related_intros "rules for related programs, by the form of the programs"

lemma related_refl: "related (=) m m"
  by (simp add: related_def)

lemma related_return [related_intros]: "R x y \<Longrightarrow> related R (State_Monad.return x) (State_Monad.return y)"
  by (simp add: related_def)

lemma related_bind:
  assumes "related Q m m'" "\<And>x y. Q x y \<Longrightarrow> related R (f x) (g y)"
  shows "related R (State_Monad.bind m f) (State_Monad.bind m' g)"
proof -
  have "R (fst (run_state (State_Monad.bind m f) s)) (fst (run_state (State_Monad.bind m' g) s)) \<and>
      snd (run_state (State_Monad.bind m f) s) = snd (run_state (State_Monad.bind m' g) s)" for s
    using assms(1) assms(2) [of "fst (run_state m s)" "fst (run_state m' s)"]
    by (simp add: related_def case_prod_beta)
  then show ?thesis
    by (simp add: related_def)
qed

lemma related_bind_same [related_intros]:
  "(\<And>x. related R (f x) (g x)) \<Longrightarrow> related R (State_Monad.bind m f) (State_Monad.bind m g)"
  by (rule related_bind [OF related_refl]) simp

lemma related_if [related_intros]:
  "(b \<Longrightarrow> related R m m') \<Longrightarrow> (\<not> b \<Longrightarrow> related R n n') \<Longrightarrow> related R (if b then m else n) (if b then m' else n')"
  by simp

lemma related_case_option [related_intros]:
  "(x = None \<Longrightarrow> related R m m') \<Longrightarrow> (\<And>a. x = Some a \<Longrightarrow> related R (f a) (g a)) \<Longrightarrow>
   related R (case x of None \<Rightarrow> m | Some a \<Rightarrow> f a) (case x of None \<Rightarrow> m' | Some a \<Rightarrow> g a)"
  by (cases x) simp_all

lemma related_case_prod [related_intros]:
  "(\<And>a b. related R (f a b) (g a b)) \<Longrightarrow> related R (case x of (a, b) \<Rightarrow> f a b) (case x of (a, b) \<Rightarrow> g a b)"
  by (cases x) simp

lemma related_obind_same [related_intros]:
  "(\<And>a. R (Inl a) (Inl a)) \<Longrightarrow> (\<And>x. related R (f x) (g x)) \<Longrightarrow> related R (obind m f) (obind m g)"
  unfolding obind_def by (rule related_bind_same) (auto split: sum.split intro: related_return)

section \<open>The two builds\<close>

text \<open>
  The results of the same operation in a build with \<open>fmt\<close> and in one without: the same success, and
  without \<open>fmt\<close> a message that fits the array, its terminator included. An abort is the same.
\<close>

definition variant_ret :: "SocketRet \<Rightarrow> SocketRet \<Rightarrow> bool" where
  "variant_ret with_fmt without \<longleftrightarrow> m_success with_fmt = m_success without \<and> length (m_msg without) < MSG_SIZE"

definition variants ::
  "(platform \<Rightarrow> ('s, SocketRet) state) \<Rightarrow> platform \<Rightarrow> bool" where
  "variants f p = related variant_ret (f (p\<lparr>FMT_SUPPORT := True\<rparr>)) (f (p\<lparr>FMT_SUPPORT := False\<rparr>))"

definition outcome_variants ::
  "(platform \<Rightarrow> ('s, SocketRet outcome) state) \<Rightarrow> platform \<Rightarrow> bool" where
  "outcome_variants f p =
     related (rel_sum (=) variant_ret) (f (p\<lparr>FMT_SUPPORT := True\<rparr>)) (f (p\<lparr>FMT_SUPPORT := False\<rparr>))"

lemma platform_variant [simp]:
  "htons (p\<lparr>FMT_SUPPORT := b\<rparr>) = htons p" "ntohs (p\<lparr>FMT_SUPPORT := b\<rparr>) = ntohs p"
  "inet_pton (p\<lparr>FMT_SUPPORT := b\<rparr>) = inet_pton p" "FMT_SUPPORT (p\<lparr>FMT_SUPPORT := b\<rparr>) = b"
  "pton_into (p\<lparr>FMT_SUPPORT := b\<rparr>) = pton_into p" "um_range (p\<lparr>FMT_SUPPORT := b\<rparr>) = um_range p"
  by (simp_all add: htons_def ntohs_def pton_into_def um_range_def fun_eq_iff)

lemma variant_ok [simp]: "variant_ret ok_ret ok_ret"
  by (simp add: variant_ret_def MSG_SIZE_def)

lemma variant_fail [simp]: "variant_ret (fail_ret m) (fail_ret m') \<longleftrightarrow> length m' < MSG_SIZE"
  by (simp add: variant_ret_def)

lemma variant_format [simp]: "length (format_msg (p\<lparr>FMT_SUPPORT := False\<rparr>) a b) < MSG_SIZE"
  by (rule format_msg_bound) simp

lemma related_errno_ret:
  assumes "\<And>x y. variant_ret x y \<Longrightarrow> \<not> m_success x \<Longrightarrow> R (c x) (c y)"
  shows "related R (State_Monad.bind (errno_ret (p\<lparr>FMT_SUPPORT := True\<rparr>) core a b) (\<lambda>ret. State_Monad.return (c ret)))
     (State_Monad.bind (errno_ret (p\<lparr>FMT_SUPPORT := False\<rparr>) core a b) (\<lambda>ret. State_Monad.return (c ret)))"
  unfolding errno_ret_def by (auto simp: related_def errno_def intro!: assms)

lemma related_errno_ret' [related_intros]:
  "related variant_ret (errno_ret (p\<lparr>FMT_SUPPORT := True\<rparr>) core a b) (errno_ret (p\<lparr>FMT_SUPPORT := False\<rparr>) core a b)"
  unfolding errno_ret_def by (auto simp: related_def errno_def)

lemmas variant_defs = variants_def outcome_variants_def platform_variant

lemma connectTo_variants: "outcome_variants (\<lambda>p. connectTo p core (Some host) port) p"
  unfolding variant_defs connectTo_def unresolved_host_def
  by (intro related_intros related_errno_ret) simp_all

lemma TcpServer_start_variants: "outcome_variants (\<lambda>p. TcpServer_start p core port) p"
  unfolding variant_defs TcpServer_start_def
  by (intro related_intros related_errno_ret) simp_all

lemma startMcast_variants: "outcome_variants (\<lambda>p. startMcast p core mcastAddr port localIpAddr) p"
  unfolding variant_defs startMcast_def udp_init_failed_def
  by (intro related_intros related_errno_ret) simp_all

lemma startUnicast_local_variants: "outcome_variants (\<lambda>p. startUnicast_local p core localPort) p"
  unfolding variant_defs startUnicast_local_def udp_init_failed_def
  by (intro related_intros related_errno_ret) (simp_all, simp add: MSG_SIZE_def)

lemma startUnicast_variants: "outcome_variants (\<lambda>p. startUnicast p core (Some host) localPort port) p"
  unfolding variant_defs startUnicast_def udp_init_failed_def unresolved_host_def
  by (intro related_intros related_errno_ret startUnicast_local_variants [unfolded variant_defs]) simp_all

lemma TcpClient_sendMsg_variants: "variants (\<lambda>p. TcpClient_sendMsg p core msg sz) p"
  unfolding variant_defs TcpClient_sendMsg_def
  by (intro related_intros) simp_all

lemma UdpSocket_sendMsg_variants: "variants (\<lambda>p. UdpSocket_sendMsg p core msg sz) p"
  unfolding variant_defs UdpSocket_sendMsg_def
  by (intro related_intros) simp_all

lemma Client_sendMsg_variants: "variants (\<lambda>p. Client_sendMsg p core client msg sz) p"
  unfolding variant_defs Client_sendMsg_def
  by (intro related_intros) simp_all

lemma bcast_loop_variants: "variants (\<lambda>p. bcast_loop p core msg sz clients) p"
proof (induction clients)
  case (Cons kc clients)
  obtain k c where "kc = (k, c)"
    by fastforce
  with Cons show ?case
    unfolding variant_defs bcast_loop.simps
    by (auto intro!: related_bind [OF Client_sendMsg_variants [unfolded variant_defs]] related_return
        simp: variant_ret_def)
qed (simp add: variant_defs related_return)

lemma sendBcast_variants: "variants (\<lambda>p. sendBcast p core msg sz) p"
  unfolding variant_defs sendBcast_def
  by (intro related_bind_same bcast_loop_variants [unfolded variant_defs])

lemma sendClientMessage_variants: "outcome_variants (\<lambda>p. sendClientMessage p core k msg sz) p"
  unfolding variant_defs sendClientMessage_def sendClientMessage_use_def
  by (intro related_intros related_bind [OF Client_sendMsg_variants [unfolded variant_defs]]) simp_all

section \<open>Properties\<close>


end
