(* ===== verification/Unit_Tests.thy ===== *)
theory Unit_Tests
  imports TcpClient UdpSocket Server_Task
begin

text \<open>
  The unit tests of \<open>test/\<close> as runs of the model on the mocked \<open>SocketImpl\<close>: one definition per
  \<open>TEST\<close>, in the order and with the statements of the source. An expectation carries the answers of
  its \<open>WillOnce\<close> actions, and it is met when the method was called exactly that often, or any number
  of times where the source says \<open>WillRepeatedly\<close>. A test also runs the destructor of its
  application object, whose calls count. While the main thread sleeps, the thread of the object
  runs: three passes, after which it sees the stop flag set.
\<close>

section \<open>Expectations\<close>

datatype expect_call =
    Expect_Socket "SOCKET list"
  | Expect_SetSockOpt "int list"
  | Expect_Bind "int list"
  | Expect_Accept "(SOCKET \<times> sockaddr_in) list"
  | Expect_Listen "int list"
  | Expect_Connect "int list"
  | Expect_Close "int list"
  | Expect_Closes
  | Expect_Select "(int \<times> fd_set) list"
  | Expect_Recv "(ssize_t \<times> bytes) list"
  | Expect_SendTo "ssize_t list"
  | Expect_Send "ssize_t list"
  | Expect_GetAddrInfo "string option" "(int \<times> in_addr_t list) list"
  | Expect_FreeAddrInfo

fun EXPECT_CALL :: "expect_call \<Rightarrow> mock \<Rightarrow> mock" where
  "EXPECT_CALL (Expect_Socket rs) m = m\<lparr>q_Socket := rs\<rparr>"
| "EXPECT_CALL (Expect_SetSockOpt rs) m = m\<lparr>q_SetSockOpt := rs\<rparr>"
| "EXPECT_CALL (Expect_Bind rs) m = m\<lparr>q_Bind := rs\<rparr>"
| "EXPECT_CALL (Expect_Accept rs) m = m\<lparr>q_Accept := rs\<rparr>"
| "EXPECT_CALL (Expect_Listen rs) m = m\<lparr>q_Listen := rs\<rparr>"
| "EXPECT_CALL (Expect_Connect rs) m = m\<lparr>q_Connect := rs\<rparr>"
| "EXPECT_CALL (Expect_Close rs) m = m\<lparr>q_Close := rs\<rparr>"
| "EXPECT_CALL Expect_Closes m = m"
| "EXPECT_CALL (Expect_Select rs) m = m\<lparr>q_Select := rs\<rparr>"
| "EXPECT_CALL (Expect_Recv rs) m = m\<lparr>q_Recv := rs\<rparr>"
| "EXPECT_CALL (Expect_SendTo rs) m = m\<lparr>q_SendTo := rs\<rparr>"
| "EXPECT_CALL (Expect_Send rs) m = m\<lparr>q_Send := rs\<rparr>"
| "EXPECT_CALL (Expect_GetAddrInfo _ rs) m = m\<lparr>q_GetAddrInfo := rs\<rparr>"
| "EXPECT_CALL Expect_FreeAddrInfo m = m"

text \<open>Which calls an expectation is about, and how many of them it allows.\<close>

fun expected_method :: "expect_call \<Rightarrow> string" where
  "expected_method (Expect_Socket _) = ''Socket''"
| "expected_method (Expect_SetSockOpt _) = ''SetSockOpt''"
| "expected_method (Expect_Bind _) = ''Bind''"
| "expected_method (Expect_Accept _) = ''Accept''"
| "expected_method (Expect_Listen _) = ''Listen''"
| "expected_method (Expect_Connect _) = ''Connect''"
| "expected_method (Expect_Close _) = ''Close''"
| "expected_method Expect_Closes = ''Close''"
| "expected_method (Expect_Select _) = ''Select''"
| "expected_method (Expect_Recv _) = ''Recv''"
| "expected_method (Expect_SendTo _) = ''SendTo''"
| "expected_method (Expect_Send _) = ''Send''"
| "expected_method (Expect_GetAddrInfo _ _) = ''GetAddrInfo''"
| "expected_method Expect_FreeAddrInfo = ''FreeAddrInfo''"

definition called_method :: "event \<Rightarrow> string" where
  "called_method e = (case e of EvSetSockOpt _ _ _ _ _ \<Rightarrow> ''SetSockOpt'' | _ \<Rightarrow> call_name e)"

definition arguments_match :: "expect_call \<Rightarrow> event \<Rightarrow> bool" where
  "arguments_match x e =
     (case (x, e) of (Expect_GetAddrInfo (Some name) _, EvGetAddrInfo host _ _ _) \<Rightarrow> host = Some name | _ \<Rightarrow> True)"

definition matches :: "expect_call \<Rightarrow> event \<Rightarrow> bool" where
  "matches x e \<longleftrightarrow> called_method e = expected_method x \<and> arguments_match x e"

fun expected_times :: "expect_call \<Rightarrow> nat \<Rightarrow> bool" where
  "expected_times (Expect_Socket rs) n \<longleftrightarrow> n = length rs"
| "expected_times (Expect_SetSockOpt rs) n \<longleftrightarrow> n = length rs"
| "expected_times (Expect_Bind rs) n \<longleftrightarrow> n = length rs"
| "expected_times (Expect_Accept rs) n \<longleftrightarrow> n = length rs"
| "expected_times (Expect_Listen rs) n \<longleftrightarrow> n = length rs"
| "expected_times (Expect_Connect rs) n \<longleftrightarrow> n = length rs"
| "expected_times (Expect_Close rs) n \<longleftrightarrow> n = length rs"
| "expected_times Expect_Closes n \<longleftrightarrow> True"
| "expected_times (Expect_Select rs) n \<longleftrightarrow> length rs \<le> n"
| "expected_times (Expect_Recv rs) n \<longleftrightarrow> n = length rs"
| "expected_times (Expect_SendTo rs) n \<longleftrightarrow> n = length rs"
| "expected_times (Expect_Send rs) n \<longleftrightarrow> n = length rs"
| "expected_times (Expect_GetAddrInfo _ rs) n \<longleftrightarrow> n = length rs"
| "expected_times Expect_FreeAddrInfo n \<longleftrightarrow> n = 1"

definition met :: "event list \<Rightarrow> expect_call \<Rightarrow> bool" where
  "met tr x = expected_times x (length (filter (matches x) tr))"

text \<open>The statements of a test are all executed, each giving whether its \<open>EXPECT_EQ\<close> holds.\<close>

fun statements :: "('s, bool) state list \<Rightarrow> ('s, bool) state" where
  "statements [] = State_Monad.return True"
| "statements (c # cs) = do {
     ok \<leftarrow> c;
     oks \<leftarrow> statements cs;
     State_Monad.return (ok \<and> oks)
   }"

definition run_test ::
  "(mock \<Rightarrow> (mock, 'z) env_scheme) \<Rightarrow> expect_call list \<Rightarrow> ((mock, 'z) env_scheme, bool) state list \<Rightarrow> bool" where
  "run_test new expectations body =
     (case run_state (statements body) (new (fold EXPECT_CALL expectations no_script)) of
        (ok, s) \<Rightarrow> ok \<and> list_all (met (trace s)) expectations)"

definition expect_success :: "bool \<Rightarrow> SocketRet outcome \<Rightarrow> bool" where
  "expect_success b r = (case r of Inl _ \<Rightarrow> False | Inr ret \<Rightarrow> m_success ret = b)"

definition app_has :: "('a \<Rightarrow> bool) \<Rightarrow> (('w, 'a, 'z) sock_scheme, bool) state" where
  "app_has P = do {
     s \<leftarrow> State_Monad.get;
     State_Monad.return (P (m_callback s))
   }"

definition checked :: "('r \<Rightarrow> bool) \<Rightarrow> ('s, 'r) state \<Rightarrow> ('s, bool) state" where
  "checked P c = do {
     r \<leftarrow> c;
     State_Monad.return (P r)
   }"

definition small_buffers :: SocketOpt where
  "small_buffers = SocketOpt_default\<lparr>m_rxBufSize := 8192, m_txBufSize := 8192\<rparr>"

text \<open>The two builds of the library.\<close>

definition build :: "bool \<Rightarrow> platform" where
  "build fmt = example_platform\<lparr>FMT_SUPPORT := fmt\<rparr>"

section \<open>test\_AddrLookup.cpp\<close>

definition looks_up :: "string \<Rightarrow> (int \<Rightarrow> in_addr_t \<Rightarrow> bool) \<Rightarrow> (mock env, bool) state" where
  "looks_up name P = checked (\<lambda>(rc, addr). P rc addr) (lookupHost MockSocketCore (Some name) 0)"

definition lookup_test :: "expect_call list \<Rightarrow> (mock env, bool) state list \<Rightarrow> bool" where
  "lookup_test = run_test (\<lambda>m. \<lparr>world = m, trace = []\<rparr>)"

definition AddrLookup_badhost :: bool where
  "AddrLookup_badhost = lookup_test
     [Expect_GetAddrInfo (Some ''badhost'') [(-1, [])]]
     [looks_up ''badhost'' (\<lambda>rc addr. rc = -1)]"

definition AddrLookup_localhost :: bool where
  "AddrLookup_localhost = lookup_test
     [Expect_GetAddrInfo (Some ''localhost'') [(0, [0x0100007F])], Expect_FreeAddrInfo]
     [looks_up ''localhost'' (\<lambda>rc addr. rc = 0 \<and> addr = 0x0100007F)]"

definition AddrLookup_ipv4addr :: bool where
  "AddrLookup_ipv4addr = lookup_test
     [Expect_GetAddrInfo (Some ''127.0.0.1'') [(0, [0x0100007F])], Expect_FreeAddrInfo]
     [looks_up ''127.0.0.1'' (\<lambda>rc addr. rc = 0 \<and> addr = 0x0100007F)]"

definition AddrLookup_badresult :: bool where
  "AddrLookup_badresult = lookup_test
     [Expect_GetAddrInfo (Some ''127.0.0.1'') [(0, [])], Expect_FreeAddrInfo]
     [looks_up ''127.0.0.1'' (\<lambda>rc addr. rc = -1)]"

section \<open>test\_TcpClient.cpp\<close>

type_synonym test_tcp_client = "(mock, TcpClientTestApp) TcpClient"

definition connects :: "platform \<Rightarrow> string option \<Rightarrow> uint16_t \<Rightarrow> bool \<Rightarrow> (test_tcp_client, bool) state" where
  "connects p remoteIp remotePort b = checked (expect_success b) (connectTo p MockSocketCore remoteIp remotePort)"

definition client_sends_msg :: "platform \<Rightarrow> bytes \<Rightarrow> size_t \<Rightarrow> bool \<Rightarrow> (test_tcp_client, bool) state" where
  "client_sends_msg p msg sz b = checked (\<lambda>ret. m_success ret = b) (TcpClient_sendMsg p MockSocketCore msg sz)"

definition client_thread :: "platform \<Rightarrow> (test_tcp_client, bool) state" where
  "client_thread p = checked (\<lambda>r. r = Some (Inr ()))
     (TcpClient_ReceiveTask 4 p MockSocketCore TcpClientTestApp_callback (\<lambda>_. CHR ''?''))"

definition client_finishes :: "(test_tcp_client, bool) state" where
  "client_finishes = checked (\<lambda>_. True) (TcpClient_finish MockSocketCore False)"

definition client_test :: "SocketOpt option \<Rightarrow> expect_call list \<Rightarrow> (test_tcp_client, bool) state list \<Rightarrow> bool" where
  "client_test opts expectations body =
     run_test (\<lambda>m. new_TcpClient opts \<lparr>m_receiveData = [], m_disconnected = False\<rparr> m [False, False, False, True] sockaddr_zero)
       expectations (body @ [checked (\<lambda>r. r = Inr ()) (TcpClient_destroy MockSocketCore False)])"

definition TcpClientSocket_tcp_socket_fail :: "platform \<Rightarrow> bool" where
  "TcpClientSocket_tcp_socket_fail p = client_test None
     [Expect_Socket [-1]]
     [connects p (Some ''localhost'') 5000 False]"

definition TcpClientSocket_tcp_sockopt_fail1 :: "platform \<Rightarrow> bool" where
  "TcpClientSocket_tcp_sockopt_fail1 p = client_test None
     [Expect_Socket [4], Expect_SetSockOpt [-1], Expect_Close [0]]
     [connects p (Some ''localhost'') 5000 False]"

definition TcpClientSocket_tcp_sockopt_fail2 :: "platform \<Rightarrow> bool" where
  "TcpClientSocket_tcp_sockopt_fail2 p = client_test None
     [Expect_Socket [4], Expect_SetSockOpt [0, -1], Expect_Close [0]]
     [connects p (Some ''localhost'') 5000 False]"

definition TcpClientSocket_unicast_lookup_fail :: "platform \<Rightarrow> bool" where
  "TcpClientSocket_unicast_lookup_fail p = client_test None
     [Expect_Socket [4], Expect_SetSockOpt [0, 0], Expect_Close [0], Expect_GetAddrInfo None [(-1, [])]]
     [connects p (Some ''localhost'') 5000 False]"

definition TcpClientSocket_tcp_connect_fail :: "platform \<Rightarrow> bool" where
  "TcpClientSocket_tcp_connect_fail p = client_test (Some small_buffers)
     [Expect_Socket [4], Expect_SetSockOpt [0, 0], Expect_GetAddrInfo None [(0, [0x0100007F])],
      Expect_FreeAddrInfo, Expect_Connect [-1], Expect_Close [0]]
     [connects p (Some ''localhost'') 5000 False]"

definition TcpClientSocket_tcp_connect :: "platform \<Rightarrow> bool" where
  "TcpClientSocket_tcp_connect p = client_test None
     [Expect_Socket [4], Expect_SetSockOpt [0, 0], Expect_GetAddrInfo None [(0, [0x0100007F])],
      Expect_FreeAddrInfo, Expect_Connect [0], Expect_Select [], Expect_Close [0]]
     [connects p (Some ''localhost'') 5000 True, client_thread p, client_finishes]"

definition TcpClientSocket_tcp_finish_fail :: "platform \<Rightarrow> bool" where
  "TcpClientSocket_tcp_finish_fail p = client_test None
     [Expect_Socket [4], Expect_SetSockOpt [0, 0], Expect_GetAddrInfo None [(0, [0x0100007F])],
      Expect_FreeAddrInfo, Expect_Connect [0], Expect_Select [], Expect_Close [-1]]
     [connects p (Some ''localhost'') 5000 True, client_thread p, client_finishes]"

definition TcpClientSocket_tcp_send_fail :: "platform \<Rightarrow> bool" where
  "TcpClientSocket_tcp_send_fail p = client_test None
     [Expect_Socket [4], Expect_SetSockOpt [0, 0], Expect_GetAddrInfo None [(0, [0x0100007F])],
      Expect_FreeAddrInfo, Expect_Connect [0], Expect_Select [], Expect_Send [-1], Expect_Close [0]]
     [connects p (Some ''localhost'') 5000 True, client_sends_msg p ''Message Data'' 12 False, client_thread p,
      client_finishes]"

definition TcpClientSocket_tcp_send_partial :: "platform \<Rightarrow> bool" where
  "TcpClientSocket_tcp_send_partial p = client_test None
     [Expect_Socket [4], Expect_SetSockOpt [0, 0], Expect_GetAddrInfo None [(0, [0x0100007F])],
      Expect_FreeAddrInfo, Expect_Connect [0], Expect_Select [], Expect_Send [5], Expect_Close [0]]
     [connects p (Some ''localhost'') 5000 True, client_sends_msg p ''Message Data'' 12 False, client_thread p,
      client_finishes]"

definition TcpClientSocket_tcp_send_success :: "platform \<Rightarrow> bool" where
  "TcpClientSocket_tcp_send_success p = client_test None
     [Expect_Socket [4], Expect_SetSockOpt [0, 0], Expect_GetAddrInfo None [(0, [0x0100007F])],
      Expect_FreeAddrInfo, Expect_Connect [0], Expect_Select [], Expect_Send [12], Expect_Close [0]]
     [connects p (Some ''localhost'') 5000 True, client_sends_msg p ''Message Data'' 12 True, client_thread p,
      client_finishes]"

definition TcpClientSocket_tcp_receive :: "platform \<Rightarrow> bool" where
  "TcpClientSocket_tcp_receive p = client_test None
     [Expect_Socket [4], Expect_SetSockOpt [0, 0], Expect_GetAddrInfo None [(0, [0x0100007F])],
      Expect_FreeAddrInfo, Expect_Connect [0], Expect_Select [(1, 16)], Expect_Recv [(13, ''Received Data'')],
      Expect_Close [0]]
     [connects p (Some ''localhost'') 5000 True, client_thread p, client_finishes,
      app_has (\<lambda>a. m_receiveData a = ''Received Data'')]"

definition TcpClientSocket_tcp_server_disconnect :: "platform \<Rightarrow> bool" where
  "TcpClientSocket_tcp_server_disconnect p = client_test None
     [Expect_Socket [4], Expect_SetSockOpt [0, 0], Expect_GetAddrInfo None [(0, [0x0100007F])],
      Expect_FreeAddrInfo, Expect_Connect [0], Expect_Select [(1, 16)], Expect_Recv [(0, ''Received Data'')],
      Expect_Close [0]]
     [connects p (Some ''localhost'') 5000 True, client_thread p, client_finishes, app_has m_disconnected]"

section \<open>test\_UdpSocket.cpp\<close>

type_synonym test_udp = "(mock, string) UdpSocket"

definition unicast_starts :: "platform \<Rightarrow> uint16_t \<Rightarrow> bool \<Rightarrow> (test_udp, bool) state" where
  "unicast_starts p localPort b = checked (expect_success b) (startUnicast_local p MockSocketCore localPort)"

definition remote_starts :: "platform \<Rightarrow> string option \<Rightarrow> uint16_t \<Rightarrow> uint16_t \<Rightarrow> bool \<Rightarrow> (test_udp, bool) state" where
  "remote_starts p remoteAddr localPort port b =
     checked (expect_success b) (startUnicast p MockSocketCore remoteAddr localPort port)"

definition mcast_starts :: "platform \<Rightarrow> string option \<Rightarrow> uint16_t \<Rightarrow> string option \<Rightarrow> bool \<Rightarrow> (test_udp, bool) state" where
  "mcast_starts p mcastAddr port localAddr b =
     checked (expect_success b) (startMcast p MockSocketCore mcastAddr port localAddr)"

definition udp_sends_msg :: "platform \<Rightarrow> bytes \<Rightarrow> size_t \<Rightarrow> bool \<Rightarrow> (test_udp, bool) state" where
  "udp_sends_msg p msg sz b = checked (\<lambda>ret. m_success ret = b) (UdpSocket_sendMsg p MockSocketCore msg sz)"

definition udp_thread :: "(test_udp, bool) state" where
  "udp_thread = checked (\<lambda>r. r = Some (Inr ()))
     (UdpSocket_ReceiveTask 4 MockSocketCore UdpTestApp_onReceiveData (\<lambda>_. CHR ''?''))"

definition udp_finishes :: "(test_udp, bool) state" where
  "udp_finishes = checked (\<lambda>_. True) (UdpSocket_finish MockSocketCore False)"

definition udp_test_case :: "SocketOpt option \<Rightarrow> expect_call list \<Rightarrow> (test_udp, bool) state list \<Rightarrow> bool" where
  "udp_test_case opts expectations body =
     run_test (\<lambda>m. new_UdpSocket opts [] m [False, False, False, True])
       expectations (body @ [checked (\<lambda>r. r = Inr ()) (UdpSocket_destroy MockSocketCore False)])"

definition UdpSocket_unicast_socket_fail :: "platform \<Rightarrow> bool" where
  "UdpSocket_unicast_socket_fail p = udp_test_case None
     [Expect_Socket [-1]]
     [unicast_starts p 5000 False]"

definition UdpSocket_mcast_socket_fail :: "platform \<Rightarrow> bool" where
  "UdpSocket_mcast_socket_fail p = udp_test_case None
     [Expect_Socket [-1]]
     [mcast_starts p (Some ''224.0.0.1'') 5000 None False]"

definition UdpSocket_unicast_sockopt_fail1 :: "platform \<Rightarrow> bool" where
  "UdpSocket_unicast_sockopt_fail1 p = udp_test_case None
     [Expect_Socket [4], Expect_SetSockOpt [-1], Expect_Close [0]]
     [unicast_starts p 5000 False]"

definition UdpSocket_mcast_sockopt_fail1 :: "platform \<Rightarrow> bool" where
  "UdpSocket_mcast_sockopt_fail1 p = udp_test_case None
     [Expect_Socket [4], Expect_SetSockOpt [-1], Expect_Close [0]]
     [mcast_starts p (Some ''224.0.0.1'') 5000 None False]"

definition UdpSocket_unicast_sockopt_fail2 :: "platform \<Rightarrow> bool" where
  "UdpSocket_unicast_sockopt_fail2 p = udp_test_case None
     [Expect_Socket [4], Expect_SetSockOpt [0, -1], Expect_Close [0]]
     [unicast_starts p 5000 False]"

definition UdpSocket_mcast_sockopt_fail2 :: "platform \<Rightarrow> bool" where
  "UdpSocket_mcast_sockopt_fail2 p = udp_test_case None
     [Expect_Socket [4], Expect_SetSockOpt [0, -1], Expect_Close [0]]
     [mcast_starts p (Some ''224.0.0.1'') 5000 None False]"

definition UdpSocket_unicast_sockopt_fail3 :: "platform \<Rightarrow> bool" where
  "UdpSocket_unicast_sockopt_fail3 p = udp_test_case None
     [Expect_Socket [4], Expect_SetSockOpt [0, 0, -1], Expect_Close [0]]
     [unicast_starts p 5000 False]"

definition UdpSocket_mcastsockopt_fail3 :: "platform \<Rightarrow> bool" where
  "UdpSocket_mcastsockopt_fail3 p = udp_test_case None
     [Expect_Socket [4], Expect_SetSockOpt [0, 0, -1], Expect_Close [0]]
     [mcast_starts p (Some ''224.0.0.1'') 5000 None False]"

definition UdpSocket_unicast_bind_fail3 :: "platform \<Rightarrow> bool" where
  "UdpSocket_unicast_bind_fail3 p = udp_test_case None
     [Expect_Socket [4], Expect_SetSockOpt [0, 0, 0], Expect_Bind [-1], Expect_Close [0]]
     [unicast_starts p 5000 False]"

definition UdpSocket_mcast_bind_fail3 :: "platform \<Rightarrow> bool" where
  "UdpSocket_mcast_bind_fail3 p = udp_test_case None
     [Expect_Socket [4], Expect_SetSockOpt [0, 0, 0], Expect_Bind [-1], Expect_Close [0]]
     [mcast_starts p (Some ''224.0.0.1'') 5000 None False]"

definition UdpSocket_mcast_join_fail :: "platform \<Rightarrow> bool" where
  "UdpSocket_mcast_join_fail p = udp_test_case (Some small_buffers)
     [Expect_Socket [4], Expect_SetSockOpt [0, 0, 0, -1], Expect_Bind [0], Expect_Close [0], Expect_Select []]
     [mcast_starts p (Some ''224.0.0.1'') 5000 None False]"

definition UdpSocket_unicast_start_stop :: "platform \<Rightarrow> bool" where
  "UdpSocket_unicast_start_stop p = udp_test_case None
     [Expect_Socket [4], Expect_SetSockOpt [0, 0, 0], Expect_Bind [0], Expect_Close [0], Expect_Select []]
     [unicast_starts p 5000 True, udp_thread, udp_finishes]"

definition UdpSocket_mcast_start_stop :: "platform \<Rightarrow> bool" where
  "UdpSocket_mcast_start_stop p = udp_test_case None
     [Expect_Socket [4], Expect_SetSockOpt [0, 0, 0, 0, 0], Expect_Bind [0], Expect_Close [0], Expect_Select []]
     [mcast_starts p (Some ''224.0.0.1'') 5000 None True, udp_thread, udp_finishes]"

definition UdpSocket_mcast_start_stop_local :: "platform \<Rightarrow> bool" where
  "UdpSocket_mcast_start_stop_local p = udp_test_case None
     [Expect_Socket [4], Expect_SetSockOpt [0, 0, 0, 0, 0], Expect_Bind [0], Expect_Close [0], Expect_Select []]
     [mcast_starts p (Some ''224.0.0.1'') 5000 (Some ''127.0.0.1'') True, udp_thread, udp_finishes]"

definition UdpSocket_finish_close_failure :: "platform \<Rightarrow> bool" where
  "UdpSocket_finish_close_failure p = udp_test_case None
     [Expect_Socket [4], Expect_SetSockOpt [0, 0, 0], Expect_Bind [0], Expect_Close [-1], Expect_Select []]
     [unicast_starts p 5000 True, udp_thread, udp_finishes]"

definition UdpSocket_unicast_lookup_fail :: "platform \<Rightarrow> bool" where
  "UdpSocket_unicast_lookup_fail p = udp_test_case None
     [Expect_GetAddrInfo None [(-1, [])]]
     [remote_starts p (Some ''badhost'') 5000 5001 False]"

definition UdpSocket_unicast_lookup_success :: "platform \<Rightarrow> bool" where
  "UdpSocket_unicast_lookup_success p = udp_test_case None
     [Expect_GetAddrInfo None [(0, [0x0100007F])], Expect_FreeAddrInfo, Expect_Socket [4],
      Expect_SetSockOpt [0, 0, 0], Expect_Bind [0], Expect_Close [0], Expect_Select []]
     [remote_starts p (Some ''localhost'') 5000 5001 True, udp_thread, udp_finishes]"

definition UdpSocket_unicast_receive_data :: "platform \<Rightarrow> bool" where
  "UdpSocket_unicast_receive_data p = udp_test_case None
     [Expect_Socket [4], Expect_SetSockOpt [0, 0, 0], Expect_Bind [0], Expect_Close [0],
      Expect_Select [(1, 16)], Expect_Recv [(13, ''Received Data'')]]
     [unicast_starts p 5000 True, udp_thread, udp_finishes, app_has (\<lambda>a. a = ''Received Data'')]"

definition UdpSocket_send_msg_fail :: "platform \<Rightarrow> bool" where
  "UdpSocket_send_msg_fail p = udp_test_case None
     [Expect_GetAddrInfo None [(0, [0x0100007F])], Expect_FreeAddrInfo, Expect_Socket [4],
      Expect_SetSockOpt [0, 0, 0], Expect_Bind [0], Expect_Close [0], Expect_SendTo [-1], Expect_Select []]
     [remote_starts p (Some ''localhost'') 5000 5001 True, udp_sends_msg p ''test message'' 11 False,
      udp_thread, udp_finishes]"

definition UdpSocket_send_msg_partial :: "platform \<Rightarrow> bool" where
  "UdpSocket_send_msg_partial p = udp_test_case None
     [Expect_GetAddrInfo None [(0, [0x0100007F])], Expect_FreeAddrInfo, Expect_Socket [4],
      Expect_SetSockOpt [0, 0, 0], Expect_Bind [0], Expect_Close [0], Expect_SendTo [5], Expect_Select []]
     [remote_starts p (Some ''localhost'') 5000 5001 True, udp_sends_msg p ''test message'' 11 False,
      udp_thread, udp_finishes]"

definition UdpSocket_send_msg :: "platform \<Rightarrow> bool" where
  "UdpSocket_send_msg p = udp_test_case None
     [Expect_GetAddrInfo None [(0, [0x0100007F])], Expect_FreeAddrInfo, Expect_Socket [4],
      Expect_SetSockOpt [0, 0, 0], Expect_Bind [0], Expect_Close [0], Expect_SendTo [11], Expect_Select []]
     [remote_starts p (Some ''localhost'') 5000 5001 True, udp_sends_msg p ''test message'' 11 True,
      udp_thread, udp_finishes]"

section \<open>test\_TcpServer.cpp\<close>

type_synonym test_tcp_server = "(mock, TcpServerTestApp) TcpServer"

definition starts :: "platform \<Rightarrow> uint16_t \<Rightarrow> bool \<Rightarrow> (test_tcp_server, bool) state" where
  "starts p port b = checked (expect_success b) (TcpServer_start p MockSocketCore port)"

definition sends_client :: "platform \<Rightarrow> int \<Rightarrow> bytes \<Rightarrow> size_t \<Rightarrow> bool \<Rightarrow> (test_tcp_server, bool) state" where
  "sends_client p handle msg sz b = checked (expect_success b) (sendClientMessage p MockSocketCore handle msg sz)"

definition server_thread :: "platform \<Rightarrow> (test_tcp_server, bool) state" where
  "server_thread p = checked (\<lambda>r. r = Some (Inr ())) (serverTask 4 p MockSocketCore TcpServerTestApp_callback)"

definition server_pass :: "platform \<Rightarrow> (test_tcp_server, bool) state" where
  "server_pass p = checked (\<lambda>r. r = Inr True) (serverTask_pass p MockSocketCore TcpServerTestApp_callback)"

definition server_finishes :: "platform \<Rightarrow> (test_tcp_server, bool) state" where
  "server_finishes p = checked (\<lambda>_. True) (TcpServer_finish p MockSocketCore False)"

definition server_test :: "platform \<Rightarrow> expect_call list \<Rightarrow> (test_tcp_server, bool) state list \<Rightarrow> bool" where
  "server_test p expectations body =
     run_test (\<lambda>m. test_server_state m [])
       expectations (body @ [checked (\<lambda>r. r = Inr ()) (TcpServer_destroy p MockSocketCore False)])"

definition client_addr :: sockaddr_in where
  "client_addr = \<lparr>sin_family = AF_UNSPEC, sin_port = 0, sin_addr = 0x0100007F\<rparr>"

definition TcpServerSocket_start_socket_fail :: "platform \<Rightarrow> bool" where
  "TcpServerSocket_start_socket_fail p = server_test p
     [Expect_Socket [-1]]
     [starts p 5000 False]"

definition TcpServerSocket_start_setsockopt_fail1 :: "platform \<Rightarrow> bool" where
  "TcpServerSocket_start_setsockopt_fail1 p = server_test p
     [Expect_Socket [4], Expect_SetSockOpt [-1], Expect_Close [0]]
     [starts p 5000 False]"

definition TcpServerSocket_start_setsockopt_fail2 :: "platform \<Rightarrow> bool" where
  "TcpServerSocket_start_setsockopt_fail2 p = server_test p
     [Expect_Socket [4], Expect_SetSockOpt [0, -1], Expect_Close [0]]
     [starts p 5000 False]"

definition TcpServerSocket_start_setsockopt_fail3 :: "platform \<Rightarrow> bool" where
  "TcpServerSocket_start_setsockopt_fail3 p = server_test p
     [Expect_Socket [4], Expect_SetSockOpt [0, 0, -1], Expect_Close [0]]
     [starts p 5000 False]"

definition TcpServerSocket_start_bind_fail :: "platform \<Rightarrow> bool" where
  "TcpServerSocket_start_bind_fail p = server_test p
     [Expect_Socket [4], Expect_SetSockOpt [0, 0, 0], Expect_Bind [-1], Expect_Close [0]]
     [starts p 5000 False]"

definition TcpServerSocket_start_listen_fail :: "platform \<Rightarrow> bool" where
  "TcpServerSocket_start_listen_fail p = server_test p
     [Expect_Socket [4], Expect_SetSockOpt [0, 0, 0], Expect_Bind [0], Expect_Listen [-1], Expect_Close [0]]
     [starts p 5000 False]"

definition TcpServerSocket_start_success :: "platform \<Rightarrow> bool" where
  "TcpServerSocket_start_success p = server_test p
     [Expect_Socket [4], Expect_SetSockOpt [0, 0, 0], Expect_Bind [0], Expect_Listen [0], Expect_Select [],
      Expect_Close [0]]
     [starts p 5000 True, server_thread p, server_finishes p]"

definition TcpServerSocket_client_connect_send :: "platform \<Rightarrow> bool" where
  "TcpServerSocket_client_connect_send p = server_test p
     [Expect_Socket [4], Expect_SetSockOpt [0, 0, 0], Expect_Bind [0], Expect_Listen [0],
      Expect_Select [(1, 16)], Expect_Accept [(5, client_addr)], Expect_Send [-1, 5, 12], Expect_Closes]
     [starts p 5000 True, server_pass p, sends_client p 3 ''Message Data'' 12 False,
      sends_client p 5 ''Message Data'' 12 False, sends_client p 5 ''Message Data'' 12 False,
      sends_client p 5 ''Message Data'' 12 True, server_thread p, server_finishes p,
      app_has (\<lambda>a. 5 \<in> app_clients a)]"

definition TcpServerSocket_client_connect_receive_disconnect :: "platform \<Rightarrow> bool" where
  "TcpServerSocket_client_connect_receive_disconnect p = server_test p
     [Expect_Socket [4], Expect_SetSockOpt [0, 0, 0], Expect_Bind [0], Expect_Listen [0],
      Expect_Select [(1, 16), (1, 32), (1, 32)], Expect_Accept [(5, client_addr)],
      Expect_Recv [(13, ''Received Data''), (0, ''Received Data'')], Expect_Closes]
     [starts p 5000 True, server_thread p, server_finishes p,
      app_has (\<lambda>a. app_receiveData a 5 = Some ''Received Data''),
      app_has (\<lambda>a. 5 \<notin> app_clients a)]"

section \<open>The suites\<close>

definition AddrLookup_suite :: "bool list" where
  "AddrLookup_suite =
     [AddrLookup_badhost, AddrLookup_localhost, AddrLookup_ipv4addr, AddrLookup_badresult]"

definition TcpClientSocket_setups :: "platform \<Rightarrow> bool list" where
  "TcpClientSocket_setups p =
     [TcpClientSocket_tcp_socket_fail p, TcpClientSocket_tcp_sockopt_fail1 p,
      TcpClientSocket_tcp_sockopt_fail2 p, TcpClientSocket_unicast_lookup_fail p,
      TcpClientSocket_tcp_connect_fail p, TcpClientSocket_tcp_connect p, TcpClientSocket_tcp_finish_fail p]"

definition TcpClientSocket_sessions :: "platform \<Rightarrow> bool list" where
  "TcpClientSocket_sessions p =
     [TcpClientSocket_tcp_send_fail p, TcpClientSocket_tcp_send_partial p, TcpClientSocket_tcp_send_success p,
      TcpClientSocket_tcp_receive p, TcpClientSocket_tcp_server_disconnect p]"

definition UdpSocket_setups :: "platform \<Rightarrow> bool list" where
  "UdpSocket_setups p =
     [UdpSocket_unicast_socket_fail p, UdpSocket_mcast_socket_fail p, UdpSocket_unicast_sockopt_fail1 p,
      UdpSocket_mcast_sockopt_fail1 p, UdpSocket_unicast_sockopt_fail2 p, UdpSocket_mcast_sockopt_fail2 p,
      UdpSocket_unicast_sockopt_fail3 p, UdpSocket_mcastsockopt_fail3 p, UdpSocket_unicast_bind_fail3 p,
      UdpSocket_mcast_bind_fail3 p, UdpSocket_mcast_join_fail p]"

definition UdpSocket_sessions :: "platform \<Rightarrow> bool list" where
  "UdpSocket_sessions p =
     [UdpSocket_unicast_start_stop p, UdpSocket_mcast_start_stop p, UdpSocket_mcast_start_stop_local p,
      UdpSocket_finish_close_failure p, UdpSocket_unicast_lookup_fail p, UdpSocket_unicast_lookup_success p,
      UdpSocket_unicast_receive_data p, UdpSocket_send_msg_fail p, UdpSocket_send_msg_partial p,
      UdpSocket_send_msg p]"

definition TcpServerSocket_setups :: "platform \<Rightarrow> bool list" where
  "TcpServerSocket_setups p =
     [TcpServerSocket_start_socket_fail p, TcpServerSocket_start_setsockopt_fail1 p,
      TcpServerSocket_start_setsockopt_fail2 p, TcpServerSocket_start_setsockopt_fail3 p,
      TcpServerSocket_start_bind_fail p, TcpServerSocket_start_listen_fail p, TcpServerSocket_start_success p]"

definition TcpServerSocket_sessions :: "platform \<Rightarrow> bool list" where
  "TcpServerSocket_sessions p =
     [TcpServerSocket_client_connect_send p, TcpServerSocket_client_connect_receive_disconnect p]"

lemma AddrLookup_suite_passes: "list_all id AddrLookup_suite"
  by code_simp

text \<open>Each suite in its two parts, in each of the two builds.\<close>

lemma TcpClientSocket_setups_fmt: "list_all id (TcpClientSocket_setups (build True))"
  by code_simp

lemma TcpClientSocket_setups_printf: "list_all id (TcpClientSocket_setups (build False))"
  by code_simp

lemma TcpClientSocket_sessions_fmt: "list_all id (TcpClientSocket_sessions (build True))"
  by code_simp

lemma TcpClientSocket_sessions_printf: "list_all id (TcpClientSocket_sessions (build False))"
  by code_simp

lemma UdpSocket_setups_fmt: "list_all id (UdpSocket_setups (build True))"
  by code_simp

lemma UdpSocket_setups_printf: "list_all id (UdpSocket_setups (build False))"
  by code_simp

lemma UdpSocket_sessions_fmt: "list_all id (UdpSocket_sessions (build True))"
  by code_simp

lemma UdpSocket_sessions_printf: "list_all id (UdpSocket_sessions (build False))"
  by code_simp

lemma TcpServerSocket_setups_fmt: "list_all id (TcpServerSocket_setups (build True))"
  by code_simp

lemma TcpServerSocket_setups_printf: "list_all id (TcpServerSocket_setups (build False))"
  by code_simp

lemma TcpServerSocket_sessions_fmt: "list_all id (TcpServerSocket_sessions (build True))"
  by code_simp

lemma TcpServerSocket_sessions_printf: "list_all id (TcpServerSocket_sessions (build False))"
  by code_simp

lemmas suites_pass = AddrLookup_suite_passes
  TcpClientSocket_setups_fmt TcpClientSocket_setups_printf
  TcpClientSocket_sessions_fmt TcpClientSocket_sessions_printf
  UdpSocket_setups_fmt UdpSocket_setups_printf
  UdpSocket_sessions_fmt UdpSocket_sessions_printf
  TcpServerSocket_setups_fmt TcpServerSocket_setups_printf
  TcpServerSocket_sessions_fmt TcpServerSocket_sessions_printf

section \<open>Properties\<close>


end
