(* ===== verification/Connections.thy ===== *)
theory Connections
  imports Server_Task TcpClient UdpSocket
begin

text \<open>
  Two programs of the library joined by a network: what one application passes to \<open>sendMsg\<close> or
  \<open>sendClientMessage\<close> against what the other one is given by its callbacks. Each side has a world
  and a trace of its own; the network appears only as a hypothesis on the two traces, the one TCP
  or UDP documents, so that the theorems speak about the code of this library at both ends. The
  sending side makes its calls one after another; the receiving side is a run of its thread.
\<close>

section \<open>What a trace carries\<close>

definition since :: "('w, 'z) env_scheme \<Rightarrow> ('w, 'z) env_scheme \<Rightarrow> event list" where
  "since s t = drop (length (trace s)) (trace t)"

lemma since_extends [simp]: "trace t = trace s @ es \<Longrightarrow> since s t = es"
  by (simp add: since_def)

text \<open>
  The bytes that \<open>send\<close> took from the program on one descriptor, the bytes that \<open>recv\<close> gave it
  there, and the bytes that the callbacks of a server and of a client were given.
\<close>

fun bytes_sent :: "SOCKET \<Rightarrow> event list \<Rightarrow> bytes" where
  "bytes_sent fd [] = []"
| "bytes_sent fd (EvSend k msg sz n # es) =
     (if k = fd \<and> 0 \<le> sint n then take (unat n) msg @ bytes_sent fd es else bytes_sent fd es)"
| "bytes_sent fd (e # es) = bytes_sent fd es"

fun bytes_received :: "SOCKET \<Rightarrow> event list \<Rightarrow> bytes" where
  "bytes_received fd [] = []"
| "bytes_received fd (EvRecv k len n data # es) =
     (if k = fd \<and> 1 \<le> sint n then data @ bytes_received fd es else bytes_received fd es)"
| "bytes_received fd (e # es) = bytes_received fd es"

fun bytes_handed :: "int \<Rightarrow> event list \<Rightarrow> bytes" where
  "bytes_handed k [] = []"
| "bytes_handed k (EvClientData h data # es) = (if h = k then data @ bytes_handed k es else bytes_handed k es)"
| "bytes_handed k (e # es) = bytes_handed k es"

fun data_handed :: "event list \<Rightarrow> bytes list" where
  "data_handed [] = []"
| "data_handed (EvReceiveData data # es) = data # data_handed es"
| "data_handed (e # es) = data_handed es"

fun datagrams_sent :: "event list \<Rightarrow> bytes list" where
  "datagrams_sent [] = []"
| "datagrams_sent (EvSendTo fd msg sz dest n # es) =
     (if 0 \<le> sint n then take (unat n) msg # datagrams_sent es else datagrams_sent es)"
| "datagrams_sent (e # es) = datagrams_sent es"

lemma sent_append [simp]: "bytes_sent fd (es @ fs) = bytes_sent fd es @ bytes_sent fd fs"
  by (induction fd es rule: bytes_sent.induct) simp_all

lemma received_loud:
  "bytes_received fd (filter loud es) = bytes_received fd es" "bytes_received fd (filter server_loud es) = bytes_received fd es"
  by (induction fd es rule: bytes_received.induct) simp_all

lemma handed_loud: "bytes_handed k (filter server_loud es) = bytes_handed k es"
  by (induction k es rule: bytes_handed.induct) simp_all

lemma client_handed_loud: "data_handed (filter loud es) = data_handed es"
  by (induction es rule: data_handed.induct) simp_all

section \<open>The receiving side\<close>

text \<open>A server whose events follow the protocol hands on exactly the bytes it received.\<close>

lemma session_handed: "session L es M \<Longrightarrow> bytes_handed k es = bytes_received k es"
  by (induction rule: session.induct) auto

text \<open>Every \<open>recv\<close> of a receive loop is on its own socket, with its own buffer size.\<close>

definition recvs_from :: "SOCKET \<Rightarrow> size_t \<Rightarrow> event \<Rightarrow> bool" where
  "recvs_from fd len e \<longleftrightarrow> (\<forall>k l n data. e = EvRecv k l n data \<longrightarrow> k = fd \<and> l = len)"

definition receives_from :: "size_t \<Rightarrow> ('w, 'a, 'z) sock_scheme \<Rightarrow> ('w, 'a, 'z) sock_scheme \<Rightarrow> bool" where
  "receives_from len s t \<longleftrightarrow> m_sockfd t = m_sockfd s \<and>
     (\<exists>es. trace t = trace s @ es \<and> list_all (recvs_from (m_sockfd s) len) es)"

lemma receives_from_refl: "receives_from len s s"
  by (simp add: receives_from_def)

lemma receives_from_trans: "receives_from len s t \<Longrightarrow> receives_from len t u \<Longrightarrow> receives_from len s u"
  by (auto simp: receives_from_def)

lemma quiet_recvs_from: "list_all quiet es \<Longrightarrow> list_all (recvs_from fd len) es"
  by (auto simp: list_all_iff recvs_from_def)

lemma polite_receives_from:
  assumes "polite t u" and "receives_from len s t"
  shows "receives_from len s u"
  using assms by (auto simp: polite_def receives_from_def dest: quiet_recvs_from)


text \<open>A relation that every pass keeps, whatever its outcome, holds across a receive loop.\<close>

context receive_loop
begin

lemma task_keeps:
  assumes refl: "\<And>s. R s s" and trans: "\<And>s t u. R s t \<Longrightarrow> R t u \<Longrightarrow> R s u"
    and loads: "\<And>s b bs. R s (s\<lparr>m_stop := b, stop_stores := bs\<rparr>)" and pass: "\<And>s. wp pass (\<lambda>_ t. R s t) s"
  shows "wp (task fuel) (\<lambda>_ t. R s t) s"
proof (rule task_result [where R = R])
  show "wp pass (\<lambda>r t. case r of Inl a \<Rightarrow> R s t | Inr goes_on \<Rightarrow> if goes_on then R s t else R s t) s" for s
    by (rule wp_mono [OF pass]) (simp split: sum.split)
qed (auto intro: refl loads trans)

end

context polite_callback
begin

lemma receive_pass_from:
  "wp (TcpClient_receive_pass p core cb junk) (\<lambda>_ t. receives_from TCP_MAX_PACKET_SIZE s t) s"
  unfolding TcpClient_receive_pass_def publishServerMsg_def TcpClient_publishDisconnected_def
  by (auto simp: wp_simps call_defs split: option.splits list.splits sum.splits intro!: wp_on_data wp_onDisconnect)
    ((erule polite_receives_from)?; simp add: receives_from_def recvs_from_def)+

lemma ReceiveTask_from:
  "wp (TcpClient_ReceiveTask fuel p core cb junk) (\<lambda>_ t. receives_from TCP_MAX_PACKET_SIZE s t) s"
  by (rule client_loop.task_keeps [OF receives_from_refl receives_from_trans _ receive_pass_from])
    (auto simp: receives_from_def)

end

context udp_callback
begin

lemma receive_pass_from:
  "wp (UdpSocket_receive_pass core on_data junk) (\<lambda>_ t. receives_from UDP_MAX_PACKET_SIZE s t) s"
  unfolding UdpSocket_receive_pass_def publishUdpMsg_def
  by (auto simp: wp_simps call_defs split: option.splits list.splits sum.splits intro!: wp_on_data)
    ((erule polite_receives_from)?; simp add: receives_from_def recvs_from_def)+

lemma ReceiveTask_from:
  "wp (UdpSocket_ReceiveTask fuel core on_data junk) (\<lambda>_ t. receives_from UDP_MAX_PACKET_SIZE s t) s"
  by (rule udp_loop.task_keeps [OF receives_from_refl receives_from_trans _ receive_pass_from])
    (auto simp: receives_from_def)

end

lemma deliver_handed:
  "deliver_spec es \<Longrightarrow> list_all (recvs_from fd len) es \<Longrightarrow> concat (data_handed es) = bytes_received fd es"
  by (induction es rule: deliver_spec.induct) (auto simp: recvs_from_def)

lemma datagram_handed:
  assumes "datagram_spec es" and "list_all (recvs_from fd len) es" and "data \<in> set (data_handed es)"
  shows "\<exists>n. EvRecv fd len n data \<in> set es \<and> 0 \<le> sint n"
  using assms
proof (induction es rule: datagram_spec.induct)
  case (2 k l n d es)
  show ?case
  proof (cases "0 \<le> sint n")
    case True
    then obtain d' es' where "es = EvReceiveData d' # es'"
      using 2(3) by (cases es rule: datagram_spec.cases) (auto split: list.splits event.splits)
    with 2 True show ?thesis by (auto simp: recvs_from_def)
  next
    case False
    with 2 show ?thesis by (auto simp: recvs_from_def)
  qed
qed simp_all

text \<open>The three receiving threads, with their events since they were entered.\<close>

lemma server_run_handed:
  assumes "server_app p core cb" and "run_state (serverTask fuel p core cb) s = (r, s')"
    and "\<forall>a. r \<noteq> Some (Inl a)" and "posix_trace (trace s')"
    and "server_inv s" and "server_holds s \<subseteq> owned (trace s)" and "harmless s"
  shows "bytes_handed k (since s s') = bytes_received k (since s s')"
proof -
  let ?B = "owned (trace s) - server_holds s"
  have "serves ?B s s'"
    using wpD [OF server_app.serverTask_serves [OF assms(1)] assms(2)] assms(3) by blast
  moreover have "balanced ?B s"
    using assms(5,6) by (auto simp: balanced_def)
  ultimately obtain es where "trace s' = trace s @ es" "session (client_keys s) (filter server_loud es) (client_keys s')"
    using assms(4,7) by (auto simp: serves_def)
  with session_handed [of _ "filter server_loud es" _ k] show ?thesis
    by (simp add: handed_loud received_loud)
qed

lemma client_run_handed:
  assumes "polite_callback cb" and "run_state (TcpClient_ReceiveTask fuel p core cb junk) s = (r, s')"
    and "posix_trace (trace s')"
  shows "concat (data_handed (since s s')) = bytes_received (m_sockfd s) (since s s')"
proof -
  obtain es where "trace s' = trace s @ es" "deliver_spec (filter loud es)"
    using wpD [OF polite_callback.ReceiveTask_promise [OF assms(1)] assms(2)] assms(3) by blast
  moreover from wpD [OF polite_callback.ReceiveTask_from [OF assms(1)] assms(2)] this(1)
  have "list_all (recvs_from (m_sockfd s) TCP_MAX_PACKET_SIZE) (filter loud es)"
    by (auto simp: receives_from_def list_all_iff)
  ultimately show ?thesis
    using deliver_handed by (fastforce simp: client_handed_loud received_loud)
qed

lemma udp_run_handed:
  assumes "udp_callback on_data" and "run_state (UdpSocket_ReceiveTask fuel core on_data junk) s = (r, s')"
    and "posix_trace (trace s')" and "data \<in> set (data_handed (since s s'))"
  shows "\<exists>n. EvRecv (m_sockfd s) UDP_MAX_PACKET_SIZE n data \<in> set (since s s') \<and> 0 \<le> sint n"
proof -
  obtain es where es: "trace s' = trace s @ es" "datagram_spec (filter loud es)"
    using wpD [OF udp_callback.ReceiveTask_promise [OF assms(1)] assms(2)] assms(3) by blast
  with wpD [OF udp_callback.ReceiveTask_from [OF assms(1)] assms(2)]
  have "list_all (recvs_from (m_sockfd s) UDP_MAX_PACKET_SIZE) (filter loud es)"
    by (auto simp: receives_from_def list_all_iff)
  from datagram_handed [OF es(2) this] assms(4) es(1) show ?thesis
    by (auto simp: client_handed_loud)
qed

section \<open>The sending side\<close>

text \<open>
  A caller that sends its messages one by one and stops at the first that was not sent completely,
  which it has to, since \<open>sendMsg\<close> does not say how much went out and what follows would leave a gap
  in the stream. The result says whether all were sent.
\<close>

primrec send_all :: "(bytes \<Rightarrow> (('w, 'z) env_scheme, bool) state) \<Rightarrow> bytes list \<Rightarrow> (('w, 'z) env_scheme, bool) state" where
  "send_all send [] = State_Monad.return True"
| "send_all send (msg # msgs) = do {
     ok \<leftarrow> send msg;
     if ok then send_all send msgs else State_Monad.return False
   }"

text \<open>
  A stream sender makes one \<open>send\<close> for a message and reports whether the kernel took all of it.
\<close>

locale stream_sender =
  fixes send :: "bytes \<Rightarrow> (('w, 'z) env_scheme, bool) state" and fd :: SOCKET and ready :: "('w, 'z) env_scheme \<Rightarrow> bool"
  assumes send_event: "ready s \<Longrightarrow> wp (send msg) (\<lambda>ok t. ready t \<and>
      (\<exists>n. trace t = trace s @ [EvSend fd msg (of_nat (length msg)) n] \<and>
         (ok \<longleftrightarrow> \<not> sint n < 0 \<and> \<not> n < of_nat (length msg)))) s"
begin

lemma send_bytes:
  assumes "length msg < 2 ^ 63" and "n = -1 \<or> n \<le> of_nat (length msg)"
  shows "prefix (bytes_sent fd [EvSend fd msg sz n]) msg"
    and "\<not> sint n < 0 \<and> \<not> n < of_nat (length msg) \<Longrightarrow> bytes_sent fd [EvSend fd msg sz n] = msg"
proof -
  show "prefix (bytes_sent fd [EvSend fd msg sz n]) msg"
    by (simp add: take_is_prefix)
  assume ok: "\<not> sint n < 0 \<and> \<not> n < of_nat (length msg)"
  moreover have "0 \<le> sint (of_nat (length msg) :: 64 word)"
    using assms(1) by (simp add: signed_of_nat signed_take_bit_int_eq_self)
  ultimately have "n = of_nat (length msg)"
    using complete_send_iff [OF _ assms(2)] by blast
  with ok assms(1) show "bytes_sent fd [EvSend fd msg sz n] = msg"
    by (simp add: unat_of_nat take_bit_nat_eq_self)
qed

lemma send_all_sends:
  assumes "ready s" and "\<forall>msg \<in> set msgs. length msg < 2 ^ 63"
  shows "wp (send_all send msgs) (\<lambda>ok t. posix_trace (trace t) \<longrightarrow> (\<exists>es. trace t = trace s @ es \<and>
      prefix (bytes_sent fd es) (concat msgs) \<and> (ok \<longrightarrow> bytes_sent fd es = concat msgs))) s"
  using assms
proof (induction msgs arbitrary: s)
  case (Cons msg msgs)
  let ?Q = "\<lambda>ok t. posix_trace (trace t) \<longrightarrow> (\<exists>es. trace t = trace s @ es \<and>
      prefix (bytes_sent fd es) (concat (msg # msgs)) \<and> (ok \<longrightarrow> bytes_sent fd es = concat (msg # msgs)))"
  have step: "wp (if ok then send_all send msgs else State_Monad.return False) ?Q t"
    if t: "ready t" "trace t = trace s @ [EvSend fd msg (of_nat (length msg)) n]"
      and ok: "ok \<longleftrightarrow> \<not> sint n < 0 \<and> \<not> n < of_nat (length msg)" for ok t n
  proof -
    have len: "length msg < 2 ^ 63" "\<forall>msg \<in> set msgs. length msg < 2 ^ 63" using Cons.prems(2) by simp_all
    have take: "n = -1 \<or> n \<le> of_nat (length msg)" if "posix_trace (trace u)" "trace u = trace t @ fs" for u fs
      using that t(2) posix_trace_mem by fastforce
    have "?Q ok' u" if "ok" "posix_trace (trace u) \<longrightarrow> (\<exists>es. trace u = trace t @ es \<and>
        prefix (bytes_sent fd es) (concat msgs) \<and> (ok' \<longrightarrow> bytes_sent fd es = concat msgs))" for ok' u
      using that t(2) ok send_bytes(2) [OF len(1) take] by fastforce
    then have "ok \<Longrightarrow> wp (send_all send msgs) ?Q t"
      by (intro wp_mono [OF Cons.IH [OF t(1) len(2)]]) blast
    moreover have "?Q False t"
      using t(2) send_bytes(1) [OF len(1) take [of t "[]"]] by (auto intro: prefix_prefix)
    ultimately show ?thesis by simp
  qed
  show ?case
    unfolding send_all.simps wp_bind by (rule wp_mono [OF send_event [OF Cons.prems(1)]]) (blast intro: step)
qed simp

end

text \<open>The two stream senders of the library: a client's \<open>sendMsg\<close> and a server's \<open>sendClientMessage\<close>.\<close>

definition client_send :: "platform \<Rightarrow> 'w SocketImpl \<Rightarrow> bytes \<Rightarrow> (('w, 'a) TcpClient, bool) state" where
  "client_send p core msg = do {
     ret \<leftarrow> TcpClient_sendMsg p core msg (of_nat (length msg));
     State_Monad.return (m_success ret)
   }"

definition server_send :: "platform \<Rightarrow> 'w SocketImpl \<Rightarrow> int \<Rightarrow> bytes \<Rightarrow> (('w, 'a) TcpServer, bool) state" where
  "server_send p core k msg = do {
     r \<leftarrow> sendClientMessage p core k msg (of_nat (length msg));
     State_Monad.return (succeeded r)
   }"

interpretation client_stream: stream_sender "client_send p core" fd "\<lambda>s. m_sockfd s = fd"
  for p and core :: "'w SocketImpl" and fd
  by unfold_locales (auto simp: client_send_def intro!: wp_mono [OF sendMsg_event])

interpretation server_stream: stream_sender "server_send p core k" k "\<lambda>s. table_ok s \<and> k \<in> client_keys s"
  for p and core :: "'w SocketImpl" and k
  by unfold_locales (auto simp: server_send_def table_ok_def intro!: wp_mono [OF sendClientMessage_event])

definition datagram_send :: "platform \<Rightarrow> 'w SocketImpl \<Rightarrow> bytes \<Rightarrow> (('w, 'a) UdpSocket, bool) state" where
  "datagram_send p core msg = do {
     ret \<leftarrow> UdpSocket_sendMsg p core msg (of_nat (length msg));
     State_Monad.return (m_success ret)
   }"

text \<open>\<open>sendto\<close> on a datagram socket takes the whole message or nothing.\<close>

fun whole_datagram :: "event \<Rightarrow> bool" where
  "whole_datagram (EvSendTo fd msg sz dest n) = (n = -1 \<or> n = sz)"
| "whole_datagram e = True"

definition carries :: "bytes list \<Rightarrow> ('w, 'z) env_scheme \<Rightarrow> ('w, 'z) env_scheme \<Rightarrow> bool" where
  "carries msgs s t \<longleftrightarrow> (\<exists>es. trace t = trace s @ es \<and>
     (list_all whole_datagram es \<longrightarrow> set (datagrams_sent es) \<subseteq> set msgs))"

lemma datagrams_sent_append [simp]: "datagrams_sent (es @ fs) = datagrams_sent es @ datagrams_sent fs"
  by (induction es rule: datagrams_sent.induct) simp_all

lemma carries_refl: "carries msgs s s"
  by (simp add: carries_def)

lemma carries_Cons: "carries [msg] s t \<Longrightarrow> carries msgs t u \<Longrightarrow> carries (msg # msgs) s u"
  by (fastforce simp: carries_def)

lemma datagram_send_carries:
  assumes "length msg < 2 ^ 63"
  shows "wp (datagram_send p core msg) (\<lambda>_ t. carries [msg] s t) s"
proof -
  have "carries [msg] s t" if "trace t = trace s \<or>
      (\<exists>n. trace t = trace s @ [EvSendTo fd msg (of_nat (length msg)) dest n])" for t fd dest
    using that assms by (auto simp: carries_def unat_of_nat take_bit_nat_eq_self)
  then show ?thesis
    unfolding datagram_send_def wp_bind
    by (intro wp_mono [OF UdpSocket_sendMsg_event]) (fastforce split: if_splits)
qed

lemma send_all_carries:
  assumes "\<forall>msg \<in> set msgs. length msg < 2 ^ 63"
  shows "wp (send_all (datagram_send p core) msgs) (\<lambda>_ t. carries msgs s t) s"
  using assms
proof (induction msgs arbitrary: s)
  case (Cons msg msgs)
  have step: "wp (if ok then send_all (datagram_send p core) msgs else State_Monad.return False)
      (\<lambda>_ u. carries (msg # msgs) s u) t" if "carries [msg] s t" for ok t
    using Cons.prems by (auto intro!: wp_mono [OF Cons.IH] carries_Cons [OF that] carries_refl)
  from Cons.prems show ?case
    unfolding send_all.simps wp_bind by (intro wp_mono [OF datagram_send_carries] step) simp_all
qed (simp add: carries_refl)

section \<open>Two programs at the ends of a connection\<close>

text \<open>
  A client and a server send \<open>hello\<close> in two messages; the server of \<open>Server_Task\<close> and the client of
  \<open>TcpClient\<close> read it in one piece. A UDP socket sends three datagrams, of which the socket of
  \<open>UdpSocket\<close> receives two, in another order.
\<close>

definition greeting :: "bytes list" where
  "greeting = [''he'', ''llo'']"

lemma greeting_short: "\<forall>msg \<in> set greeting. length msg < 2 ^ 63"
  by (simp add: greeting_def)

definition greeting_client :: "(mock, TcpClientTestApp) TcpClient" where
  "greeting_client = connected_client\<lparr>world := no_script\<lparr>q_Send := [2, 3]\<rparr>\<rparr>"

definition client_greets :: "bool \<times> (mock, TcpClientTestApp) TcpClient" where
  "client_greets = run_state (send_all (client_send example_platform MockSocketCore) greeting) greeting_client"

definition server_greets :: "bool \<times> (mock, unit) TcpServer" where
  "server_greets = run_state (send_all (server_send example_platform MockSocketCore 6) greeting)
     (two_clients (no_script\<lparr>q_Send := [2, 3]\<rparr>))"

definition socket_greets :: "bool \<times> (mock, string) UdpSocket" where
  "socket_greets = run_state (send_all (datagram_send example_platform MockSocketCore) [''hello'', [], ''lost''])
     ((snd unicast_run)\<lparr>world := no_script\<lparr>q_SendTo := [5, 0, 4]\<rparr>\<rparr>)"

section \<open>Properties\<close>

text \<open>
  C2. What a client's \<open>sendMsg\<close> calls sent is what the server's application is given, byte for byte
  and in order: over a TCP connection, on which the bytes received at one end are the first of
  those sent at the other, the data handed to \<open>onReceiveClientData\<close> for that client is a prefix of
  the messages joined together, and all of them once every message was sent and every byte received.
\<close>

theorem client_to_server_stream:
  assumes "run_state (send_all (client_send pc core_c) msgs) c = (all_sent, c')" and "posix_trace (trace c')"
    and "\<forall>msg \<in> set msgs. length msg < 2 ^ 63"
    and "server_app p core cb" and "run_state (serverTask fuel p core cb) s = (r, s')"
    and "\<forall>a. r \<noteq> Some (Inl a)" and "posix_trace (trace s')"
    and "server_inv s" and "server_holds s \<subseteq> owned (trace s)" and "harmless s"
    and tcp: "prefix (bytes_received k (since s s')) (bytes_sent (m_sockfd c) (since c c'))"
  shows "prefix (bytes_handed k (since s s')) (concat msgs) \<and>
     (all_sent \<and> bytes_received k (since s s') = bytes_sent (m_sockfd c) (since c c') \<longrightarrow> bytes_handed k (since s s') = concat msgs)"
proof -
  have "prefix (bytes_sent (m_sockfd c) (since c c')) (concat msgs) \<and>
      (all_sent \<longrightarrow> bytes_sent (m_sockfd c) (since c c') = concat msgs)"
    using wpD [OF client_stream.send_all_sends [OF refl assms(3)] assms(1)] assms(2) by auto
  moreover have "bytes_handed k (since s s') = bytes_received k (since s s')"
    using server_run_handed [OF assms(4-10)] .
  ultimately show ?thesis
    using tcp prefix_order.trans by fastforce
qed

theorem client_to_server_stream_witness:
  "bytes_handed 5 (since started_server (snd server_session)) = ''hello'' \<and>
   bytes_handed 5 (since started_server (snd server_session)) = concat greeting"
proof
  let ?start = "run_state (TcpServer_start example_platform MockSocketCore 5000) (test_server_state server_script [])"
  have "succeeded (fst ?start)" "posix_trace (trace started_server)" by code_simp+
  then have started: "server_inv started_server" "server_holds started_server \<subseteq> owned (trace started_server)"
    using started_inv [OF prod.collapse [symmetric, of ?start] _ _ test_server_good] unfolding started_server_def by blast+
  have ran: "fst server_session = Some (Inr ())" "posix_trace (trace (snd server_session))" "harmless started_server"
    and greets: "fst client_greets" "posix_trace (trace (snd client_greets))"
    and tcp: "bytes_received 5 (since started_server (snd server_session)) =
      bytes_sent (m_sockfd greeting_client) (since greeting_client (snd client_greets))"
    by code_simp+
  from client_to_server_stream [OF prod.collapse [symmetric, of client_greets, unfolded client_greets_def]
      greets(2) [unfolded client_greets_def] greeting_short test_server.server_app_axioms
      prod.collapse [symmetric, of server_session, unfolded server_session_def], folded client_greets_def server_session_def,
      of 5] ran greets(1) started tcp
  show "bytes_handed 5 (since started_server (snd server_session)) = concat greeting" by simp
qed code_simp

text \<open>
  C7. The other direction: what \<open>sendClientMessage\<close> calls for a connected client sent is what that
  client's application is given by \<open>onReceiveData\<close>, byte for byte and in order.
\<close>

theorem server_to_client_stream:
  assumes "run_state (send_all (server_send ps core_s k) msgs) s = (all_sent, s')" and "posix_trace (trace s')"
    and "\<forall>msg \<in> set msgs. length msg < 2 ^ 63" and "table_ok s" and "k \<in> client_keys s"
    and "polite_callback cb" and "run_state (TcpClient_ReceiveTask fuel p core cb junk) c = (r, c')"
    and "posix_trace (trace c')"
    and tcp: "prefix (bytes_received (m_sockfd c) (since c c')) (bytes_sent k (since s s'))"
  shows "prefix (concat (data_handed (since c c'))) (concat msgs) \<and>
     (all_sent \<and> bytes_received (m_sockfd c) (since c c') = bytes_sent k (since s s') \<longrightarrow>
        concat (data_handed (since c c')) = concat msgs)"
proof -
  have "prefix (bytes_sent k (since s s')) (concat msgs) \<and> (all_sent \<longrightarrow> bytes_sent k (since s s') = concat msgs)"
    using wpD [OF server_stream.send_all_sends [OF conjI [OF assms(4,5)] assms(3)] assms(1)] assms(2) by auto
  moreover have "concat (data_handed (since c c')) = bytes_received (m_sockfd c) (since c c')"
    using client_run_handed [OF assms(6-8)] .
  ultimately show ?thesis
    using tcp prefix_order.trans by fastforce
qed

theorem server_to_client_stream_witness:
  "data_handed (since connected_client (snd finished_session)) = [''hello''] \<and>
   concat (data_handed (since connected_client (snd finished_session))) = concat greeting"
proof
  let ?s = "two_clients (no_script\<lparr>q_Send := [2, 3]\<rparr>)"
  have greets: "fst server_greets" "posix_trace (trace (snd server_greets))"
    "6 \<in> client_keys ?s" and ran: "posix_trace (trace (snd finished_session))"
    and tcp: "bytes_received (m_sockfd connected_client) (since connected_client (snd finished_session)) =
      bytes_sent 6 (since ?s (snd server_greets))"
    by code_simp+
  from server_to_client_stream [OF prod.collapse [symmetric, of server_greets, unfolded server_greets_def]
      greets(2) [unfolded server_greets_def] greeting_short two_clients_inv(2) greets(3) test_app.polite_callback_axioms
      prod.collapse [symmetric, of finished_session, unfolded finished_session_def],
      folded server_greets_def finished_session_def] ran greets(1) tcp
  show "concat (data_handed (since connected_client (snd finished_session))) = concat greeting" by simp
qed code_simp

text \<open>
  C9. Datagrams: over UDP, which may lose, repeat and reorder datagrams and of which \<open>recv\<close> gives
  as much as fits its buffer, what \<open>onReceiveData\<close> is given are whole messages that the other
  program passed to \<open>sendMsg\<close>, because the receive buffer holds the largest UDP payload.
\<close>

theorem datagrams_arrive_whole:
  assumes "run_state (send_all (datagram_send pu core_u) msgs) u = (all_sent, u')"
    and "list_all whole_datagram (since u u')" and "\<forall>msg \<in> set msgs. length msg \<le> 65507"
    and "udp_callback on_data" and "run_state (UdpSocket_ReceiveTask fuel core on_data junk) v = (r, v')"
    and "posix_trace (trace v')"
    and udp: "\<forall>len n data. EvRecv (m_sockfd v) len n data \<in> set (since v v') \<and> 0 \<le> sint n \<longrightarrow>
       data \<in> take (unat len) ` set (datagrams_sent (since u u'))"
  shows "set (data_handed (since v v')) \<subseteq> set msgs"
proof
  fix data
  assume "data \<in> set (data_handed (since v v'))"
  with udp_run_handed [OF assms(4-6)] obtain n where
    "EvRecv (m_sockfd v) UDP_MAX_PACKET_SIZE n data \<in> set (since v v')" "0 \<le> sint n"
    by blast
  with udp obtain msg where "msg \<in> set (datagrams_sent (since u u'))" "data = take (unat UDP_MAX_PACKET_SIZE) msg"
    by blast
  moreover have "\<forall>msg \<in> set msgs. length msg < 2 ^ 63" using assms(3) by fastforce
  ultimately show "data \<in> set msgs"
    using wpD [OF send_all_carries assms(1)] assms(2,3) by (auto simp: carries_def UDP_MAX_PACKET_SIZE_def)
qed

theorem datagrams_arrive_whole_witness:
  "data_handed (since (snd unicast_run) (snd udp_session)) = [[], ''hello''] \<and>
   set (data_handed (since (snd unicast_run) (snd udp_session))) \<subseteq> {''hello'', [], ''lost''}"
proof
  let ?u = "(snd unicast_run)\<lparr>world := no_script\<lparr>q_SendTo := [5, 0, 4]\<rparr>\<rparr>"
  have whole: "list_all whole_datagram (since ?u (snd socket_greets))" and ran: "posix_trace (trace (snd udp_session))"
    and sends: "datagrams_sent (since ?u (snd socket_greets)) = [''hello'', [], ''lost'']"
    by code_simp+
  have "set (filter loud (since (snd unicast_run) (snd udp_session))) = set [EvRecv 4 65507 0 [], EvReceiveData [],
      EvRecv 4 65507 (-1) [], EvRecv 4 65507 5 ''hello'', EvReceiveData ''hello'']"
    by code_simp
  then have "e \<in> set (since (snd unicast_run) (snd udp_session)) \<and> loud e \<Longrightarrow> e \<in> {EvRecv 4 65507 0 [],
      EvReceiveData [], EvRecv 4 65507 (-1) [], EvRecv 4 65507 5 ''hello'', EvReceiveData ''hello''}" for e
    by (simp add: set_eq_iff)
  then have "EvRecv (m_sockfd (snd unicast_run)) len n data \<in> set (since (snd unicast_run) (snd udp_session)) \<and> 0 \<le> sint n \<Longrightarrow>
      data \<in> take (unat len) ` {''hello'', [], ''lost''}" for len n data
    by fastforce
  then show "set (data_handed (since (snd unicast_run) (snd udp_session))) \<subseteq> {''hello'', [], ''lost''}"
    using datagrams_arrive_whole [OF prod.collapse [symmetric, of socket_greets, unfolded socket_greets_def]
        whole [unfolded socket_greets_def] _ udp_app.udp_callback_axioms
        prod.collapse [symmetric, of udp_session, unfolded udp_session_def], folded socket_greets_def udp_session_def] ran
    by (simp add: sends)
qed code_simp

end
