(* ===== verification/Spec2Isabelle.thy ===== *)
theory Spec2Isabelle
  imports Server_App Build_Variants Unit_Tests Connections
begin

text \<open>
  A verification library for sockets-cpp, a header-only C++ wrapper of the socket interface
  (\<open>include/sockets-cpp\<close>), and for its example programs (\<open>examples\<close>).

  \<^bold>\<open>The program and its parts.\<close> \<open>TcpClient\<close>, \<open>UdpSocket\<close> and \<open>TcpServer\<close> are class templates over a
  callback class and a class \<open>SocketImpl\<close> that makes the system calls (\<open>SocketCore\<close>, or the mock of
  the unit tests). Each object owns one thread: \<open>TcpClient::ReceiveTask\<close> and
  \<open>UdpSocket::ReceiveTask\<close> wait for data and call \<open>onReceiveData\<close>, \<open>TcpServer::serverTask\<close> accepts
  connections, keeps a table of clients and calls \<open>onClientConnect\<close>, \<open>onReceiveClientData\<close> and
  \<open>onClientDisconnect\<close>. The callback object may call the public operations of the object that
  calls it, and so may other threads. Names are resolved by \<open>AddrLookup\<close>; results and options are
  the structures of \<open>SocketCommon.h\<close>. The four example programs parse their options with
  \<open>getopt\<close>, of which \<open>examples/getopt.cpp\<close> is a port for Windows, and run a command loop.

  \<^bold>\<open>The theories.\<close>
  \<^item> \<open>Socket_Prelude\<close>: machine types, the outcomes of a C++ call that does not return (an escaping
    exception, \<open>std::terminate\<close>, \<open>exit\<close>, undefined behaviour), and a weakest-precondition calculus
    for programs of the state monad, in which every operation is written.
  \<^item> \<open>Cxx_Std\<close>: what the sources use of the C and C++ libraries: decimal conversion, \<open>snprintf\<close>,
    \<open>stoul\<close>, \<open>stoi\<close>, byte order, \<open>fd_set\<close> as a word of 1024 bits whose macros are partial.
  \<^item> \<open>SocketCommon\<close>, \<open>SocketCore\<close>, \<open>MockSocketCore\<close>, \<open>AddrLookup\<close>: the headers of these names (the mock
    from \<open>test/MockSocketCore.h\<close>). \<open>SocketImpl\<close> is a record of functions on an arbitrary world, so
    the operating system is a parameter. Every call appends an event to a trace. \<open>posix_trace\<close>
    says what the POSIX manual promises of the calls: a new descriptor is not one in use, a count
    does not exceed the buffer, \<open>select\<close> reports only what it was asked about. It is a hypothesis
    only where a theorem needs it.
  \<^item> \<open>Socket_Base\<close>: what the three classes share (their records extend \<open>sock\<close>) and the interfaces
    they have in common as locales: \<open>staged_setup\<close> (a sequence of calls that stops at the first
    failure), \<open>receive_loop\<close> (a thread that loads the stop flag and makes a pass),
    \<open>descriptor_owner\<close> (a component whose steps keep what it owns equal to what it holds) and
    \<open>polite_receiver\<close> (what a callback may do).
  \<^item> \<open>TcpClient\<close>, \<open>UdpSocket\<close>: \<open>TcpClient.h\<close> and \<open>UdpSocket.h\<close>, every operation, named as in the source.
  \<^item> \<open>Client_Table\<close>: the \<open>std::unordered_map\<close> of clients and its contract \<open>client_table\<close>.
  \<^item> \<open>TcpServer\<close>: the public operations of \<open>TcpServer.h\<close>, with the invariant \<open>server_inv\<close> (the table is
    indexed by the clients' descriptors and \<open>m_fds\<close> is the accept socket and the clients).
  \<^item> \<open>Server_Task\<close>: \<open>serverTask\<close> with the branches of its inner loop as definitions
    (\<open>serve_client\<close>, \<open>client_gone\<close>, \<open>serve_accept\<close>, \<open>add_client\<close>); the locales \<open>server_app\<close> and
    \<open>gentle_app\<close> are the contracts of its callback object.
  \<^item> \<open>Server_Limits\<close>: what the server thread does at its limits: deletion during a pass or by another
    thread, failing connections, descriptors from 1024 on.
  \<^item> \<open>Getopt\<close>: \<open>getopt\<close> and \<open>getopt_long\<close>, the syntax of options they implement (\<open>options\<close>), and the
    interface \<open>option_loop\<close> the programs use.
  \<^item> \<open>Example_Apps\<close>: \<open>clientApp.cpp\<close>, \<open>mcastApp.cpp\<close>, \<open>unicastApp.cpp\<close>; \<open>line_sender\<close> is the interface
    between their input loop and their sockets.
  \<^item> \<open>Server_App\<close>: \<open>serverApp.cpp\<close>; \<open>tracking_app\<close> is the contract of a callback object that keeps a
    set of clients, which \<open>ServerApp\<close> and the test object satisfy. \<open>serverApp_step\<close> is the life of the
    program between the constructor of its object and the destructor.
  \<^item> \<open>Connections\<close>: two programs at the ends of a network, with what a trace sends, receives and hands
    on as functions of its events. \<open>stream_sender\<close> is the interface of the two operations that write
    to a connection; the network is a hypothesis that relates the two traces.
  \<^item> \<open>Build_Variants\<close>: the builds with \<open>fmt\<close> and with \<open>snprintf\<close>, compared by a relation between programs
    (\<open>related\<close>) that is closed under the way programs are composed.
  \<^item> \<open>Unit_Tests\<close>: the test cases of \<open>test/test_*.cpp\<close>, statement by statement, as runs of the model on
    the mock. \<open>EXPECT_CALL\<close> scripts the answers of the mock and \<open>met\<close> counts the calls, as the
    cardinalities of googlemock say.

  \<^bold>\<open>What is shown.\<close> Set-up operations make their calls in order, stop at the first failure and report
  success exactly when they should (\<open>connectTo_calls\<close>, \<open>TcpServer_start_calls\<close>, \<open>udp_setup_calls\<close>,
  \<open>startMcast_group\<close>). The threads deliver what they receive, unchanged and in
  order (\<open>TcpClient_ReceiveTask_delivers\<close>, \<open>UdpSocket_ReceiveTask_delivers\<close>), and the server thread keeps
  its invariant, follows the protocol of \<open>session\<close>, and attends to exactly the ready descriptors
  (\<open>serverTask_sessions\<close>, \<open>serverTask_pass_attends\<close>, \<open>accept_only_on_listener\<close>). End to end, what one
  program sends is what the application of the other is given: the bytes of a connection in both
  directions (\<open>client_to_server_stream\<close>, \<open>server_to_client_stream\<close>) and whole datagrams
  (\<open>datagrams_arrive_whole\<close>), if the network carries them as TCP and UDP promise. The threads end once the stop
  flag is set (\<open>threads_terminate\<close>). After any history the destructor returns normally, no descriptor
  leaks and none is closed that was not owned (\<open>TcpClient_no_leak\<close>, \<open>UdpSocket_no_leak\<close>,
  \<open>TcpServer_no_leak\<close>, and \<open>serverApp_closes_everything\<close> for a whole program), and a server is well formed
  at every point of it (\<open>TcpServer_well_formed\<close>). Sending reports success exactly when the whole message
  was taken (\<open>sendMsg_complete\<close>, \<open>sendBcast_reaches_clients\<close>). The two builds differ
  in the texts of messages only (\<open>builds_agree\<close>), and both pass the unit tests (\<open>unit_tests_pass\<close>).
  \<open>getopt\<close> refines the option syntax, and the programs composed of all this do what their usage says (\<open>clientApp_session\<close>, \<open>udp_apps_session\<close>, \<open>clientApp_prints\<close>,
  \<open>serverApp_knows_clients\<close>, \<open>mains_read_arguments\<close>) or print it (\<open>mains_print_usage\<close>). The remaining
  properties state the behaviours the code gets wrong, each on a concrete or a general input: a
  client object that is connected twice (\<open>client_reuse\<close>), the dangling pointers after \<open>deleteClient\<close>, a client kept after a failed
  \<open>recv\<close>, the input loop at the end of its input.

  \<^bold>\<open>Threads.\<close> The stop flag is atomic; \<open>stop_stores\<close> lists what the other thread stores between the
  loads of the loop, and the theorems range over all lists. Operations of other threads on a
  server run at the points where the server thread takes the lock or reads shared members
  (\<open>interleave\<close>, from the list \<open>others\<close>); those under the lock are single steps. Data races at a finer
  grain are not modelled; where the source has one, the interleaved model already shows undefined
  behaviour (\<open>delete_race_dangles\<close>, \<open>sendClientMessage_race\<close>).

  \<^bold>\<open>Bounds.\<close> The loops of the threads and of the console take a number of passes as fuel and return
  \<open>None\<close> when it is used up. It is enough to have one pass for each load of the flag up to the one
  that sees it set (\<open>threads_terminate\<close>), and one for each line up to \<open>quit\<close> (\<open>clientApp_session\<close>,
  \<open>udp_apps_session\<close>); without \<open>quit\<close> no fuel is enough (\<open>apps_spin_at_eof\<close>). The option loop is a
  partial function and shown to be total.

  \<^bold>\<open>Not modelled.\<close> The Windows branches of the headers (\<open>WSAStartup\<close>, \<open>closesocket\<close>, error codes); the
  build and continuous-integration files, of which the option \<open>FMT_SUPPORT\<close> is a parameter; the
  matchers \<open>NotNull()\<close> of the unit tests, and schedules of their threads other than the one where the
  thread of the object runs while the test sleeps; the network between two programs, which is a
  hypothesis on their traces; \<open>std::bad_alloc\<close>; the layout of \<open>addrinfo\<close> beyond the IPv4 addresses it
  lists. The C library behind \<open>inet_pton\<close>, \<open>inet_ntop\<close> and the iteration order of
  \<open>std::unordered_map\<close> are parameters (record \<open>platform\<close>).
\<close>

section \<open>Command lines of the example applications\<close>

text \<open>
  C28. Every \<open>main\<close> reads back what its command line says: the options of the four applications, in
  the order of their usage texts, give the addresses as they are and the port numbers modulo 65536,
  since the result of \<open>std::stoul\<close> is cast to \<open>uint16_t\<close> without a check.
\<close>

theorem mains_read_arguments:
  assumes "list_all c_string [prog, addr, local]" "n < 2 ^ 64" "k < 2 ^ 64"
  shows "parse_args serverApp_option [prog, ''-p'', dec_nat n, ''-L'', local] ''p:L:?'' (0, Some ''0.0.0.0'') =
      Some (Inr (of_nat n, Some local)) \<and>
    parse_args clientApp_option [prog, ''-a'', addr, ''-p'', dec_nat n] ''a:p:?'' (None, 0) =
      Some (Inr (Some addr, of_nat n)) \<and>
    parse_args mcastApp_option [prog, ''-m'', addr, ''-p'', dec_nat n, ''-l'', local] ''m:p:l:?'' (None, None, 0) =
      Some (Inr (Some addr, Some local, of_nat n)) \<and>
    parse_args unicastApp_option [prog, ''-a'', addr, ''-l'', dec_nat k, ''-p'', dec_nat n, ''-L'', local]
        ''a:l:p:L:?'' (None, Some ''0.0.0.0'', 0, 0) =
      Some (Inr (Some addr, Some local, of_nat k, of_nat n)) \<and>
    unat (of_nat n :: uint16_t) = n mod 65536"
  using assms serverApp_arguments clientApp_arguments mcastApp_arguments unicastApp_arguments
  by (simp add: unat_of_nat)

theorem mains_read_arguments_witness:
  "parse_args clientApp_option [''clientApp'', ''-a'', ''localhost'', ''-p'', dec_nat 70000] ''a:p:?'' (None, 0) =
     Some (Inr (Some ''localhost'', of_nat 70000)) \<and>
   unat (of_nat 70000 :: uint16_t) = 4464"
  using mains_read_arguments [of "''clientApp''" "''localhost''" "''0.0.0.0''" 70000 0] by simp



section \<open>The threads end\<close>

text \<open>
  C18. The threads of all three classes end: once another thread has stored \<open>true\<close> in \<open>m_stop\<close>, the
  loop of the receive thread of a client, of a UDP socket and of the server thread returns after at
  most as many passes as it makes loads of the flag until then, whatever the operating system
  answers, whatever the callbacks do within their contracts, and whatever other threads do to a
  server.
\<close>

theorem threads_terminate:
  assumes "polite_callback cb" and "udp_callback on_data" and "server_app p core scb"
    and "\<forall>stores \<in> {stop_stores c, stop_stores u, stop_stores s}. True \<in> set stores \<and> length stores \<le> fuel"
  shows "(\<exists>ending. fst (run_state (TcpClient_ReceiveTask fuel p core cb junk) c) = Some ending) \<and>
    (\<exists>ending. fst (run_state (UdpSocket_ReceiveTask fuel core on_data junk) u) = Some ending) \<and>
    (\<exists>ending. fst (run_state (serverTask fuel p core scb) s) = Some ending)"
  using assms(4) TcpClient_ReceiveTask_terminates [OF assms(1)] UdpSocket_ReceiveTask_terminates [OF assms(2)]
    serverTask_terminates [OF assms(3)]
  by simp

theorem threads_terminate_witness:
  "(\<exists>ending. fst (run_state (TcpClient_ReceiveTask 4 example_platform MockSocketCore TcpClientTestApp_callback (\<lambda>_. CHR ''?''))
      (test_client no_script [False, False, True])) = Some ending) \<and>
   (\<exists>ending. fst (run_state (UdpSocket_ReceiveTask 4 MockSocketCore UdpTestApp_onReceiveData (\<lambda>_. CHR ''?''))
      (udp_test [False, True])) = Some ending) \<and>
   (\<exists>ending. fst (run_state (serverTask 4 example_platform MockSocketCore TcpServerTestApp_callback)
      (test_server_state no_script [[DeleteClient 5]])) = Some ending)"
  by (rule threads_terminate [OF test_app.polite_callback_axioms udp_app.udp_callback_axioms
      test_server.server_app_axioms])
    (simp add: test_client_def new_TcpClient_def udp_test_def new_UdpSocket_def test_server_state_def new_TcpServer_def)

section \<open>Sending\<close>

text \<open>
  C24. \<open>TcpClient::sendMsg\<close> makes one \<open>send\<close> on the client's socket and reports success exactly when
  the kernel took the whole message; \<open>sendClientMessage\<close> does the same on the connection of the client
  it is given, and reports failure without a call for an unknown handle; \<open>UdpSocket::sendMsg\<close> with a
  destination port makes one \<open>sendto\<close> to the stored destination and reports success exactly when the
  kernel took the whole datagram, and without one it makes no call at all and still reports success.
\<close>

theorem sendMsg_complete:
  assumes "run_state (TcpClient_sendMsg p core msg sz) c = (cret, c')" and "posix_trace (trace c')"
    and "run_state (UdpSocket_sendMsg p core msg sz) u = (uret, u')" and "posix_trace (trace u')" and "0 \<le> sint sz"
    and "run_state (sendClientMessage p core k msg sz) s = (r, s')" and "posix_trace (trace s')" and "table_ok s"
  shows "(\<exists>n. trace c' = trace c @ [EvSend (m_sockfd c) msg sz n] \<and> (m_success cret \<longleftrightarrow> n = sz)) \<and>
    (if sin_port (m_sockaddr u) = 0 then trace u' = trace u \<and> m_success uret
     else \<exists>n. trace u' = trace u @ [EvSendTo (m_sockfd u) msg sz (m_sockaddr u) n] \<and> (m_success uret \<longleftrightarrow> n = sz)) \<and>
    (if k \<in> client_keys s
     then \<exists>n ret. r = Inr ret \<and> trace s' = trace s @ [EvSend k msg sz n] \<and> (m_success ret \<longleftrightarrow> n = sz)
     else \<exists>why. r = Inr (fail_ret why) \<and> s' = s)"
  by (intro conjI TcpClient_sendMsg_complete [OF assms(1,2,5)] UdpSocket_sendMsg_complete [OF assms(3-5)]
      sendClientMessage_effect [OF assms(6-8,5)])

definition sent_client :: "SocketRet \<times> (mock, TcpClientTestApp) TcpClient" where
  "sent_client = run_state (TcpClient_sendMsg example_platform MockSocketCore ''hello'' 5) (test_client send_script [])"

definition sent_datagram :: "SocketRet \<times> (mock, string) UdpSocket" where
  "sent_datagram = run_state (UdpSocket_sendMsg example_platform MockSocketCore ''hello'' 5) (snd unicast_run)"

theorem sendMsg_complete_witness:
  "(\<exists>n. trace (snd sent_client) = [] @ [EvSend INVALID_SOCKET ''hello'' 5 n] \<and> (m_success (fst sent_client) \<longleftrightarrow> n = 5)) \<and>
   (\<exists>n. trace (snd sent_datagram) = trace (snd unicast_run) @ [EvSendTo 4 ''hello'' 5 (m_sockaddr (snd unicast_run)) n] \<and>
     (m_success (fst sent_datagram) \<longleftrightarrow> n = 5)) \<and>
   (\<exists>n ret. fst send_run = Inr ret \<and> trace (snd send_run) = trace (two_clients no_script) @ [EvSend 6 ''hello'' 5 n] \<and>
     (m_success ret \<longleftrightarrow> n = 5))"
proof -
  have "posix_trace (trace (snd sent_client))" "posix_trace (trace (snd sent_datagram))" "posix_trace (trace (snd send_run))"
    and port: "sin_port (m_sockaddr (snd unicast_run)) \<noteq> 0" and fd: "m_sockfd (snd unicast_run) = 4"
    by code_simp+
  with sendMsg_complete [OF prod.collapse [symmetric, of sent_client, unfolded sent_client_def] _
      prod.collapse [symmetric, of sent_datagram, unfolded sent_datagram_def] _ _
      prod.collapse [symmetric, of send_run, unfolded send_run_def] _ two_clients_inv(2),
      folded sent_client_def sent_datagram_def send_run_def]
  show ?thesis by (simp add: test_client_def new_TcpClient_def two_clients_def um_keys_def)
qed

end
